(* ===== verification/GoStrings.thy ===== *)
theory GoStrings
  imports Prelude "HOL-Library.Sublist"
begin

section \<open>The fragment of Go's string library the program uses\<close>

text \<open>
  Byte strings and the functions of the packages \<open>strings\<close>, \<open>bytes\<close>, \<open>unicode/utf8\<close> and
  \<open>strconv\<close> that the sources call, as the Go documentation and its standard library define
  them.  A string is its bytes; a rune is decoded from it, with U+FFFD of width one for a byte
  that starts no valid encoding.  The theory holds the library only: nothing here is specific to
  the proxy.
\<close>

subsection \<open>Bytes and runes\<close>

definition byte :: "char \<Rightarrow> nat" where
  "byte c = of_char c"

lemma byte_less [simp]: "byte c < 256"
  by (simp add: byte_def)

lemma byte_inject [simp]: "byte c = byte d \<longleftrightarrow> c = d"
  by (simp add: byte_def)

definition is_cont :: "char \<Rightarrow> bool" where
  "is_cont c \<longleftrightarrow> 128 \<le> byte c \<and> byte c \<le> 191"

definition byte_in :: "nat \<Rightarrow> nat \<Rightarrow> char \<Rightarrow> bool" where
  "byte_in lo hi c \<longleftrightarrow> lo \<le> byte c \<and> byte c \<le> hi"

text \<open>The range the second byte of a multi-byte encoding must be in, by the first byte.\<close>

definition second_lo :: "nat \<Rightarrow> nat" where
  "second_lo b = (if b = 224 then 160 else if b = 240 then 144 else 128)"

definition second_hi :: "nat \<Rightarrow> nat" where
  "second_hi b = (if b = 237 then 159 else if b = 244 then 143 else 191)"

definition rune_error :: nat where
  "rune_error = 65533"

text \<open>\<open>decode_rune s\<close> is \<open>utf8.DecodeRuneInString\<close>: the rune and its width.\<close>

definition decode_rune :: "string \<Rightarrow> nat \<times> nat" where
  "decode_rune s =
     (case s of
        [] \<Rightarrow> (rune_error, 0)
      | c0 # s1 \<Rightarrow>
          (let b = byte c0 in
           if b < 128 then (b, 1)
           else if b < 194 \<or> 244 < b then (rune_error, 1)
           else (case s1 of
              [] \<Rightarrow> (rune_error, 1)
            | c1 # s2 \<Rightarrow>
                (if \<not> byte_in (second_lo b) (second_hi b) c1 then (rune_error, 1)
                 else if b < 224 then ((b - 192) * 64 + (byte c1 - 128), 2)
                 else (case s2 of
                    [] \<Rightarrow> (rune_error, 1)
                  | c2 # s3 \<Rightarrow>
                      (if \<not> is_cont c2 then (rune_error, 1)
                       else if b < 240
                         then (((b - 224) * 64 + (byte c1 - 128)) * 64 + (byte c2 - 128), 3)
                       else (case s3 of
                          [] \<Rightarrow> (rune_error, 1)
                        | c3 # _ \<Rightarrow>
                            (if \<not> is_cont c3 then (rune_error, 1)
                             else ((((b - 240) * 64 + (byte c1 - 128)) * 64
                                     + (byte c2 - 128)) * 64 + (byte c3 - 128), 4)))))))))"

lemma decode_rune_Nil [simp]: "decode_rune [] = (rune_error, 0)"
  by (simp add: decode_rune_def)

lemma decode_rune_ascii [simp]: "byte c < 128 \<Longrightarrow> decode_rune (c # s) = (byte c, 1)"
  by (simp add: decode_rune_def)

lemma decode_rune_width:
  "s \<noteq> [] \<Longrightarrow> 0 < snd (decode_rune s) \<and> snd (decode_rune s) \<le> length s"
  by (cases s) (auto simp: decode_rune_def Let_def split: list.splits)

lemma decode_rune_non_ascii:
  assumes "128 \<le> byte c"
  shows "128 \<le> fst (decode_rune (c # s))"
  using assms
  by (auto simp: decode_rune_def Let_def rune_error_def byte_in_def second_lo_def second_hi_def
      is_cont_def split: list.splits if_splits)

text \<open>
  The pieces a \<open>for _, r := range s\<close> loop visits: each rune with the bytes it was decoded from.
\<close>

function rune_pieces :: "string \<Rightarrow> (nat \<times> string) list" where
  "rune_pieces s =
     (if s = [] then []
      else (fst (decode_rune s), take (snd (decode_rune s)) s)
             # rune_pieces (drop (snd (decode_rune s)) s))"
  by pat_completeness auto
termination
  by (relation "measure length") (use decode_rune_width in auto)

declare rune_pieces.simps [simp del]

lemma rune_pieces_Nil [simp]: "rune_pieces [] = []"
  by (simp add: rune_pieces.simps)

lemma rune_pieces_step:
  "s \<noteq> [] \<Longrightarrow> rune_pieces s =
     (fst (decode_rune s), take (snd (decode_rune s)) s)
       # rune_pieces (drop (snd (decode_rune s)) s)"
  by (subst rune_pieces.simps) simp

lemma rune_pieces_ascii [simp]:
  "byte c < 128 \<Longrightarrow> rune_pieces (c # s) = (byte c, [c]) # rune_pieces s"
  by (simp add: rune_pieces_step)

lemma concat_rune_pieces: "concat (map snd (rune_pieces s)) = s"
proof (induction s rule: rune_pieces.induct)
  case (1 s)
  then show ?case
    by (cases "s = []") (simp_all add: rune_pieces_step)
qed

definition runes :: "string \<Rightarrow> nat list" where
  "runes s = map fst (rune_pieces s)"

lemma runes_Nil [simp]: "runes [] = []"
  by (simp add: runes_def)

lemma runes_ascii [simp]: "byte c < 128 \<Longrightarrow> runes (c # s) = byte c # runes s"
  by (simp add: runes_def)

definition is_ascii :: "string \<Rightarrow> bool" where
  "is_ascii s \<longleftrightarrow> (\<forall>c \<in> set s. byte c < 128)"

lemma is_ascii_simps [simp]:
  "is_ascii []"
  "is_ascii (c # s) \<longleftrightarrow> byte c < 128 \<and> is_ascii s"
  "is_ascii (s @ t) \<longleftrightarrow> is_ascii s \<and> is_ascii t"
  by (auto simp: is_ascii_def)

lemma runes_of_ascii: "is_ascii s \<Longrightarrow> runes s = map byte s"
  by (induction s) simp_all

text \<open>
  A loop over the runes that only accepts ASCII characters is the same loop over the bytes: a
  byte outside ASCII is decoded to a rune outside ASCII or to U+FFFD.
\<close>

lemma all_runes_ascii:
  assumes "\<And>r. P r \<Longrightarrow> r < 128"
  shows "(\<forall>r \<in> set (runes s). P r) \<longleftrightarrow> (\<forall>c \<in> set s. P (byte c))"
proof (induction s)
  case Nil
  then show ?case by simp
next
  case (Cons c s)
  show ?case
  proof (cases "byte c < 128")
    case True
    then show ?thesis using Cons by simp
  next
    case False
    then have "128 \<le> fst (decode_rune (c # s))"
      by (intro decode_rune_non_ascii) simp
    moreover have "fst (decode_rune (c # s)) \<in> set (runes (c # s))"
      by (simp add: runes_def rune_pieces_step)
    ultimately show ?thesis
      using False assms by (force simp: not_less)
  qed
qed

text \<open>\<open>utf8.ValidString\<close>: no byte that decodes to U+FFFD with width one.\<close>

definition valid_utf8 :: "string \<Rightarrow> bool" where
  "valid_utf8 s \<longleftrightarrow> (\<forall>(r, p) \<in> set (rune_pieces s). \<not> (r = rune_error \<and> length p = 1))"

lemma valid_utf8_Nil [simp]: "valid_utf8 []"
  by (simp add: valid_utf8_def)

lemma valid_utf8_ascii_Cons [simp]: "byte c < 128 \<Longrightarrow> valid_utf8 (c # s) \<longleftrightarrow> valid_utf8 s"
  by (simp add: valid_utf8_def rune_error_def)

lemma valid_utf8_ascii: "is_ascii s \<Longrightarrow> valid_utf8 s"
  by (induction s) simp_all

subsection \<open>White space\<close>

text \<open>\<open>unicode.IsSpace\<close>.\<close>

definition is_space_rune :: "nat \<Rightarrow> bool" where
  "is_space_rune r \<longleftrightarrow>
     r \<in> {9, 10, 11, 12, 13, 32, 133, 160, 5760, 8232, 8233, 8239, 8287, 12288}
     \<or> (8192 \<le> r \<and> r \<le> 8202)"

text \<open>\<open>strings.TrimSpace\<close> and \<open>bytes.TrimSpace\<close>: leading and trailing white-space runes go.\<close>

definition trim_space :: "string \<Rightarrow> string" where
  "trim_space s =
     concat (map snd
       (rev (dropWhile (is_space_rune \<circ> fst)
         (rev (dropWhile (is_space_rune \<circ> fst) (rune_pieces s))))))"

lemma trim_space_Nil [simp]: "trim_space [] = []"
  by (simp add: trim_space_def)

definition ascii_space :: "char \<Rightarrow> bool" where
  "ascii_space c \<longleftrightarrow> byte c \<in> {9, 10, 11, 12, 13, 32}"

lemma is_space_rune_ascii: "byte c < 128 \<Longrightarrow> is_space_rune (byte c) = ascii_space c"
  by (auto simp: is_space_rune_def ascii_space_def)

lemma rune_pieces_of_ascii: "is_ascii s \<Longrightarrow> rune_pieces s = map (\<lambda>c. (byte c, [c])) s"
  by (induction s) simp_all

text \<open>On an ASCII string trimming drops leading and trailing ASCII white space.\<close>

lemma trim_space_of_ascii:
  assumes "is_ascii s"
  shows "trim_space s = rev (dropWhile ascii_space (rev (dropWhile ascii_space s)))"
proof -
  have dw: "dropWhile (is_space_rune \<circ> fst) (map (\<lambda>c. (byte c, [c])) t)
      = map (\<lambda>c. (byte c, [c])) (dropWhile ascii_space t)" if "is_ascii t" for t
    using that by (induction t) (simp_all add: is_space_rune_ascii)
  have asc: "is_ascii (rev (dropWhile ascii_space s))"
    using assms set_dropWhileD[of _ ascii_space s] by (auto simp: is_ascii_def)
  have "trim_space s = concat (map snd (map (\<lambda>c. (byte c, [c]))
      (rev (dropWhile ascii_space (rev (dropWhile ascii_space s))))))"
    by (simp add: trim_space_def rune_pieces_of_ascii[OF assms] dw[OF assms] rev_map dw[OF asc])
  also have "\<dots> = rev (dropWhile ascii_space (rev (dropWhile ascii_space s)))"
    by (simp add: comp_def)
  finally show ?thesis .
qed

subsection \<open>Searching, splitting and joining\<close>

text \<open>\<open>strings.ContainsAny(s, chars)\<close> for ASCII \<open>chars\<close>.\<close>

definition contains_any :: "string \<Rightarrow> string \<Rightarrow> bool" where
  "contains_any s chars \<longleftrightarrow> list_ex (\<lambda>c. List.member chars c) s"

lemma contains_any_iff: "contains_any s chars \<longleftrightarrow> (\<exists>c \<in> set s. c \<in> set chars)"
  by (simp add: contains_any_def list_ex_iff)

definition has_prefix :: "string \<Rightarrow> string \<Rightarrow> bool" where
  "has_prefix s p \<longleftrightarrow> take (length p) s = p"

definition has_suffix :: "string \<Rightarrow> string \<Rightarrow> bool" where
  "has_suffix s p \<longleftrightarrow> length p \<le> length s \<and> drop (length s - length p) s = p"

text \<open>\<open>strings.Count(s, c)\<close> for a one-byte substring.\<close>

definition count_byte :: "string \<Rightarrow> char \<Rightarrow> nat" where
  "count_byte s c = length (filter (\<lambda>x. x = c) s)"

text \<open>\<open>strings.Split(s, sep)\<close> for a one-byte separator: never empty.\<close>

fun split_on :: "char \<Rightarrow> string \<Rightarrow> string list" where
  "split_on c [] = [[]]"
| "split_on c (x # xs) =
     (if x = c then [] # split_on c xs
      else (case split_on c xs of
              [] \<Rightarrow> [[x]]
            | p # ps \<Rightarrow> (x # p) # ps))"

lemma split_on_nonempty [simp]: "split_on c s \<noteq> []"
  by (induction s) (auto split: list.splits)

text \<open>\<open>strings.Join(parts, sep)\<close>.\<close>

fun join_with :: "string \<Rightarrow> string list \<Rightarrow> string" where
  "join_with sep [] = []"
| "join_with sep [p] = p"
| "join_with sep (p # q # ps) = p @ sep @ join_with sep (q # ps)"

lemma join_split_on: "join_with [c] (split_on c s) = s"
proof (induction s)
  case Nil
  then show ?case by simp
next
  case (Cons x xs)
  obtain p ps where "split_on c xs = p # ps"
    by (cases "split_on c xs") auto
  with Cons show ?case
    by (cases ps) auto
qed

lemma split_on_no_sep: "p \<in> set (split_on c s) \<Longrightarrow> c \<notin> set p"
proof (induction s arbitrary: p)
  case Nil
  then show ?case by simp
next
  case (Cons x xs)
  then show ?case
    by (cases "split_on c xs") (auto split: if_splits)
qed

lemma split_join_on:
  "ps \<noteq> [] \<Longrightarrow> \<forall>p \<in> set ps. c \<notin> set p \<Longrightarrow> split_on c (join_with [c] ps) = ps"
proof (induction "[c]" ps rule: join_with.induct)
  case (2 p)
  then have "c \<notin> set p" by simp
  then show ?case by (induction p) auto
next
  case (3 p q ps)
  have "split_on c (p @ c # t) = p # split_on c t" if "c \<notin> set p" for t
    using that by (induction p) auto
  with 3 show ?case by simp
qed simp

lemma split_on_inject: "split_on c s = split_on c t \<longleftrightarrow> s = t"
  by (metis join_split_on)

text \<open>\<open>strings.Trim(s, cutset)\<close> for an ASCII cutset.\<close>

definition trim_byte :: "char \<Rightarrow> string \<Rightarrow> string" where
  "trim_byte c s = rev (dropWhile (\<lambda>x. x = c) (rev (dropWhile (\<lambda>x. x = c) s)))"

subsection \<open>Letter case\<close>

definition ascii_lower :: "char \<Rightarrow> char" where
  "ascii_lower c = (if byte_in 65 90 c then char_of (byte c + 32) else c)"

definition ascii_upper :: "char \<Rightarrow> char" where
  "ascii_upper c = (if byte_in 97 122 c then char_of (byte c - 32) else c)"

lemma byte_ascii_lower:
  "byte (ascii_lower c) = (if 65 \<le> byte c \<and> byte c \<le> 90 then byte c + 32 else byte c)"
proof -
  have "of_char (char_of n :: char) = n" if "n < 256" for n :: nat
    using that by simp
  then show ?thesis
    by (simp add: ascii_lower_def byte_in_def byte_def)
qed

lemma ascii_lower_idem [simp]: "ascii_lower (ascii_lower c) = ascii_lower c"
proof -
  have "byte (ascii_lower (ascii_lower c)) = byte (ascii_lower c)"
    by (simp add: byte_ascii_lower)
  then show ?thesis by simp
qed

text \<open>
  \<open>strings.ToLower\<close> and \<open>strings.EqualFold\<close> read the Unicode case tables on input outside ASCII.
  The tables are two parameters, used for such input only; on ASCII input both are the ASCII
  case map.
\<close>

record unicode_tables =
  table_lower :: "string \<Rightarrow> string"
  table_equal_fold :: "string \<Rightarrow> string \<Rightarrow> bool"

definition to_lower :: "('u) unicode_tables_scheme \<Rightarrow> string \<Rightarrow> string" where
  "to_lower u s = (if is_ascii s then map ascii_lower s else table_lower u s)"

definition equal_fold :: "('u) unicode_tables_scheme \<Rightarrow> string \<Rightarrow> string \<Rightarrow> bool" where
  "equal_fold u s t =
     (if is_ascii s \<and> is_ascii t then map ascii_lower s = map ascii_lower t
      else table_equal_fold u s t)"

lemma is_ascii_map_lower [simp]: "is_ascii (map ascii_lower s) \<longleftrightarrow> is_ascii s"
  by (induction s) (auto simp: byte_ascii_lower)

lemma to_lower_idem_ascii: "is_ascii s \<Longrightarrow> to_lower u (to_lower u s) = to_lower u s"
  by (simp add: to_lower_def comp_def)

lemma equal_fold_to_lower: "is_ascii s \<Longrightarrow> equal_fold u (to_lower u s) s"
  by (simp add: equal_fold_def to_lower_def comp_def)

lemma equal_fold_ascii_lower:
  "is_ascii s \<Longrightarrow> is_ascii t \<Longrightarrow> equal_fold u s t \<longleftrightarrow> to_lower u s = to_lower u t"
  by (simp add: equal_fold_def to_lower_def)

end
