(* ===== verification/HttpHeader.thy ===== *)
theory HttpHeader
  imports GoStrings
begin

section \<open>HTTP headers\<close>

text \<open>
  The type \<open>http.Header\<close> of \<open>net/http\<close> and the five operations the program uses.  A header maps
  a canonical field name to the list of its values; every operation canonicalises the name it is
  given, and an operation on a missing field is no error.  The interface locale \<open>header_ops\<close> is
  what the signing and clearing code relies on, and the model is its instance.
\<close>

type_synonym header = "string \<Rightarrow> string list option"

text \<open>The bytes \<open>net/textproto\<close> accepts in a field name (RFC 7230 tokens).\<close>

definition token_char :: "char \<Rightarrow> bool" where
  "token_char c \<longleftrightarrow>
     byte_in 97 122 c \<or> byte_in 65 90 c \<or> byte_in 48 57 c
     \<or> List.member ''!#$%&*+-.^_`|~'' c \<or> c = CHR 39"

fun canonical_bytes :: "bool \<Rightarrow> string \<Rightarrow> string" where
  "canonical_bytes upper [] = []"
| "canonical_bytes upper (c # cs) =
     (if upper then ascii_upper c else ascii_lower c) # canonical_bytes (c = CHR ''-'') cs"

text \<open>\<open>http.CanonicalHeaderKey\<close>: a name with an invalid byte is left as it is.\<close>

definition canonical_key :: "string \<Rightarrow> string" where
  "canonical_key k = (if list_all token_char k then canonical_bytes True k else k)"

definition header_set :: "header \<Rightarrow> string \<Rightarrow> string \<Rightarrow> header" where
  "header_set h k v = h(canonical_key k := Some [v])"

definition header_del :: "header \<Rightarrow> string \<Rightarrow> header" where
  "header_del h k = h(canonical_key k := None)"

definition header_values :: "header \<Rightarrow> string \<Rightarrow> string list" where
  "header_values h k = (case h (canonical_key k) of None \<Rightarrow> [] | Some vs \<Rightarrow> vs)"

definition header_get :: "header \<Rightarrow> string \<Rightarrow> string" where
  "header_get h k = (case header_values h k of [] \<Rightarrow> [] | v # _ \<Rightarrow> v)"

subsection \<open>The interface\<close>

locale header_ops =
  fixes set_field :: "'h \<Rightarrow> 'k \<Rightarrow> 'v \<Rightarrow> 'h"
    and del_field :: "'h \<Rightarrow> 'k \<Rightarrow> 'h"
    and field :: "'h \<Rightarrow> 'k \<Rightarrow> 'v list"
    and same :: "'k \<Rightarrow> 'k \<Rightarrow> bool"
  assumes field_set: "field (set_field h k v) k' = (if same k k' then [v] else field h k')"
    and field_del: "field (del_field h k) k' = (if same k k' then [] else field h k')"
    and same_refl: "same k k"
    and same_sym: "same k k' \<Longrightarrow> same k' k"
begin

text \<open>Deleting a list of fields and setting a list of fields, in order.\<close>

definition del_fields :: "'k list \<Rightarrow> 'h \<Rightarrow> 'h" where
  "del_fields ks h = foldl del_field h ks"

fun set_fields :: "('k \<times> 'v) list \<Rightarrow> 'h \<Rightarrow> 'h" where
  "set_fields [] h = h"
| "set_fields ((k, v) # kvs) h = set_fields kvs (set_field h k v)"

lemma field_del_fields:
  "field (del_fields ks h) k = (if \<exists>k' \<in> set ks. same k' k then [] else field h k)"
  unfolding del_fields_def by (induction ks arbitrary: h) (auto simp: field_del)

lemma field_set_fields_other:
  "\<forall>kv \<in> set kvs. \<not> same (fst kv) k \<Longrightarrow> field (set_fields kvs h) k = field h k"
  by (induction kvs h rule: set_fields.induct) (auto simp: field_set)

lemma field_set_fields:
  "(k, v) \<in> set kvs \<Longrightarrow> (\<And>w. (k, w) \<in> set kvs \<Longrightarrow> w = v)
    \<Longrightarrow> (\<And>k' w. (k', w) \<in> set kvs \<Longrightarrow> same k' k \<Longrightarrow> k' = k)
    \<Longrightarrow> field (set_fields kvs h) k = [v]"
proof (induction kvs h rule: set_fields.induct)
  case (2 k' v' kvs h)
  show ?case
  proof (cases "k \<in> fst ` set kvs")
    case True
    then have "(k, v) \<in> set kvs" using "2.prems"(2) by force
    moreover have "w = v" if "(k, w) \<in> set kvs" for w using that "2.prems"(2) by simp
    moreover have "k'' = k" if "(k'', w) \<in> set kvs" "same k'' k" for k'' w
      using that "2.prems"(3) by (meson list.set_intros(2))
    ultimately have "field (set_fields kvs (set_field h k' v')) k = [v]" by (rule "2.IH")
    then show ?thesis by (simp only: set_fields.simps)
  next
    case False
    have "(k, v) = (k', v') \<or> (k, v) \<in> set kvs" using "2.prems"(1) by simp
    with False have kv: "k' = k" "v' = v" by (auto simp: rev_image_eqI)
    have "\<not> same (fst kv) k" if "kv \<in> set kvs" for kv
    proof
      assume "same (fst kv) k"
      moreover have "(fst kv, snd kv) \<in> set ((k', v') # kvs)" using that by simp
      ultimately have "fst kv = k" by (intro "2.prems"(3))
      with that False show False by blast
    qed
    then have "field (set_fields kvs (set_field h k v)) k = field (set_field h k v) k"
      by (intro field_set_fields_other) blast
    then show ?thesis by (simp add: kv field_set same_refl)
  qed
qed simp

end

interpretation hdr: header_ops header_set header_del header_values
    "\<lambda>k k'. canonical_key k = canonical_key k'"
  by unfold_locales (auto simp: header_set_def header_del_def header_values_def)

text \<open>Runs of \<open>Set\<close> and of \<open>Del\<close> calls, in order.\<close>

fun header_set_all :: "(string \<times> string) list \<Rightarrow> header \<Rightarrow> header" where
  "header_set_all [] h = h"
| "header_set_all ((k, v) # kvs) h = header_set_all kvs (header_set h k v)"

definition header_del_all :: "string list \<Rightarrow> header \<Rightarrow> header" where
  "header_del_all ks h = foldl header_del h ks"

lemma header_set_all_fields: "header_set_all kvs h = hdr.set_fields kvs h"
  by (induction kvs h rule: header_set_all.induct) simp_all

lemma header_del_all_fields: "header_del_all ks h = hdr.del_fields ks h"
  by (simp add: header_del_all_def hdr.del_fields_def)

lemma header_values_del_all:
  "header_values (header_del_all ks h) k =
     (if \<exists>k' \<in> set ks. canonical_key k' = canonical_key k then [] else header_values h k)"
  by (simp add: header_del_all_fields hdr.field_del_fields)

lemma header_values_set_all_other:
  "\<forall>kv \<in> set kvs. canonical_key (fst kv) \<noteq> canonical_key k \<Longrightarrow>
     header_values (header_set_all kvs h) k = header_values h k"
  by (simp add: header_set_all_fields hdr.field_set_fields_other)

lemma header_get_set:
  "header_get (header_set h k v) k' =
     (if canonical_key k = canonical_key k' then v else header_get h k')"
  by (simp add: header_get_def hdr.field_set)

lemma header_get_del:
  "header_get (header_del h k) k' =
     (if canonical_key k = canonical_key k' then [] else header_get h k')"
  by (simp add: header_get_def hdr.field_del)

lemmas header_values_simps = hdr.field_set hdr.field_del
lemmas header_get_simps = header_get_set header_get_del

lemma header_at_set: "header_set h k v n = (if n = canonical_key k then Some [v] else h n)"
  by (simp add: header_set_def)

lemma header_at_del: "header_del h k n = (if n = canonical_key k then None else h n)"
  by (simp add: header_del_def)

subsection \<open>Header values\<close>

text \<open>
  \<open>validHeaderValue\<close> of \<open>internal/attestation/attestation.go\<close>: no surrounding white space, and
  no control character but the tab.
\<close>

definition header_byte_ok :: "char \<Rightarrow> bool" where
  "header_byte_ok c \<longleftrightarrow> byte c = 9 \<or> (32 \<le> byte c \<and> byte c \<noteq> 127)"

definition valid_header_value :: "string \<Rightarrow> bool" where
  "valid_header_value v \<longleftrightarrow> trim_space v = v \<and> list_all header_byte_ok v"

lemma valid_header_value_no_break:
  "valid_header_value v \<Longrightarrow> CHR 10 \<notin> set v \<and> CHR 13 \<notin> set v \<and> CHR 0x00 \<notin> set v"
  by (auto simp: valid_header_value_def header_byte_ok_def list_all_iff byte_def)

lemma valid_header_value_Nil [simp]: "valid_header_value []"
  by (simp add: valid_header_value_def)

text \<open>Header values made of URL-safe characters, commas and full stops are valid.\<close>

lemma valid_header_value_printable:
  assumes "\<forall>c \<in> set v. 33 \<le> byte c \<and> byte c \<le> 126"
  shows "valid_header_value v"
proof -
  have asc: "is_ascii v" using assms by (auto simp: is_ascii_def)
  have sp: "dropWhile ascii_space w = w" if "set w \<subseteq> set v" for w
  proof (cases w)
    case (Cons c cs)
    then have "33 \<le> byte c" using that assms by auto
    then have "\<not> ascii_space c" by (auto simp: ascii_space_def)
    then show ?thesis using Cons by simp
  qed simp
  have "trim_space v = v"
    by (simp add: trim_space_of_ascii[OF asc] sp)
  moreover have "list_all header_byte_ok v"
    using assms by (force simp: list_all_iff header_byte_ok_def)
  ultimately show ?thesis by (simp add: valid_header_value_def)
qed

end
