(* ===== verification/GoEncoding.thy ===== *)
theory GoEncoding
  imports GoStrings
begin

section \<open>Go's text encodings: decimal and hexadecimal numbers, base64url\<close>

text \<open>
  The functions of \<open>strconv\<close> and \<open>encoding/base64\<close> the program calls: \<open>FormatInt\<close> and
  \<open>ParseInt\<close> at 64 bits, \<open>ParseUint\<close> on the four digits of a JSON escape, and
  \<open>RawURLEncoding\<close>.  Each encoder has a round-trip lemma with its decoder.
\<close>

subsection \<open>Decimal numbers\<close>

definition digit_char :: "nat \<Rightarrow> char" where
  "digit_char d = char_of (48 + d)"

definition digit_val :: "char \<Rightarrow> nat option" where
  "digit_val c = (if byte_in 48 57 c then Some (byte c - 48) else None)"

lemma digit_val_digit_char [simp]: "d < 10 \<Longrightarrow> digit_val (digit_char d) = Some d"
  by (simp add: digit_val_def digit_char_def byte_in_def byte_def)

fun format_nat :: "nat \<Rightarrow> string" where
  "format_nat n = (if n < 10 then [digit_char n] else format_nat (n div 10) @ [digit_char (n mod 10)])"

declare format_nat.simps [simp del]

text \<open>\<open>strconv.FormatInt(n, 10)\<close> and \<open>strconv.Itoa\<close>.\<close>

definition format_int :: "int \<Rightarrow> string" where
  "format_int n = (if n < 0 then CHR ''-'' # format_nat (nat (- n)) else format_nat (nat n))"

fun parse_digits :: "nat \<Rightarrow> string \<Rightarrow> nat option" where
  "parse_digits acc [] = Some acc"
| "parse_digits acc (c # cs) =
     (case digit_val c of None \<Rightarrow> None | Some d \<Rightarrow> parse_digits (10 * acc + d) cs)"

definition parse_nat :: "string \<Rightarrow> nat option" where
  "parse_nat s = (if s = [] then None else parse_digits 0 s)"

definition int64_min :: int where "int64_min = - (2 ^ 63)"
definition int64_max :: int where "int64_max = 2 ^ 63 - 1"

definition in_int64 :: "int \<Rightarrow> bool" where
  "in_int64 n \<longleftrightarrow> int64_min \<le> n \<and> n \<le> int64_max"

text \<open>
  \<open>strconv.ParseInt(s, 10, 64)\<close>, and \<open>strconv.Atoi\<close> on a 64-bit platform: an optional sign, at
  least one digit, no other character, a value in range.  \<open>None\<close> is an error.
\<close>

definition parse_int64 :: "string \<Rightarrow> int option" where
  "parse_int64 s =
     (let neg = (s \<noteq> [] \<and> hd s = CHR ''-'');
          body = (if s \<noteq> [] \<and> (hd s = CHR ''-'' \<or> hd s = CHR ''+'') then tl s else s) in
      case parse_nat body of
        None \<Rightarrow> None
      | Some n \<Rightarrow>
          (let v = (if neg then - int n else int n) in
           if in_int64 v then Some v else None))"

lemma parse_digits_append:
  "parse_digits acc (s @ t) =
     (case parse_digits acc s of None \<Rightarrow> None | Some a \<Rightarrow> parse_digits a t)"
  by (induction s arbitrary: acc) (auto split: option.splits)

lemma format_nat_nonempty [simp]: "format_nat n \<noteq> []"
  by (subst format_nat.simps) simp

lemma parse_format_nat: "parse_digits 0 (format_nat n) = Some n"
proof (induction n rule: format_nat.induct)
  case (1 n)
  show ?case
  proof (cases "n < 10")
    case True
    then show ?thesis by (subst format_nat.simps) simp
  next
    case False
    with 1 have "parse_digits 0 (format_nat (n div 10)) = Some (n div 10)" by simp
    with False show ?thesis
      by (subst format_nat.simps) (simp add: parse_digits_append)
  qed
qed

lemma format_nat_digits: "c \<in> set (format_nat n) \<Longrightarrow> byte_in 48 57 c"
proof (induction n rule: format_nat.induct)
  case (1 n)
  have d: "byte_in 48 57 (digit_char d)" if "d < 10" for d
    using that by (simp add: digit_char_def byte_in_def byte_def)
  show ?case
  proof (cases "n < 10")
    case True
    with 1(2) d show ?thesis by (simp add: format_nat.simps[of n])
  next
    case False
    with 1 d show ?thesis by (auto simp: format_nat.simps[of n])
  qed
qed

lemma hd_format_nat: "byte_in 48 57 (hd (format_nat n))"
  using format_nat_digits[of "hd (format_nat n)" n] by simp

lemma parse_format_int:
  assumes "in_int64 n"
  shows "parse_int64 (format_int n) = Some n"
proof -
  have nosign: "hd (format_nat m) \<noteq> CHR ''-''" "hd (format_nat m) \<noteq> CHR ''+''" for m
    using hd_format_nat[of m] by (auto simp: byte_in_def byte_def)
  have pn: "parse_nat (format_nat m) = Some m" for m
    by (simp add: parse_nat_def parse_format_nat)
  show ?thesis
    using assms
    by (cases "n < 0") (simp_all add: format_int_def parse_int64_def nosign pn)
qed

lemma format_int_ascii: "c \<in> set (format_int n) \<Longrightarrow> byte_in 45 57 c"
  by (auto simp: format_int_def byte_in_def byte_def dest!: format_nat_digits split: if_splits)

subsection \<open>Hexadecimal digits\<close>

definition hex_val :: "char \<Rightarrow> nat option" where
  "hex_val c =
     (if byte_in 48 57 c then Some (byte c - 48)
      else if byte_in 97 102 c then Some (byte c - 87)
      else if byte_in 65 70 c then Some (byte c - 55)
      else None)"

lemma hex_val_less: "hex_val c = Some v \<Longrightarrow> v < 16"
  by (auto simp: hex_val_def byte_in_def split: if_splits)

text \<open>\<open>strconv.ParseUint(s, 16, 16)\<close> on a string of four bytes.\<close>

definition parse_hex4 :: "string \<Rightarrow> nat option" where
  "parse_hex4 s =
     (case s of
        [a, b, c, d] \<Rightarrow>
          (case (hex_val a, hex_val b, hex_val c, hex_val d) of
             (Some w, Some x, Some y, Some z) \<Rightarrow> Some (((w * 16 + x) * 16 + y) * 16 + z)
           | _ \<Rightarrow> None)
      | _ \<Rightarrow> None)"

text \<open>\<open>hex.EncodeToString\<close>.\<close>

definition hex_digit :: "nat \<Rightarrow> char" where
  "hex_digit d = (if d < 10 then char_of (48 + d) else char_of (87 + d))"

definition hex_encode :: "bytes \<Rightarrow> string" where
  "hex_encode s = concat (map (\<lambda>c. [hex_digit (byte c div 16), hex_digit (byte c mod 16)]) s)"

lemma hex_digit_lower:
  assumes "d < 16"
  shows "ascii_lower (hex_digit d) = hex_digit d" and "byte (hex_digit d) < 128"
  using assms by (auto simp: hex_digit_def ascii_lower_def byte_in_def byte_def)

lemma hex_encode_lower: "map ascii_lower (hex_encode s) = hex_encode s"
proof (induction s)
  case (Cons c s)
  have "byte c div 16 < 16" using byte_less[of c] by (simp add: div_less_iff_less_mult)
  with Cons show ?case by (simp add: hex_encode_def hex_digit_lower(1))
qed (simp add: hex_encode_def)

lemma hex_encode_ascii: "is_ascii (hex_encode s)"
proof (induction s)
  case (Cons c s)
  have "byte c div 16 < 16" using byte_less[of c] by (simp add: div_less_iff_less_mult)
  with Cons show ?case by (simp add: hex_encode_def hex_digit_lower(2))
qed (simp add: hex_encode_def)

subsection \<open>base64, URL alphabet, no padding\<close>

definition b64_char :: "nat \<Rightarrow> char" where
  "b64_char n =
     (if n < 26 then char_of (65 + n)
      else if n < 52 then char_of (71 + n)
      else if n < 62 then char_of (n - 4)
      else if n = 62 then CHR ''-''
      else CHR ''_'')"

definition b64_val :: "char \<Rightarrow> nat option" where
  "b64_val c =
     (if byte_in 65 90 c then Some (byte c - 65)
      else if byte_in 97 122 c then Some (byte c - 71)
      else if byte_in 48 57 c then Some (byte c + 4)
      else if c = CHR ''-'' then Some 62
      else if c = CHR ''_'' then Some 63
      else None)"

text \<open>The characters a challenge, a proof reference and a base64url string are made of.\<close>

definition url_safe :: "char \<Rightarrow> bool" where
  "url_safe c \<longleftrightarrow>
     byte_in 97 122 c \<or> byte_in 65 90 c \<or> byte_in 48 57 c \<or> c = CHR ''-'' \<or> c = CHR ''_''"

lemma b64_val_char [simp]: "n < 64 \<Longrightarrow> b64_val (b64_char n) = Some n"
  by (auto simp: b64_val_def b64_char_def byte_in_def byte_def)

lemma b64_char_url_safe: "n < 64 \<Longrightarrow> url_safe (b64_char n)"
  by (auto simp: url_safe_def b64_char_def byte_in_def byte_def)

fun b64_encode :: "bytes \<Rightarrow> string" where
  "b64_encode [] = []"
| "b64_encode [a] =
     [b64_char (byte a div 4), b64_char (byte a mod 4 * 16)]"
| "b64_encode [a, b] =
     [b64_char (byte a div 4), b64_char (byte a mod 4 * 16 + byte b div 16),
      b64_char (byte b mod 16 * 4)]"
| "b64_encode (a # b # c # s) =
     b64_char (byte a div 4) # b64_char (byte a mod 4 * 16 + byte b div 16)
       # b64_char (byte b mod 16 * 4 + byte c div 64) # b64_char (byte c mod 64)
       # b64_encode s"

definition quad1 :: "nat \<Rightarrow> nat \<Rightarrow> char" where
  "quad1 w x = char_of (w * 4 + x div 16)"

definition quad2 :: "nat \<Rightarrow> nat \<Rightarrow> char" where
  "quad2 x y = char_of (x mod 16 * 16 + y div 4)"

definition quad3 :: "nat \<Rightarrow> nat \<Rightarrow> char" where
  "quad3 y z = char_of (y mod 4 * 64 + z)"

text \<open>
  The decoder on the sextets: a last group of one sextet is corrupt, and the unused bits of a
  last group of two or three are ignored (the encoding is not \<open>Strict\<close>).
\<close>

fun b64_sextets :: "nat list \<Rightarrow> bytes option" where
  "b64_sextets [] = Some []"
| "b64_sextets [w] = None"
| "b64_sextets [w, x] = Some [quad1 w x]"
| "b64_sextets [w, x, y] = Some [quad1 w x, quad2 x y]"
| "b64_sextets (w # x # y # z # s) =
     map_option (\<lambda>t. quad1 w x # quad2 x y # quad3 y z # t) (b64_sextets s)"

text \<open>\<open>DecodeString\<close> skips carriage returns and line feeds anywhere in its input.\<close>

definition b64_decode :: "string \<Rightarrow> bytes option" where
  "b64_decode s =
     (let cs = filter (\<lambda>c. c \<noteq> CHR 13 \<and> c \<noteq> CHR 10) s;
          vs = map b64_val cs in
      if list_all (\<lambda>v. v \<noteq> None) vs then b64_sextets (map the vs) else None)"

lemma byte_divs:
  "byte a div 4 < 64" "byte a div 16 < 16" "byte a div 64 < 4"
  using byte_less[of a] by (simp_all add: div_less_iff_less_mult)

lemma regroup:
  fixes r x :: nat
  shows "x < 16 \<Longrightarrow> (r * 16 + x) div 16 = r" and "x < 16 \<Longrightarrow> (r * 16 + x) mod 16 = x"
    and "x < 4 \<Longrightarrow> (r * 4 + x) div 4 = r" and "x < 4 \<Longrightarrow> (r * 4 + x) mod 4 = x"
  by simp_all

lemma quad_simps:
  fixes a b c :: char
  shows "quad1 (byte a div 4) (byte a mod 4 * 16 + byte b div 16) = a"
    and "quad1 (byte a div 4) (byte a mod 4 * 16) = a"
    and "quad2 (byte a mod 4 * 16 + byte b div 16) (byte b mod 16 * 4 + byte c div 64) = b"
    and "quad2 (byte a mod 4 * 16 + byte b div 16) (byte b mod 16 * 4) = b"
    and "quad3 (byte b mod 16 * 4 + byte c div 64) (byte c mod 64) = c"
proof -
  have r: "char_of (byte d) = d" for d by (simp add: byte_def)
  show "quad1 (byte a div 4) (byte a mod 4 * 16 + byte b div 16) = a"
    unfolding quad1_def regroup(1)[OF byte_divs(2)] div_mult_mod_eq r ..
  show "quad1 (byte a div 4) (byte a mod 4 * 16) = a"
    using regroup(1)[of 0 "byte a mod 4"] by (simp add: quad1_def div_mult_mod_eq r)
  show "quad2 (byte a mod 4 * 16 + byte b div 16) (byte b mod 16 * 4 + byte c div 64) = b"
    unfolding quad2_def regroup(2)[OF byte_divs(2)] regroup(3)[OF byte_divs(3)] div_mult_mod_eq r ..
  show "quad2 (byte a mod 4 * 16 + byte b div 16) (byte b mod 16 * 4) = b"
    using regroup(3)[of 0 "byte b mod 16"] unfolding quad2_def regroup(2)[OF byte_divs(2)]
    by (simp add: div_mult_mod_eq r)
  show "quad3 (byte b mod 16 * 4 + byte c div 64) (byte c mod 64) = c"
    unfolding quad3_def regroup(4)[OF byte_divs(3)] div_mult_mod_eq r ..
qed

lemma sextet_bounds:
  "byte a div 4 < 64" "byte a mod 4 * 16 < 64" "byte a mod 4 * 16 + byte b div 16 < 64"
  "byte b mod 16 * 4 < 64" "byte b mod 16 * 4 + byte c div 64 < 64" "byte c mod 64 < 64"
proof -
  have "byte a mod 4 < 4" "byte b mod 16 < 16" by simp_all
  with byte_divs[of a] byte_divs[of b] byte_divs[of c]
  show "byte a div 4 < 64" "byte a mod 4 * 16 < 64" "byte a mod 4 * 16 + byte b div 16 < 64"
    "byte b mod 16 * 4 < 64" "byte b mod 16 * 4 + byte c div 64 < 64" "byte c mod 64 < 64"
    by linarith+
qed

lemma b64_encode_url_safe: "c \<in> set (b64_encode s) \<Longrightarrow> url_safe c"
  by (induction s rule: b64_encode.induct) (auto intro: b64_char_url_safe sextet_bounds)

lemma b64_encode_sextets:
  "list_all (\<lambda>v. v \<noteq> None) (map b64_val (b64_encode s))
   \<and> b64_sextets (map the (map b64_val (b64_encode s))) = Some s"
  by (induction s rule: b64_encode.induct) (simp_all add: sextet_bounds quad_simps)

lemma b64_round_trip: "b64_decode (b64_encode s) = Some s"
proof -
  have "filter (\<lambda>c. c \<noteq> CHR 13 \<and> c \<noteq> CHR 10) (b64_encode s) = b64_encode s"
    by (rule filter_True) (auto dest!: b64_encode_url_safe simp: url_safe_def byte_in_def byte_def)
  then show ?thesis
    using b64_encode_sextets[of s] by (simp add: b64_decode_def Let_def)
qed

lemma b64_encode_inject: "b64_encode s = b64_encode t \<longleftrightarrow> s = t"
  by (metis b64_round_trip option.inject)

lemma length_b64_encode: "length (b64_encode s) = (length s * 4 + 2) div 3"
  by (induction s rule: b64_encode.induct) simp_all

end
