(* ===== verification/GoNet.thy ===== *)
theory GoNet
  imports HttpHeader GoEncoding
begin

section \<open>Media types and URLs\<close>

text \<open>
  The functions of the packages \<open>mime\<close>, \<open>net/url\<close> and \<open>net\<close> the program calls, as the Go standard
  library defines them: \<open>ParseMediaType\<close>, of which the program uses the media type and the error,
  and the writing of a URL with the escapes of its parts.  Nothing here is specific to the proxy.
\<close>

subsection \<open>Media types\<close>

definition trim_left_space :: "string \<Rightarrow> string" where
  "trim_left_space s = concat (map snd (dropWhile (is_space_rune \<circ> fst) (rune_pieces s)))"

lemma length_concat_dropWhile:
  "length (concat (map snd (dropWhile P xs))) \<le> length (concat (map snd xs))"
  by (induction xs) auto

lemma length_trim_left_space: "length (trim_left_space s) \<le> length s"
  using length_concat_dropWhile[of _ "rune_pieces s"]
  by (simp add: trim_left_space_def concat_rune_pieces)

definition tspecial :: "char \<Rightarrow> bool" where
  "tspecial c \<longleftrightarrow> List.member ([CHR 34, CHR 92] @ ''()<>@,;:/[]?='') c"

definition mime_token_char :: "char \<Rightarrow> bool" where
  "mime_token_char c \<longleftrightarrow> 32 < byte c \<and> byte c < 127 \<and> \<not> tspecial c"

definition consume_token :: "string \<Rightarrow> string \<times> string" where
  "consume_token v = (takeWhile mime_token_char v, dropWhile mime_token_char v)"

text \<open>The rest of a quoted string; \<open>None\<close> when it has a line break or no closing quote.\<close>

fun consume_quoted :: "string \<Rightarrow> string \<Rightarrow> (string \<times> string) option" where
  "consume_quoted acc [] = None"
| "consume_quoted acc (c # cs) =
     (if c = CHR 34 then Some (rev acc, cs)
      else if c = CHR 92 \<and> cs \<noteq> [] \<and> tspecial (hd cs) then consume_quoted (hd cs # acc) (tl cs)
      else if c = CHR 13 \<or> c = CHR 10 then None
      else consume_quoted (c # acc) cs)"

definition consume_value :: "string \<Rightarrow> string \<times> string" where
  "consume_value v =
     (case v of
        [] \<Rightarrow> ([], [])
      | c # cs \<Rightarrow>
          (if c \<noteq> CHR 34 then consume_token v
           else case consume_quoted [] cs of None \<Rightarrow> ([], v) | Some p \<Rightarrow> p))"

text \<open>One parameter: its name, its value and what follows; \<open>None\<close> is the empty name.\<close>

definition consume_media_param ::
  "('u) unicode_tables_scheme \<Rightarrow> string \<Rightarrow> (string \<times> string \<times> string) option" where
  "consume_media_param u v =
     (case trim_left_space v of
        [] \<Rightarrow> None
      | c # r1 \<Rightarrow>
          (if c \<noteq> CHR '';'' then None
           else (case consume_token (trim_left_space r1) of (param, r2) \<Rightarrow>
             (if to_lower u param = [] then None
              else (case trim_left_space r2 of
                 [] \<Rightarrow> None
               | d # r3 \<Rightarrow>
                   (if d \<noteq> CHR ''='' then None
                    else (let r4 = trim_left_space r3 in
                      (case consume_value r4 of (value, r5) \<Rightarrow>
                        (if value = [] \<and> r5 = r4 then None
                         else Some (to_lower u param, value, r5))))))))))"

lemma length_consume_token: "length (snd (consume_token v)) \<le> length v"
  by (simp add: consume_token_def length_dropWhile_le)

lemma length_consume_quoted: "consume_quoted acc v = Some (x, r) \<Longrightarrow> length r < length v"
proof (induction acc v rule: consume_quoted.induct)
  case (2 acc c cs)
  have "length r < length (tl cs)" if "cs \<noteq> []" "consume_quoted (hd cs # acc) (tl cs) = Some (x, r)"
    "c \<noteq> CHR 34" "c = CHR 92" "tspecial (hd cs)"
    using 2(1) that by blast
  with 2(2-3) show ?case by (cases cs) (auto split: if_splits)
qed simp

lemma length_consume_value: "length (snd (consume_value v)) \<le> length v"
  using length_consume_token[of v]
  by (auto simp: consume_value_def split: list.split option.split dest!: length_consume_quoted)

lemma consume_media_param_shorter:
  assumes "consume_media_param u v = Some (k, x, r)"
  shows "length r < length v"
proof -
  obtain c r1 where 1: "trim_left_space v = c # r1"
    using assms by (cases "trim_left_space v") (auto simp: consume_media_param_def)
  obtain p r2 where 2: "consume_token (trim_left_space r1) = (p, r2)" by fastforce
  obtain d r3 where 3: "trim_left_space r2 = d # r3"
    using assms 1 2
    by (cases "trim_left_space r2") (auto simp: consume_media_param_def split: if_splits)
  have "r = snd (consume_value (trim_left_space r3))"
    using assms 1 2 3
    by (auto simp: consume_media_param_def Let_def split: if_splits prod.splits)
  then have "length r \<le> length r3"
    using length_consume_value[of "trim_left_space r3"] length_trim_left_space[of r3] by simp
  also have "length r3 < length r2" using 3 length_trim_left_space[of r2] by simp
  also have "length r2 \<le> length r1"
    using 2 length_consume_token[of "trim_left_space r1"] length_trim_left_space[of r1] by simp
  also have "length r1 < length v" using 1 length_trim_left_space[of v] by simp
  finally show ?thesis by simp
qed

text \<open>
  The parameter loop: whether it ends without an error.  The list holds the parameters seen; a name
  with a star lives in a map of its own in the Go code, keyed by the same full name.
\<close>

function media_params_ok ::
  "('u) unicode_tables_scheme \<Rightarrow> string \<Rightarrow> (string \<times> string) list \<Rightarrow> bool" where
  "media_params_ok u v seen =
     (let w = trim_left_space v in
      if w = [] then True
      else (case consume_media_param u w of
              None \<Rightarrow> trim_space w = '';''
            | Some (key, value, rest) \<Rightarrow>
                (case map_of seen key of
                   Some old \<Rightarrow> (if old \<noteq> value then False else media_params_ok u rest seen)
                 | None \<Rightarrow> media_params_ok u rest ((key, value) # seen))))"
  by pat_completeness auto
termination
  by (relation "measure (\<lambda>(u, v, seen). length v)")
    (auto dest!: consume_media_param_shorter intro: less_le_trans[OF _ length_trim_left_space])

declare media_params_ok.simps [simp del]

definition media_type_ok :: "string \<Rightarrow> bool" where
  "media_type_ok s =
     (case consume_token s of (main_type, rest) \<Rightarrow>
        main_type \<noteq> [] \<and>
        (case rest of
           [] \<Rightarrow> True
         | c # cs \<Rightarrow> c = CHR ''/'' \<and>
             (case consume_token cs of (sub_type, rest2) \<Rightarrow> sub_type \<noteq> [] \<and> rest2 = [])))"

text \<open>\<open>mime.ParseMediaType\<close>: the media type; \<open>None\<close> is an error.\<close>

definition parse_media_type :: "('u) unicode_tables_scheme \<Rightarrow> string \<Rightarrow> string option" where
  "parse_media_type u v =
     (let base = takeWhile (\<lambda>c. c \<noteq> CHR '';'') v;
          media = trim_space (to_lower u base) in
      if media_type_ok media \<and> media_params_ok u (drop (length base) v) [] then Some media else None)"

lemma parse_media_type_ok: "parse_media_type u v = Some m \<Longrightarrow> media_type_ok m"
  by (auto simp: parse_media_type_def Let_def split: if_splits)

lemma byte_slash: "33 \<le> byte CHR ''/'' \<and> byte CHR ''/'' \<le> 126"
  by (simp add: byte_def)

lemma media_type_ok_bytes:
  assumes "media_type_ok m"
  shows "\<forall>c \<in> set m. 33 \<le> byte c \<and> byte c \<le> 126" and "m \<noteq> []"
proof -
  have tok: "33 \<le> byte c \<and> byte c \<le> 126" if "c \<in> set (takeWhile mime_token_char s)" for c s
    using set_takeWhileD[OF that] by (auto simp: mime_token_char_def)
  obtain rest where m: "m = takeWhile mime_token_char m @ rest" "rest = dropWhile mime_token_char m"
    by (metis takeWhile_dropWhile_split)
  have "\<forall>c \<in> set rest. 33 \<le> byte c \<and> byte c \<le> 126"
  proof (cases rest)
    case (Cons d cs)
    with assms m have "d = CHR ''/''" "dropWhile mime_token_char cs = []"
      by (auto simp: media_type_ok_def consume_token_def split: list.splits)
    moreover then have "takeWhile mime_token_char cs = cs"
      by (metis append_Nil2 takeWhile_dropWhile_split)
    ultimately show ?thesis using Cons tok[of _ cs] by (metis Un_iff byte_slash list.set_intros(1) set_ConsD)
  qed simp
  then show "\<forall>c \<in> set m. 33 \<le> byte c \<and> byte c \<le> 126"
    using m(1) tok[of _ m] by (metis Un_iff set_append)
  show "m \<noteq> []" using assms by (auto simp: media_type_ok_def consume_token_def)
qed

subsection \<open>Host names\<close>

definition all_digits :: "string \<Rightarrow> bool" where
  "all_digits s \<longleftrightarrow> list_all (byte_in 48 57) s"

text \<open>\<open>URL.Hostname\<close>: a port after the last colon and the brackets of an IPv6 address go.\<close>

definition host_name :: "string \<Rightarrow> string" where
  "host_name host =
     (let port = rev (takeWhile (\<lambda>c. c \<noteq> CHR '':'') (rev host));
          h = (if CHR '':'' \<in> set host \<and> all_digits port
               then take (length host - length port - 1) host else host) in
      if has_prefix h ''['' \<and> has_suffix h '']'' then butlast (tl h) else h)"

definition join_host_port :: "string \<Rightarrow> string \<Rightarrow> string" where
  "join_host_port host port =
     (if List.member host CHR '':'' then ''['' @ host @ '']:'' @ port else host @ '':'' @ port)"

subsection \<open>Escapes\<close>

datatype url_part = UrlPath | UrlUserPassword | UrlHost | UrlQuery | UrlFragment

definition alnum :: "char \<Rightarrow> bool" where
  "alnum c \<longleftrightarrow> byte_in 97 122 c \<or> byte_in 65 90 c \<or> byte_in 48 57 c"

definition should_escape :: "url_part \<Rightarrow> char \<Rightarrow> bool" where
  "should_escape m c =
     (if alnum c then False
      else if m = UrlHost \<and> List.member ([CHR 34, CHR 39] @ ''!$&()*+,;=:[]<>'') c then False
      else if List.member ''-_.~'' c then False
      else if List.member ''$&+,/:;=?@'' c \<and> m \<noteq> UrlHost then
        (case m of
           UrlPath \<Rightarrow> c = CHR ''?''
         | UrlUserPassword \<Rightarrow> List.member ''@/?:'' c
         | UrlFragment \<Rightarrow> False
         | _ \<Rightarrow> True)
      else \<not> (m = UrlFragment \<and> List.member ''!()*'' c))"

definition upper_hex :: "nat \<Rightarrow> char" where
  "upper_hex d = (if d < 10 then char_of (48 + d) else char_of (55 + d))"

definition url_escape_char :: "url_part \<Rightarrow> char \<Rightarrow> string" where
  "url_escape_char m c =
     (if should_escape m c then
        (if m = UrlQuery \<and> c = CHR '' '' then ''+''
         else [CHR ''%'', upper_hex (byte c div 16), upper_hex (byte c mod 16)])
      else [c])"

definition url_escape :: "url_part \<Rightarrow> string \<Rightarrow> string" where
  "url_escape m s = concat (map (url_escape_char m) s)"

text \<open>\<open>unescape\<close> for every part but the host; \<open>None\<close> is the error on a bad escape.\<close>

fun url_unescape :: "url_part \<Rightarrow> string \<Rightarrow> string option" where
  "url_unescape m [] = Some []"
| "url_unescape m (c # cs) =
     (if c = CHR ''%'' then
        (case cs of
           h # l # t \<Rightarrow>
             (case (hex_val h, hex_val l) of
                (Some x, Some y) \<Rightarrow> map_option (\<lambda>r. char_of (16 * x + y) # r) (url_unescape m t)
              | _ \<Rightarrow> None)
         | _ \<Rightarrow> None)
      else map_option (\<lambda>r. (if m = UrlQuery \<and> c = CHR ''+'' then CHR '' '' else c) # r)
             (url_unescape m cs))"

lemma hex_val_upper_hex: "d < 16 \<Longrightarrow> hex_val (upper_hex d) = Some d"
  by (auto simp: hex_val_def upper_hex_def byte_in_def byte_def)

lemma should_escape_percent: "should_escape m CHR ''%''"
  by (cases m) (simp_all add: should_escape_def alnum_def byte_in_def byte_def)

lemma should_escape_plus: "should_escape UrlQuery CHR ''+''"
  by code_simp

lemma url_unescape_escape_char:
  "url_unescape m (url_escape_char m c @ s) = map_option ((#) c) (url_unescape m s)"
proof (cases "should_escape m c")
  case True
  have "16 * (byte c div 16) + byte c mod 16 = byte c" by simp
  moreover have "(char_of (byte c) :: char) = c" by (simp add: byte_def)
  moreover have "byte c div 16 < 16" using byte_less[of c] by (simp add: div_less_iff_less_mult)
  ultimately show ?thesis using True by (simp add: url_escape_char_def hex_val_upper_hex)
next
  case False
  then have "c \<noteq> CHR ''%''" "m = UrlQuery \<longrightarrow> c \<noteq> CHR ''+''"
    using should_escape_percent should_escape_plus by blast+
  with False show ?thesis by (auto simp: url_escape_char_def)
qed

lemma url_unescape_escape: "url_unescape m (url_escape m s) = Some s"
  by (induction s) (simp_all add: url_escape_def url_unescape_escape_char)

lemma url_escape_avoids:
  assumes "c \<in> set (url_escape m s)" and "m \<noteq> UrlQuery"
  shows "c = CHR ''%'' \<or> alnum c \<or> \<not> should_escape m c"
proof -
  have "alnum (upper_hex d)" if "d < 16" for d
    using that by (auto simp: alnum_def upper_hex_def byte_in_def byte_def)
  moreover have "byte x div 16 < 16" for x
    using byte_less[of x] by (simp add: div_less_iff_less_mult)
  ultimately show ?thesis
    using assms by (auto simp: url_escape_def url_escape_char_def split: if_splits)
qed

subsection \<open>URLs\<close>

record url =
  url_scheme :: string
  url_opaque :: string
  url_user :: "(string \<times> string option) option"
  url_host :: string
  url_path :: string
  url_raw_path :: string
  url_omit_host :: bool
  url_force_query :: bool
  url_raw_query :: string
  url_fragment :: string
  url_raw_fragment :: string

text \<open>\<open>validEncoded\<close>.\<close>

definition valid_encoded :: "url_part \<Rightarrow> string \<Rightarrow> bool" where
  "valid_encoded m s \<longleftrightarrow>
     list_all (\<lambda>c. List.member ([CHR 39] @ ''!$&()*+,;=:@[]%'') c \<or> \<not> should_escape m c) s"

definition escaped_path :: "url \<Rightarrow> string" where
  "escaped_path u =
     (if url_raw_path u \<noteq> [] \<and> valid_encoded UrlPath (url_raw_path u)
         \<and> url_unescape UrlPath (url_raw_path u) = Some (url_path u) then url_raw_path u
      else if url_path u = ''*'' then ''*''
      else url_escape UrlPath (url_path u))"

definition escaped_fragment :: "url \<Rightarrow> string" where
  "escaped_fragment u =
     (if url_raw_fragment u \<noteq> [] \<and> valid_encoded UrlFragment (url_raw_fragment u)
         \<and> url_unescape UrlFragment (url_raw_fragment u) = Some (url_fragment u) then url_raw_fragment u
      else url_escape UrlFragment (url_fragment u))"

definition userinfo_string :: "string \<times> string option \<Rightarrow> string" where
  "userinfo_string ui =
     (if fst ui \<noteq> [] \<or> snd ui \<noteq> None
      then url_escape UrlUserPassword (fst ui)
             @ (case snd ui of None \<Rightarrow> [] | Some p \<Rightarrow> '':'' @ url_escape UrlUserPassword p)
      else [])"

definition url_authority :: "url \<Rightarrow> string" where
  "url_authority u =
     (if url_scheme u = [] \<and> url_host u = [] \<and> url_user u = None then []
      else if url_omit_host u \<and> url_host u = [] \<and> url_user u = None then []
      else (if url_host u \<noteq> [] \<or> url_path u \<noteq> [] \<or> url_user u \<noteq> None then ''//'' else [])
        @ (case url_user u of None \<Rightarrow> [] | Some ui \<Rightarrow> userinfo_string ui @ ''@'')
        @ url_escape UrlHost (url_host u))"

text \<open>The part of \<open>URL.String\<close> between the scheme and the query.\<close>

definition url_body :: "url \<Rightarrow> string" where
  "url_body u =
     (if url_opaque u \<noteq> [] then url_opaque u
      else (let p = escaped_path u;
                q = (if p \<noteq> [] \<and> hd p \<noteq> CHR ''/'' \<and> url_host u \<noteq> [] then ''/'' else []);
                front = (if url_scheme u = [] then [] else url_scheme u @ '':'') @ url_authority u @ q;
                dot = (if front = [] \<and> List.member (takeWhile (\<lambda>c. c \<noteq> CHR ''/'') p) CHR '':''
                       then ''./'' else []) in
            url_authority u @ q @ dot @ p))"

definition url_string :: "url \<Rightarrow> string" where
  "url_string u =
     (if url_scheme u = [] then [] else url_scheme u @ '':'') @ url_body u
     @ (if url_force_query u \<or> url_raw_query u \<noteq> [] then ''?'' @ url_raw_query u else [])
     @ (if url_fragment u \<noteq> [] then ''#'' @ escaped_fragment u else [])"

end
