(* ===== verification/Json.thy ===== *)
theory Json
  imports GoEncoding
begin

section \<open>JSON as Go's encoding/json reads and writes it\<close>

text \<open>
  The scanner and parser of \<open>encoding/json\<close> on byte strings, the decoding of string literals, and
  the compact encoder \<open>json.Marshal\<close> is built on.  A parsed value keeps the exact text of every
  array element and object member, because a \<open>json.RawMessage\<close> is that text; literals keep their
  spelling (numbers as \<open>json.Number\<close> does, strings between their quotes, still escaped).
\<close>

datatype json =
    JNull
  | JBool bool
  | JNum string
  | JStr string
  | JArr "(string \<times> json) list"
  | JObj "(string \<times> string \<times> json) list"

subsection \<open>Lexical elements\<close>

definition json_ws :: "char \<Rightarrow> bool" where
  "json_ws c \<longleftrightarrow> c = CHR '' '' \<or> c = CHR 9 \<or> c = CHR 10 \<or> c = CHR 13"

definition skip_ws :: "string \<Rightarrow> string" where
  "skip_ws s = dropWhile json_ws s"

definition quote :: char where "quote = CHR 34"
definition backslash :: char where "backslash = CHR 92"

definition escape_letter :: "char \<Rightarrow> bool" where
  "escape_letter c \<longleftrightarrow>
     c = quote \<or> c = backslash \<or> c = CHR ''/'' \<or> c = CHR ''b'' \<or> c = CHR ''f''
     \<or> c = CHR ''n'' \<or> c = CHR ''r'' \<or> c = CHR ''t''"

definition prepend :: "string \<Rightarrow> (string \<times> string) option \<Rightarrow> (string \<times> string) option" where
  "prepend p r = map_option (\<lambda>(b, rest). (p @ b, rest)) r"

lemma prepend_simps [simp]:
  "prepend p None = None" "prepend p (Some (b, rest)) = Some (p @ b, rest)"
  by (simp_all add: prepend_def)

lemma prepend_eq_Some: "prepend p r = Some (b, rest) \<longleftrightarrow> (\<exists>b'. r = Some (b', rest) \<and> b = p @ b')"
  by (cases r) (auto simp: prepend_def)

text \<open>The body of a string literal, from behind the opening quote up to the closing one.\<close>

fun lex_string :: "string \<Rightarrow> (string \<times> string) option" where
  "lex_string [] = None"
| "lex_string (c # cs) =
     (if c = quote then Some ([], cs)
      else if c = backslash then
        (case cs of
           [] \<Rightarrow> None
         | e # t \<Rightarrow>
             if e = CHR ''u'' then
               (case t of
                  w # x # y # z # t' \<Rightarrow>
                    (if parse_hex4 [w, x, y, z] \<noteq> None
                     then prepend [c, e, w, x, y, z] (lex_string t')
                     else None)
                | _ \<Rightarrow> None)
             else if escape_letter e then prepend [c, e] (lex_string t)
             else None)
      else if byte c < 32 then None
      else prepend [c] (lex_string cs))"

lemma lex_string_split:
  "lex_string s = Some (b, rest) \<Longrightarrow> s = b @ quote # rest"
proof (induction s arbitrary: b rest rule: lex_string.induct)
  case (2 c cs)
  then show ?case
    by (auto simp: prepend_eq_Some split: if_splits list.splits)
qed simp

definition is_digit :: "char \<Rightarrow> bool" where
  "is_digit c \<longleftrightarrow> byte_in 48 57 c"

text \<open>
  The number automaton: sign, integer part without a leading zero, then an optional fraction and
  an optional exponent, each with at least one digit.
\<close>

definition lex_exponent :: "string \<Rightarrow> (string \<times> string) option" where
  "lex_exponent s =
     (case s of
        e # t \<Rightarrow>
          if e = CHR ''e'' \<or> e = CHR ''E'' then
            (let sg = (case t of g # _ \<Rightarrow> if g = CHR ''+'' \<or> g = CHR ''-'' then [g] else [] | [] \<Rightarrow> []);
                 u = drop (length sg) t;
                 ds = takeWhile is_digit u in
             if ds = [] then None else Some (e # sg @ ds, dropWhile is_digit u))
          else Some ([], s)
      | [] \<Rightarrow> Some ([], s))"

definition lex_fraction :: "string \<Rightarrow> (string \<times> string) option" where
  "lex_fraction s =
     (case s of
        p # t \<Rightarrow>
          if p = CHR ''.'' then
            (let ds = takeWhile is_digit t in
             if ds = [] then None else Some (p # ds, dropWhile is_digit t))
          else Some ([], s)
      | [] \<Rightarrow> Some ([], s))"

definition lex_integer :: "string \<Rightarrow> (string \<times> string) option" where
  "lex_integer s =
     (case s of
        [] \<Rightarrow> None
      | c # t \<Rightarrow>
          if c = CHR ''0'' then Some ([c], t)
          else if is_digit c then Some (c # takeWhile is_digit t, dropWhile is_digit t)
          else None)"

definition lex_number :: "string \<Rightarrow> (string \<times> string) option" where
  "lex_number s =
     (let sg = (case s of c # _ \<Rightarrow> if c = CHR ''-'' then [c] else [] | [] \<Rightarrow> []) in
      case lex_integer (drop (length sg) s) of
        None \<Rightarrow> None
      | Some (i, r1) \<Rightarrow>
          (case lex_fraction r1 of
             None \<Rightarrow> None
           | Some (f, r2) \<Rightarrow> prepend (sg @ i @ f) (lex_exponent r2)))"

lemma lex_integer_split: "lex_integer s = Some (b, rest) \<Longrightarrow> s = b @ rest \<and> b \<noteq> []"
  by (auto simp: lex_integer_def split: list.splits if_splits)

lemma lex_fraction_split: "lex_fraction s = Some (b, rest) \<Longrightarrow> s = b @ rest"
  by (auto simp: lex_fraction_def Let_def split: list.splits if_splits)

lemma lex_exponent_split: "lex_exponent s = Some (b, rest) \<Longrightarrow> s = b @ rest"
  by (auto simp: lex_exponent_def Let_def split: list.splits if_splits)

lemma lex_number_split: "lex_number s = Some (b, rest) \<Longrightarrow> s = b @ rest \<and> b \<noteq> []"
proof -
  assume h: "lex_number s = Some (b, rest)"
  let ?sg = "case s of c # _ \<Rightarrow> if c = CHR ''-'' then [c] else [] | [] \<Rightarrow> []"
  from h obtain i r1 f r2 e where
    p: "lex_integer (drop (length ?sg) s) = Some (i, r1)" "lex_fraction r1 = Some (f, r2)"
       "lex_exponent r2 = Some (e, rest)" "b = ?sg @ i @ f @ e"
    by (auto simp: lex_number_def Let_def prepend_eq_Some split: option.splits)
  have "s = ?sg @ drop (length ?sg) s" by (cases s) auto
  also have "drop (length ?sg) s = i @ f @ e @ rest"
    using lex_integer_split[OF p(1)] lex_fraction_split[OF p(2)] lex_exponent_split[OF p(3)] by simp
  finally show ?thesis using p(4) lex_integer_split[OF p(1)] by simp
qed

subsection \<open>The parser\<close>

definition max_nesting :: int where
  "max_nesting = 10000"

definition consumed :: "string \<Rightarrow> string \<Rightarrow> string" where
  "consumed s rest = take (length s - length rest) s"

lemma consumed_append [simp]: "consumed (b @ rest) rest = b"
  by (simp add: consumed_def)

definition lex_word :: "string \<Rightarrow> json \<Rightarrow> string \<Rightarrow> (json \<times> string) option" where
  "lex_word w v s = (if has_prefix s w then Some (v, drop (length w) s) else None)"

text \<open>
  One value from the start of the text (white space already skipped), and the text behind it.
  The first argument is fuel; \<open>parse_fuel_enough\<close> below shows that twice the length of the text
  is always enough.  The second is the nesting depth, bounded by the scanner's limit.
\<close>

fun parse_value :: "nat \<Rightarrow> int \<Rightarrow> string \<Rightarrow> (json \<times> string) option"
  and parse_items :: "nat \<Rightarrow> int \<Rightarrow> string \<Rightarrow> ((string \<times> json) list \<times> string) option"
  and parse_members :: "nat \<Rightarrow> int \<Rightarrow> string \<Rightarrow> ((string \<times> string \<times> json) list \<times> string) option"
where
  "parse_value 0 d s = None"
| "parse_value (Suc n) d s =
     (case s of
        [] \<Rightarrow> None
      | c # cs \<Rightarrow>
          if c = CHR ''{'' then
            (if max_nesting \<le> d then None
             else (case skip_ws cs of
                     [] \<Rightarrow> None
                   | c' # t \<Rightarrow>
                       if c' = CHR ''}'' then Some (JObj [], t)
                       else map_option (\<lambda>(ms, r). (JObj ms, r)) (parse_members n (d + 1) (skip_ws cs))))
          else if c = CHR ''['' then
            (if max_nesting \<le> d then None
             else (case skip_ws cs of
                     [] \<Rightarrow> None
                   | c' # t \<Rightarrow>
                       if c' = CHR '']'' then Some (JArr [], t)
                       else map_option (\<lambda>(vs, r). (JArr vs, r)) (parse_items n (d + 1) (skip_ws cs))))
          else if c = quote then map_option (\<lambda>(b, r). (JStr b, r)) (lex_string cs)
          else if c = CHR ''t'' then lex_word ''true'' (JBool True) s
          else if c = CHR ''f'' then lex_word ''false'' (JBool False) s
          else if c = CHR ''n'' then lex_word ''null'' JNull s
          else map_option (\<lambda>(b, r). (JNum b, r)) (lex_number s))"
| "parse_items 0 d s = None"
| "parse_items (Suc n) d s =
     (case parse_value n d s of
        None \<Rightarrow> None
      | Some (v, r) \<Rightarrow>
          (case skip_ws r of
             [] \<Rightarrow> None
           | c # t \<Rightarrow>
               if c = CHR '','' then
                 map_option (\<lambda>(vs, r'). ((consumed s r, v) # vs, r')) (parse_items n d (skip_ws t))
               else if c = CHR '']'' then Some ([(consumed s r, v)], t)
               else None))"
| "parse_members 0 d s = None"
| "parse_members (Suc n) d s =
     (case s of
        [] \<Rightarrow> None
      | q # s1 \<Rightarrow>
          if q \<noteq> quote then None
          else (case lex_string s1 of
                  None \<Rightarrow> None
                | Some (k, s2) \<Rightarrow>
                    (case skip_ws s2 of
                       [] \<Rightarrow> None
                     | col # s3 \<Rightarrow>
                         if col \<noteq> CHR '':'' then None
                         else (case parse_value n d (skip_ws s3) of
                                 None \<Rightarrow> None
                               | Some (v, r) \<Rightarrow>
                                   (case skip_ws r of
                                      [] \<Rightarrow> None
                                    | c # t \<Rightarrow>
                                        if c = CHR '','' then
                                          map_option (\<lambda>(ms, r'). ((k, consumed (skip_ws s3) r, v) # ms, r'))
                                            (parse_members n d (skip_ws t))
                                        else if c = CHR ''}''
                                          then Some ([(k, consumed (skip_ws s3) r, v)], t)
                                        else None)))))"

text \<open>\<open>Decoder.Decode\<close>: the first value of the stream and what is left of it.\<close>

definition json_decode :: "string \<Rightarrow> (json \<times> string) option" where
  "json_decode s = parse_value (2 * length s + 1) 0 (skip_ws s)"

text \<open>\<open>json.Unmarshal\<close> and \<open>json.Valid\<close> also want the end of the input behind the value.\<close>

definition json_parse :: "string \<Rightarrow> json option" where
  "json_parse s =
     (case json_decode s of
        None \<Rightarrow> None
      | Some (v, r) \<Rightarrow> if skip_ws r = [] then Some v else None)"

definition json_valid :: "string \<Rightarrow> bool" where
  "json_valid s \<longleftrightarrow> json_parse s \<noteq> None"

subsection \<open>Fuel\<close>

lemma skip_ws_length: "length (skip_ws s) \<le> length s"
  by (simp add: skip_ws_def length_dropWhile_le)

lemma skip_ws_Cons_length: "skip_ws s = c # t \<Longrightarrow> length t < length s"
  using skip_ws_length[of s] by simp

lemma lex_string_length: "lex_string s = Some (b, r) \<Longrightarrow> length r < length s"
  by (drule lex_string_split) simp

lemma lex_word_length: "lex_word w v s = Some (x, r) \<Longrightarrow> w \<noteq> [] \<Longrightarrow> s \<noteq> [] \<Longrightarrow> length r < length s"
  by (auto simp: lex_word_def split: if_splits)

lemma lex_number_length: "lex_number s = Some (b, r) \<Longrightarrow> length r < length s"
  by (drule lex_number_split) auto

text \<open>What a successful step of each loop has read.\<close>

lemma parse_items_SucE:
  assumes "parse_items (Suc n) d s = Some (vs, r)"
  obtains v r1 c t where "parse_value n d s = Some (v, r1)" "skip_ws r1 = c # t"
    "(c = CHR '','' \<and> (\<exists>vs'. parse_items n d (skip_ws t) = Some (vs', r) \<and> vs = (consumed s r1, v) # vs'))
     \<or> (c = CHR '']'' \<and> vs = [(consumed s r1, v)] \<and> r = t)"
  using assms by (auto split: list.splits if_splits option.splits)

lemma parse_members_SucE:
  assumes "parse_members (Suc n) d s = Some (ms, r)"
  obtains s1 k s2 s3 v r1 c t where "s = quote # s1" "lex_string s1 = Some (k, s2)"
    "skip_ws s2 = CHR '':'' # s3" "parse_value n d (skip_ws s3) = Some (v, r1)" "skip_ws r1 = c # t"
    "(c = CHR '','' \<and> (\<exists>ms'. parse_members n d (skip_ws t) = Some (ms', r)
         \<and> ms = (k, consumed (skip_ws s3) r1, v) # ms'))
     \<or> (c = CHR ''}'' \<and> ms = [(k, consumed (skip_ws s3) r1, v)] \<and> r = t)"
  using assms by (auto split: list.splits if_splits option.splits)

lemma parse_value_SucE:
  assumes "parse_value (Suc n) d s = Some (v, r)"
  obtains (obj) cs c t where "s = CHR ''{'' # cs" "skip_ws cs = c # t" "d < max_nesting"
      "(c = CHR ''}'' \<and> v = JObj [] \<and> r = t)
       \<or> (c \<noteq> CHR ''}'' \<and> (\<exists>ms. v = JObj ms \<and> parse_members n (d + 1) (skip_ws cs) = Some (ms, r)))"
  | (arr) cs c t where "s = CHR ''['' # cs" "skip_ws cs = c # t" "d < max_nesting"
      "(c = CHR '']'' \<and> v = JArr [] \<and> r = t)
       \<or> (c \<noteq> CHR '']'' \<and> (\<exists>vs. v = JArr vs \<and> parse_items n (d + 1) (skip_ws cs) = Some (vs, r)))"
  | (str) cs b where "s = quote # cs" "lex_string cs = Some (b, r)" "v = JStr b"
  | (word) w where "lex_word w v s = Some (v, r)" "w = ''true'' \<or> w = ''false'' \<or> w = ''null''" "s \<noteq> []" "v = JNull \<or> (\<exists>b. v = JBool b)"
  | (num) b where "lex_number s = Some (b, r)" "v = JNum b"
proof (cases s)
  case Nil
  then show ?thesis using assms by simp
next
  case (Cons c cs)
  consider "c = CHR ''{''" | "c = CHR ''[''" | "c = quote" | "c = CHR ''t''" | "c = CHR ''f''"
    | "c = CHR ''n''"
    | "c \<noteq> CHR ''{''" "c \<noteq> CHR ''[''" "c \<noteq> quote" "c \<noteq> CHR ''t''" "c \<noteq> CHR ''f''" "c \<noteq> CHR ''n''"
    by blast
  then show ?thesis
  proof cases
    case 1
    with assms Cons obtain c' t where t: "skip_ws cs = c' # t" "d < max_nesting"
      by (auto split: list.splits if_splits)
    with 1 assms Cons show ?thesis
      by (cases "c' = CHR ''}''") (auto intro!: obj[of cs c' t] split: if_splits)
  next
    case 2
    with assms Cons obtain c' t where t: "skip_ws cs = c' # t" "d < max_nesting"
      by (auto split: list.splits if_splits)
    with 2 assms Cons show ?thesis
      by (cases "c' = CHR '']''") (auto intro!: arr[of cs c' t] split: if_splits)
  next
    case 3
    with assms Cons obtain b where "lex_string cs = Some (b, r)" "v = JStr b"
      by (auto simp: quote_def)
    with 3 Cons show ?thesis by (intro str[of cs b]) simp_all
  next
    case 4
    with assms Cons show ?thesis
      by (intro word[of "''true''"]) (auto simp: quote_def lex_word_def split: if_splits)
  next
    case 5
    with assms Cons show ?thesis
      by (intro word[of "''false''"]) (auto simp: quote_def lex_word_def split: if_splits)
  next
    case 6
    with assms Cons show ?thesis
      by (intro word[of "''null''"]) (auto simp: quote_def lex_word_def split: if_splits)
  next
    case 7
    with assms Cons obtain b where "lex_number s = Some (b, r)" "v = JNum b" by auto
    then show ?thesis by (rule num)
  qed
qed

lemma parse_shorter:
  "parse_value n d s = Some (v, r) \<Longrightarrow> length r < length s"
  "parse_items n d s = Some (vs, r) \<Longrightarrow> length r < length s"
  "parse_members n d s = Some (ms, r) \<Longrightarrow> length r < length s"
proof (induction n arbitrary: d s v vs ms r)
  case 0
  { case 1 then show ?case by simp }
  { case 2 then show ?case by simp }
  { case 3 then show ?case by simp }
next
  case (Suc n)
  { case 1
    then show ?case
    proof (cases rule: parse_value_SucE)
      case (obj cs c t)
      then show ?thesis
        using Suc.IH(3)[of "d + 1" "skip_ws cs"] skip_ws_Cons_length[of cs c t] skip_ws_length[of cs]
        by (auto)
    next
      case (arr cs c t)
      then show ?thesis
        using Suc.IH(2)[of "d + 1" "skip_ws cs"] skip_ws_Cons_length[of cs c t] skip_ws_length[of cs]
        by (auto)
    next
      case (str cs b)
      then show ?thesis using lex_string_length[of cs b r] by simp
    next
      case (word w)
      then show ?thesis using lex_word_length[of w v s v r] by auto
    next
      case (num b)
      then show ?thesis by (intro lex_number_length)
    qed }
  { case 2
    then show ?case
    proof (cases rule: parse_items_SucE)
      case (1 v r1 c t)
      have "length r1 < length s" using 1(1) by (rule Suc.IH(1))
      moreover have "length t < length r1" using 1(2) by (rule skip_ws_Cons_length)
      moreover have "r = t \<or> length r < length (skip_ws t)" using 1(3) Suc.IH(2) by blast
      ultimately show ?thesis using skip_ws_length[of t] by (auto)
    qed }
  { case 3
    then show ?case
    proof (cases rule: parse_members_SucE)
      case (1 s1 k s2 s3 v r1 c t)
      have "length s2 < length s1" using 1(2) by (rule lex_string_length)
      moreover have "length s3 < length s2" using 1(3) by (rule skip_ws_Cons_length)
      moreover have "length r1 < length (skip_ws s3)" using 1(4) by (rule Suc.IH(1))
      moreover have "length t < length r1" using 1(5) by (rule skip_ws_Cons_length)
      moreover have "r = t \<or> length r < length (skip_ws t)" using 1(6) Suc.IH(3) by blast
      ultimately show ?thesis using skip_ws_length[of t] skip_ws_length[of s3] 1(1)
        by (auto)
    qed }
qed

text \<open>Any fuel of at least twice the length gives the same answer.\<close>

lemma parse_fuel:
  "2 * length s + 1 \<le> n \<Longrightarrow> 2 * length s + 1 \<le> m \<Longrightarrow> parse_value n d s = parse_value m d s"
  "2 * length s + 2 \<le> n \<Longrightarrow> 2 * length s + 2 \<le> m \<Longrightarrow> parse_items n d s = parse_items m d s"
  "2 * length s + 2 \<le> n \<Longrightarrow> 2 * length s + 2 \<le> m \<Longrightarrow> parse_members n d s = parse_members m d s"
proof (induction n arbitrary: m d s)
  case 0
  { case 1 then show ?case by simp }
  { case 2 then show ?case by simp }
  { case 3 then show ?case by simp }
next
  case (Suc n)
  { case 1
    then obtain m' where m: "m = Suc m'" by (cases m) auto
    show ?case
    proof (cases s)
      case Nil
      then show ?thesis by (simp add: m)
    next
      case (Cons c cs)
      have l: "2 * length (skip_ws cs) + 2 \<le> n" "2 * length (skip_ws cs) + 2 \<le> m'"
        using 1 Cons m skip_ws_length[of cs] by simp_all
      show ?thesis
        using Suc.IH(2)[OF l, of "d + 1"] Suc.IH(3)[OF l, of "d + 1"]
        by (cases "skip_ws cs") (auto simp: m Cons)
    qed }
  { case 2
    then obtain m' where m: "m = Suc m'" by (cases m) auto
    have v: "parse_value n d s = parse_value m' d s"
      using 2 m by (intro Suc.IH(1)) simp_all
    have "parse_items n d (skip_ws t) = parse_items m' d (skip_ws t)"
      if "parse_value m' d s = Some (x, r)" "skip_ws r = c # t" for x r c t
    proof -
      have "length (skip_ws t) < length s"
        using parse_shorter(1)[OF that(1)] skip_ws_Cons_length[OF that(2)] skip_ws_length[of t]
        by linarith
      then show ?thesis using 2 m by (intro Suc.IH(2)) simp_all
    qed
    then show ?case by (simp add: m v split: option.split list.split) }
  { case 3
    then obtain m' where m: "m = Suc m'" by (cases m) auto
    have v: "parse_value n d (skip_ws s3) = parse_value m' d (skip_ws s3)"
      and "\<And>x r c t. parse_value m' d (skip_ws s3) = Some (x, r) \<Longrightarrow> skip_ws r = c # t \<Longrightarrow>
             parse_members n d (skip_ws t) = parse_members m' d (skip_ws t)"
      if "s = q # s1" "lex_string s1 = Some (k, s2)" "skip_ws s2 = col # s3" for q s1 k s2 col s3
    proof -
      have l: "length (skip_ws s3) < length s"
        using that(1) lex_string_length[OF that(2)] skip_ws_Cons_length[OF that(3)]
          skip_ws_length[of s3] by simp
      then show "parse_value n d (skip_ws s3) = parse_value m' d (skip_ws s3)"
        using 3 m by (intro Suc.IH(1)) simp_all
      fix x r c t
      assume h: "parse_value m' d (skip_ws s3) = Some (x, r)" "skip_ws r = c # t"
      have "length (skip_ws t) < length s"
        using l parse_shorter(1)[OF h(1)] skip_ws_Cons_length[OF h(2)] skip_ws_length[of t]
        by linarith
      then show "parse_members n d (skip_ws t) = parse_members m' d (skip_ws t)"
        using 3 m by (intro Suc.IH(3)) simp_all
    qed
    then show ?case
      by (simp add: m split: option.split list.split) }
qed

lemma parse_fuel_enough:
  "2 * length s + 1 \<le> n \<Longrightarrow> parse_value n d s = parse_value (2 * length s + 1) d s"
  by (rule parse_fuel(1)) simp_all

lemma json_decode_fuel: "2 * length s + 1 \<le> n \<Longrightarrow> parse_value n 0 (skip_ws s) = json_decode s"
  unfolding json_decode_def using skip_ws_length[of s]
  by (intro parse_fuel(1)) linarith+

end
