(* ===== verification/JsonText.thy ===== *)
theory JsonText
  imports Json
begin

section \<open>JSON string literals and the compact encoder\<close>

text \<open>
  Decoding a string literal (\<open>unquote\<close> of \<open>encoding/json\<close>) and encoding one (\<open>appendString\<close> with
  HTML escaping, as \<open>json.Marshal\<close> uses it), and the text a value built by the encoder has.  The
  round trips say that what \<open>json.Marshal\<close> writes, the parser reads back.
\<close>

lemma byte_quote: "byte quote = 34" and byte_backslash: "byte backslash = 92"
  by (simp_all add: quote_def backslash_def byte_def)

subsection \<open>Decoding a literal\<close>

text \<open>\<open>utf8.AppendRune\<close>.\<close>

definition encode_rune :: "nat \<Rightarrow> string" where
  "encode_rune r =
     (if r < 128 then [char_of r]
      else if r < 2048 then [char_of (192 + r div 64), char_of (128 + r mod 64)]
      else if (55296 \<le> r \<and> r \<le> 57343) \<or> 1114111 < r
        then [char_of (239::nat), char_of (191::nat), char_of (189::nat)]
      else if r < 65536
        then [char_of (224 + r div 4096), char_of (128 + r div 64 mod 64), char_of (128 + r mod 64)]
      else [char_of (240 + r div 262144), char_of (128 + r div 4096 mod 64),
            char_of (128 + r div 64 mod 64), char_of (128 + r mod 64)])"

definition is_high_surrogate :: "nat \<Rightarrow> bool" where
  "is_high_surrogate u \<longleftrightarrow> 55296 \<le> u \<and> u \<le> 56319"

definition is_low_surrogate :: "nat \<Rightarrow> bool" where
  "is_low_surrogate u \<longleftrightarrow> 56320 \<le> u \<and> u \<le> 57343"

text \<open>\<open>getu4\<close>: the code unit of an escape \<open>\uXXXX\<close> at the start of the text.\<close>

definition get_u4 :: "string \<Rightarrow> nat option" where
  "get_u4 s =
     (case s of
        b # u # w # x # y # z # _ \<Rightarrow>
          if b = backslash \<and> u = CHR ''u'' then parse_hex4 [w, x, y, z] else None
      | _ \<Rightarrow> None)"

definition escape_value :: "char \<Rightarrow> char" where
  "escape_value e =
     (if e = CHR ''b'' then CHR 8 else if e = CHR ''f'' then CHR 12
      else if e = CHR ''n'' then CHR 10 else if e = CHR ''r'' then CHR 13
      else if e = CHR ''t'' then CHR 9 else e)"

text \<open>
  The step of the decoding loop at a non-empty rest of the literal: what it writes and how much it
  reads.  An unpaired surrogate and an invalid byte are written as U+FFFD.
\<close>

definition unquote_step :: "string \<Rightarrow> string \<times> nat" where
  "unquote_step s =
     (case get_u4 s of
        Some u \<Rightarrow>
          (if is_high_surrogate u \<or> is_low_surrogate u then
             (case get_u4 (drop 6 s) of
                Some v \<Rightarrow>
                  (if is_high_surrogate u \<and> is_low_surrogate v
                   then (encode_rune ((u - 55296) * 1024 + (v - 56320) + 65536), 12)
                   else (encode_rune rune_error, 6))
              | None \<Rightarrow> (encode_rune rune_error, 6))
           else (encode_rune u, 6))
      | None \<Rightarrow>
          (case s of
             c # e # _ \<Rightarrow>
               if c = backslash then ([escape_value e], 2)
               else if byte c < 128 then ([c], 1)
               else if decode_rune s = (rune_error, 1) then (encode_rune rune_error, 1)
               else (take (snd (decode_rune s)) s, snd (decode_rune s))
           | _ \<Rightarrow>
               if decode_rune s = (rune_error, 1) then (encode_rune rune_error, 1)
               else (take 1 s, 1)))"

lemma get_u4_length: "get_u4 s = Some u \<Longrightarrow> 6 \<le> length s"
  by (auto simp: get_u4_def split: list.splits)

lemma unquote_step_pos: "s \<noteq> [] \<Longrightarrow> 0 < snd (unquote_step s)"
  using decode_rune_width[of s]
  by (auto simp: unquote_step_def split: option.splits list.splits)

function unquote :: "string \<Rightarrow> string" where
  "unquote s =
     (if s = [] then [] else fst (unquote_step s) @ unquote (drop (snd (unquote_step s)) s))"
  by pat_completeness auto
termination
  by (relation "measure length") (use unquote_step_pos in auto)

declare unquote.simps [simp del]

lemma unquote_Nil [simp]: "unquote [] = []"
  by (simp add: unquote.simps)

lemma unquote_unfold:
  "s \<noteq> [] \<Longrightarrow> unquote s = fst (unquote_step s) @ unquote (drop (snd (unquote_step s)) s)"
  by (subst unquote.simps) simp

subsection \<open>Encoding a literal\<close>

definition html_safe :: "nat \<Rightarrow> bool" where
  "html_safe b \<longleftrightarrow> 32 \<le> b \<and> b < 128 \<and> b \<noteq> 34 \<and> b \<noteq> 38 \<and> b \<noteq> 60 \<and> b \<noteq> 62 \<and> b \<noteq> 92"

definition u_escape :: "nat \<Rightarrow> string" where
  "u_escape r =
     [backslash, CHR ''u'', hex_digit (r div 4096 mod 16), hex_digit (r div 256 mod 16),
      hex_digit (r div 16 mod 16), hex_digit (r mod 16)]"

definition escape_piece :: "nat \<times> string \<Rightarrow> string" where
  "escape_piece rp =
     (case rp of (r, p) \<Rightarrow>
        if r < 128 then
          (if html_safe r then p
           else if r = 34 then [backslash, quote]
           else if r = 92 then [backslash, backslash]
           else if r = 8 then [backslash, CHR ''b'']
           else if r = 12 then [backslash, CHR ''f'']
           else if r = 10 then [backslash, CHR ''n'']
           else if r = 13 then [backslash, CHR ''r'']
           else if r = 9 then [backslash, CHR ''t'']
           else u_escape r)
        else if r = rune_error \<and> length p = 1 then u_escape rune_error
        else if r = 8232 \<or> r = 8233 then u_escape r
        else p)"

definition escape_string :: "string \<Rightarrow> string" where
  "escape_string s = concat (map escape_piece (rune_pieces s))"

lemma escape_string_step:
  "s \<noteq> [] \<Longrightarrow> escape_string s =
     escape_piece (fst (decode_rune s), take (snd (decode_rune s)) s)
       @ escape_string (drop (snd (decode_rune s)) s)"
  by (simp add: escape_string_def rune_pieces_step)

lemma escape_string_Nil [simp]: "escape_string [] = []"
  by (simp add: escape_string_def)

definition valid_piece :: "nat \<Rightarrow> string \<Rightarrow> bool" where
  "valid_piece r p \<longleftrightarrow>
     p \<noteq> [] \<and> \<not> (r = rune_error \<and> length p = 1)
     \<and> (if r < 128 then p = [char_of r] else \<forall>c \<in> set p. 128 \<le> byte c)
     \<and> (\<forall>t. decode_rune (p @ t) = (r, length p))"

text \<open>A decoded rune is determined by its own bytes, which are all outside ASCII if it is.\<close>

lemma valid_piece_decode:
  assumes "s \<noteq> []" and "\<not> (fst (decode_rune s) = rune_error \<and> snd (decode_rune s) = 1)"
  shows "valid_piece (fst (decode_rune s)) (take (snd (decode_rune s)) s)"
proof -
  obtain c0 s1 where s: "s = c0 # s1" using assms(1) by (cases s) auto
  show ?thesis
  proof (cases "byte c0 < 128")
    case True
    then show ?thesis by (simp add: s valid_piece_def rune_error_def byte_def)
  next
    case False
    have two: "s1 \<noteq> []" and b: "194 \<le> byte c0" "byte c0 \<le> 244"
      using assms(2) False by (auto simp: s decode_rune_def Let_def split: if_splits)
    then obtain c1 s2 where s1: "s1 = c1 # s2" by (cases s1) auto
    have c1: "byte_in (second_lo (byte c0)) (second_hi (byte c0)) c1"
      using assms(2) False b by (auto simp: s s1 decode_rune_def Let_def split: if_splits)
    then have c1': "128 \<le> byte c1" "byte c1 \<le> 191"
      by (auto simp: byte_in_def second_lo_def second_hi_def split: if_splits)
    show ?thesis
    proof (cases "byte c0 < 224")
      case True
      then show ?thesis using False b c1 c1'
        by (simp add: s s1 decode_rune_def Let_def valid_piece_def rune_error_def)
    next
      case ge224: False
      have "s2 \<noteq> []"
        using assms(2) False b c1 ge224 by (auto simp: s s1 decode_rune_def Let_def split: if_splits)
      then obtain c2 s3 where s2: "s2 = c2 # s3" by (cases s2) auto
      have c2: "is_cont c2"
        using assms(2) False b c1 ge224 by (auto simp: s s1 s2 decode_rune_def Let_def split: if_splits)
      show ?thesis
      proof (cases "byte c0 < 240")
        case True
        have "128 \<le> ((byte c0 - 224) * 64 + (byte c1 - 128)) * 64 + (byte c2 - 128)"
          using decode_rune_non_ascii[of c0 "c1 # c2 # s3"] False b c1 ge224 c2 True
          by (simp add: decode_rune_def Let_def)
        then show ?thesis using False b c1 c1' ge224 c2 True
          by (auto simp: s s1 s2 decode_rune_def Let_def valid_piece_def is_cont_def)
      next
        case ge240: False
        have "s3 \<noteq> []"
          using assms(2) False b c1 ge224 c2 ge240
          by (auto simp: s s1 s2 decode_rune_def Let_def split: if_splits)
        then obtain c3 s4 where s3: "s3 = c3 # s4" by (cases s3) auto
        have c3: "is_cont c3"
          using assms(2) False b c1 ge224 c2 ge240
          by (auto simp: s s1 s2 s3 decode_rune_def Let_def split: if_splits)
        have "128 \<le> (((byte c0 - 240) * 64 + (byte c1 - 128)) * 64 + (byte c2 - 128)) * 64
            + (byte c3 - 128)"
          using decode_rune_non_ascii[of c0 "c1 # c2 # c3 # s4"] False b c1 ge224 c2 ge240 c3
          by (simp add: decode_rune_def Let_def)
        then show ?thesis using False b c1 c1' ge224 c2 ge240 c3
          by (auto simp: s s1 s2 s3 decode_rune_def Let_def valid_piece_def is_cont_def)
      qed
    qed
  qed
qed

lemma regroup64:
  fixes w z :: nat
  shows "z < 64 \<Longrightarrow> (w * 64 + z) div 64 = w" and "z < 64 \<Longrightarrow> (w * 64 + z) mod 64 = z"
  by simp_all

lemma line_separator_piece:
  assumes "decode_rune p = (r, length p)" and "r = 8232 \<or> r = 8233"
  shows "p = encode_rune r"
proof -
  have "r \<noteq> rune_error" using assms(2) by (auto simp: rune_error_def)
  then obtain c0 c1 c2 p' where p: "p = c0 # c1 # c2 # p'"
    and b0: "224 \<le> byte c0"
    using assms
    by (auto simp: decode_rune_def Let_def byte_in_def second_lo_def second_hi_def
        split: list.splits if_splits)
  have r3: "byte c0 < 240"
  proof (rule ccontr)
    assume "\<not> byte c0 < 240"
    with assms p have "65536 \<le> r"
      by (auto simp: decode_rune_def Let_def byte_in_def second_lo_def second_hi_def rune_error_def
          split: list.splits if_splits)
    with assms(2) show False by auto
  qed
  then have len: "p' = []"
    and c1: "128 \<le> byte c1" "byte c1 \<le> 191" and c2: "128 \<le> byte c2" "byte c2 \<le> 191"
    and r: "r = ((byte c0 - 224) * 64 + (byte c1 - 128)) * 64 + (byte c2 - 128)"
    using assms p b0 \<open>r \<noteq> rune_error\<close>
    by (auto simp: decode_rune_def Let_def byte_in_def second_lo_def second_hi_def is_cont_def
        split: list.splits if_splits)
  obtain x y z where xyz: "byte c0 = 224 + x" "byte c1 = 128 + y" "byte c2 = 128 + z"
    using b0 c1(1) c2(1) by (metis le_Suc_ex)
  have "y < 64" "z < 64" using xyz c1(2) c2(2) by simp_all
  moreover have r': "r = (x * 64 + y) * 64 + z" using r by (simp add: xyz)
  ultimately have "r mod 64 = z" "r div 64 = x * 64 + y"
    unfolding r' by (simp_all only: regroup64)
  with \<open>y < 64\<close> have "z = r mod 64" "y = r div 64 mod 64" "x = r div 64 div 64"
    by (simp_all only: regroup64)
  then have "x = 2 \<and> y = 0 \<and> z = r - 8192"
    using assms(2) by auto
  then have "byte c0 = 226" "byte c1 = 128" "byte c2 = r - 8064"
    using assms(2) by (auto simp: xyz)
  then have "c0 = char_of (226::nat)" "c1 = char_of (128::nat)" "c2 = char_of (r - 8064)"
    using assms(2) by (auto simp: byte_inject [symmetric] byte_def simp del: byte_inject)
  then show ?thesis
    using assms(2) by (auto simp: p len encode_rune_def)
qed

lemma parse_hex4_digits:
  assumes "r < 65536"
  shows "parse_hex4 [hex_digit (r div 4096 mod 16), hex_digit (r div 256 mod 16),
      hex_digit (r div 16 mod 16), hex_digit (r mod 16)] = Some r"
proof -
  have h: "hex_val (hex_digit d) = Some d" if "d < 16" for d
    using that by (auto simp: hex_val_def hex_digit_def byte_in_def byte_def)
  have q: "r div 4096 = r div 256 div 16" "r div 256 = r div 16 div 16"
    by (simp_all add: div_mult2_eq [symmetric])
  have "r div 4096 < 16" using assms by (simp add: div_less_iff_less_mult)
  then have "r div 4096 mod 16 = r div 4096" by simp
  then have "((r div 4096 mod 16 * 16 + r div 256 mod 16) * 16 + r div 16 mod 16) * 16 + r mod 16 = r"
    using q by (simp only: div_mult_mod_eq)
  moreover have "parse_hex4 [hex_digit (r div 4096 mod 16), hex_digit (r div 256 mod 16),
      hex_digit (r div 16 mod 16), hex_digit (r mod 16)]
    = Some (((r div 4096 mod 16 * 16 + r div 256 mod 16) * 16 + r div 16 mod 16) * 16 + r mod 16)"
    by (simp add: parse_hex4_def h)
  ultimately show ?thesis by (simp only:)
qed

lemma get_u4_u_escape: "r < 65536 \<Longrightarrow> get_u4 (u_escape r @ t) = Some r"
  using parse_hex4_digits[of r] by (simp add: get_u4_def u_escape_def)

lemma get_u4_not_backslash: "c \<noteq> backslash \<Longrightarrow> get_u4 (c # t) = None"
  by (auto simp: get_u4_def split: list.splits)

lemma get_u4_short_escape: "e \<noteq> CHR ''u'' \<Longrightarrow> get_u4 (backslash # e # t) = None"
  by (auto simp: get_u4_def split: list.splits)

lemma unquote_step_u_escape:
  "r < 65536 \<Longrightarrow> \<not> is_high_surrogate r \<Longrightarrow> \<not> is_low_surrogate r \<Longrightarrow>
     unquote_step (u_escape r @ t) = (encode_rune r, length (u_escape r))"
  by (simp add: unquote_step_def get_u4_u_escape) (simp add: u_escape_def)

lemma unquote_step_short_escape:
  "e \<noteq> CHR ''u'' \<Longrightarrow> unquote_step (backslash # e # t) = ([escape_value e], 2)"
  by (simp add: unquote_step_def get_u4_short_escape)

lemma char_of_escapes:
  "quote = char_of (34::nat)" "backslash = char_of (92::nat)" "CHR 8 = char_of (8::nat)"
  "CHR 12 = char_of (12::nat)" "CHR 10 = char_of (10::nat)" "CHR 13 = char_of (13::nat)"
  "CHR 9 = char_of (9::nat)"
  by (rule byte_inject[THEN iffD1], simp add: byte_def quote_def backslash_def)+

lemma unquote_step_shorts:
  "unquote_step (backslash # quote # t) = ([char_of (34::nat)], 2)"
  "unquote_step (backslash # backslash # t) = ([char_of (92::nat)], 2)"
  "unquote_step (backslash # CHR ''b'' # t) = ([char_of (8::nat)], 2)"
  "unquote_step (backslash # CHR ''f'' # t) = ([char_of (12::nat)], 2)"
  "unquote_step (backslash # CHR ''n'' # t) = ([char_of (10::nat)], 2)"
  "unquote_step (backslash # CHR ''r'' # t) = ([char_of (13::nat)], 2)"
  "unquote_step (backslash # CHR ''t'' # t) = ([char_of (9::nat)], 2)"
  by (subst unquote_step_short_escape,
      simp add: quote_def backslash_def,
      simp only: prod.inject list.inject char_of_escapes [symmetric],
      simp add: escape_value_def quote_def backslash_def)+

lemma unquote_step_plain:
  assumes "valid_piece r p" and "hd p \<noteq> backslash"
  shows "unquote_step (p @ t) = (p, length p)"
proof -
  obtain c q where p: "p = c # q" using assms(1) by (cases p) (auto simp: valid_piece_def)
  have d: "decode_rune (p @ t) = (r, length p)" "\<not> (r = rune_error \<and> length p = 1)"
    using assms(1) by (simp_all add: valid_piece_def)
  have c: "c \<noteq> backslash" using assms(2) p by simp
  have n: "get_u4 (p @ t) = None" using c p by (simp add: get_u4_not_backslash)
  have asc: "byte c < 128 \<Longrightarrow> q = []"
    using assms(1) p by (auto simp: valid_piece_def split: if_splits)
  have tk: "take (length q) (q @ t) = q" by simp
  show ?thesis
    using c d n asc tk by (cases "q @ t") (auto simp: p unquote_step_def)
qed

lemma unquote_step_piece:
  assumes "valid_piece r p"
  shows "unquote_step (escape_piece (r, p) @ t) = (p, length (escape_piece (r, p)))"
proof (cases "r < 128")
  case True
  then have p: "p = [char_of r]" using assms by (simp add: valid_piece_def)
  have br: "byte (char_of r) = r" using True by (simp add: byte_def)
  have enc: "encode_rune r = p" using True p by (simp add: encode_rune_def)
  show ?thesis
  proof (cases "html_safe r")
    case safe: True
    then have "hd p \<noteq> backslash"
      using br byte_backslash by (auto simp: p html_safe_def)
    with unquote_step_plain[OF assms] safe True show ?thesis by (simp add: escape_piece_def)
  next
    case False
    have u: "unquote_step (u_escape r @ t) = (p, length (u_escape r))"
      using unquote_step_u_escape[of r t] True enc
      by (simp add: is_high_surrogate_def is_low_surrogate_def)
    show ?thesis
      using True False u p
      by (simp add: escape_piece_def unquote_step_shorts)
  qed
next
  case False
  have "\<not> (r = rune_error \<and> length p = 1)" and hd: "128 \<le> byte (hd p)"
    using assms False by (auto simp: valid_piece_def)
  show ?thesis
  proof (cases "r = 8232 \<or> r = 8233")
    case True
    have "decode_rune (p @ []) = (r, length p)"
      using assms unfolding valid_piece_def by blast
    then have "decode_rune p = (r, length p)" by simp
    then have "p = encode_rune r" using True by (rule line_separator_piece)
    moreover have "unquote_step (u_escape r @ t) = (encode_rune r, length (u_escape r))"
      using True by (intro unquote_step_u_escape) (auto simp: is_high_surrogate_def is_low_surrogate_def)
    ultimately show ?thesis using True False by (auto simp: escape_piece_def rune_error_def)
  next
    case other: False
    have "hd p \<noteq> backslash" using hd by (auto simp: backslash_def byte_def)
    with unquote_step_plain[OF assms, of t] other False \<open>\<not> (r = rune_error \<and> length p = 1)\<close>
    show ?thesis by (auto simp: escape_piece_def)
  qed
qed

lemma u_escape_nonempty [simp]: "u_escape r \<noteq> []"
  by (simp add: u_escape_def)

lemma escape_piece_nonempty: "p \<noteq> [] \<Longrightarrow> escape_piece (r, p) \<noteq> []"
  by (simp add: escape_piece_def)

lemma valid_utf8_step:
  assumes "s \<noteq> []" and "valid_utf8 s"
  shows "valid_piece (fst (decode_rune s)) (take (snd (decode_rune s)) s)"
    and "valid_utf8 (drop (snd (decode_rune s)) s)"
proof -
  have "snd (decode_rune s) \<le> length s" using decode_rune_width[OF assms(1)] by simp
  with assms have "\<not> (fst (decode_rune s) = rune_error \<and> snd (decode_rune s) = 1)"
    by (simp add: valid_utf8_def rune_pieces_step)
  with assms(1) show "valid_piece (fst (decode_rune s)) (take (snd (decode_rune s)) s)"
    by (rule valid_piece_decode)
  show "valid_utf8 (drop (snd (decode_rune s)) s)"
    using assms by (simp add: valid_utf8_def rune_pieces_step)
qed

text \<open>What \<open>json.Marshal\<close> writes for a valid string is decoded to the string.\<close>

lemma unquote_escape_string: "valid_utf8 s \<Longrightarrow> unquote (escape_string s) = s"
proof (induction s rule: rune_pieces.induct)
  case (1 s)
  show ?case
  proof (cases "s = []")
    case False
    let ?r = "fst (decode_rune s)" and ?n = "snd (decode_rune s)"
    have vp: "valid_piece ?r (take ?n s)" and rest: "valid_utf8 (drop ?n s)"
      using valid_utf8_step[OF False "1.prems"] by simp_all
    let ?e = "escape_piece (?r, take ?n s)" and ?t = "escape_string (drop ?n s)"
    have ne: "?e \<noteq> []" using vp by (intro escape_piece_nonempty) (simp add: valid_piece_def)
    have "unquote (escape_string s) = unquote (?e @ ?t)"
      by (simp add: escape_string_step[OF False])
    also have "\<dots> = take ?n s @ unquote ?t"
      using ne unquote_step_piece[OF vp, of ?t] by (simp add: unquote_unfold)
    also have "unquote ?t = drop ?n s" using False rest by (rule "1.IH")
    finally show ?thesis by simp
  qed simp
qed

subsection \<open>An encoded literal is a literal\<close>

lemma lex_string_plain:
  "\<forall>c \<in> set p. c \<noteq> quote \<and> c \<noteq> backslash \<and> 32 \<le> byte c \<Longrightarrow>
     lex_string (p @ t) = prepend p (lex_string t)"
proof (induction p)
  case Nil
  then show ?case by (cases "lex_string t") auto
next
  case (Cons c p)
  then have "lex_string ((c # p) @ t) = prepend [c] (lex_string (p @ t))"
    by simp
  also have "\<dots> = prepend [c] (prepend p (lex_string t))" using Cons by simp
  also have "\<dots> = prepend (c # p) (lex_string t)" by (cases "lex_string t") auto
  finally show ?case .
qed

lemma lex_string_u_escape: "r < 65536 \<Longrightarrow> lex_string (u_escape r @ t) = prepend (u_escape r) (lex_string t)"
  using parse_hex4_digits[of r] by (simp add: u_escape_def quote_def backslash_def)

lemma lex_string_short_escape:
  "escape_letter e \<Longrightarrow> lex_string (backslash # e # t) = prepend [backslash, e] (lex_string t)"
  by (auto simp: quote_def backslash_def escape_letter_def)

lemma lex_escape_piece:
  assumes "p \<noteq> []" and "if r < 128 then p = [char_of r] else \<forall>c \<in> set p. 128 \<le> byte c"
  shows "lex_string (escape_piece (r, p) @ t) = prepend (escape_piece (r, p)) (lex_string t)"
proof (cases "r < 128")
  case True
  then have p: "p = [char_of r]" and br: "byte (char_of r) = r"
    using assms(2) by (simp_all add: byte_def)
  show ?thesis
  proof (cases "html_safe r")
    case safe: True
    then have "\<forall>c \<in> set p. c \<noteq> quote \<and> c \<noteq> backslash \<and> 32 \<le> byte c"
      using br byte_quote byte_backslash by (auto simp: p html_safe_def)
    then have "lex_string (p @ t) = prepend p (lex_string t)" by (rule lex_string_plain)
    with safe True show ?thesis by (simp add: escape_piece_def)
  next
    case False
    have e: "escape_letter quote" "escape_letter backslash" "escape_letter CHR ''b''"
      "escape_letter CHR ''f''" "escape_letter CHR ''n''" "escape_letter CHR ''r''"
      "escape_letter CHR ''t''" by (simp_all add: escape_letter_def)
    have "lex_string (u_escape r @ t) = prepend (u_escape r) (lex_string t)"
      using True by (intro lex_string_u_escape) simp
    then show ?thesis
      using True False e
      by (simp add: escape_piece_def lex_string_short_escape del: lex_string.simps)
  qed
next
  case False
  with assms(2) have "\<forall>c \<in> set p. 128 \<le> byte c" by simp
  then have "\<forall>c \<in> set p. c \<noteq> quote \<and> c \<noteq> backslash \<and> 32 \<le> byte c"
    by (auto simp: quote_def backslash_def byte_def)
  then have plain: "lex_string (p @ t) = prepend p (lex_string t)" by (rule lex_string_plain)
  have u: "lex_string (u_escape q @ t) = prepend (u_escape q) (lex_string t)"
    if "q = rune_error \<or> q = 8232 \<or> q = 8233" for q
    using that by (intro lex_string_u_escape) (auto simp: rune_error_def)
  show ?thesis
    using False plain u by (auto simp: escape_piece_def simp del: lex_string.simps)
qed

end
