(* ===== verification/JsonRender.thy ===== *)
theory JsonRender
  imports JsonText
begin

section \<open>The text of a value, and reading it back\<close>

text \<open>
  \<open>render\<close> is the text of a parsed value without the white space around its parts; for the
  values \<open>json.Marshal\<close> builds (\<open>compact\<close>) the parser reads the text back to the value.
\<close>

fun render :: "json \<Rightarrow> string" where
  "render JNull = ''null''"
| "render (JBool b) = (if b then ''true'' else ''false'')"
| "render (JNum t) = t"
| "render (JStr b) = quote # b @ [quote]"
| "render (JArr items) = ''['' @ join_with '','' (map fst items) @ '']''"
| "render (JObj ms) =
     ''{'' @ join_with '','' (map (\<lambda>(k, raw, _). quote # k @ quote # CHR '':'' # raw) ms) @ ''}''"

fun compact :: "int \<Rightarrow> json \<Rightarrow> bool" where
  "compact d JNull \<longleftrightarrow> True"
| "compact d (JBool b) \<longleftrightarrow> True"
| "compact d (JNum t) \<longleftrightarrow> lex_number t = Some (t, [])"
| "compact d (JStr b) \<longleftrightarrow> lex_string (b @ [quote]) = Some (b, [])"
| "compact d (JArr items) \<longleftrightarrow>
     d < max_nesting \<and> list_all (\<lambda>(raw, j). raw = render j \<and> compact (d + 1) j) items"
| "compact d (JObj ms) \<longleftrightarrow>
     d < max_nesting
     \<and> list_all (\<lambda>(k, raw, j). lex_string (k @ [quote]) = Some (k, []) \<and> raw = render j
                   \<and> compact (d + 1) j) ms"

text \<open>What may follow a number.\<close>

definition stops :: "string \<Rightarrow> bool" where
  "stops rest \<longleftrightarrow>
     (case rest of
        [] \<Rightarrow> True
      | c # _ \<Rightarrow> c = CHR '','' \<or> c = CHR '']'' \<or> c = CHR ''}'' \<or> json_ws c)"

lemma stops_simps [simp]: "stops []" "stops (CHR '','' # s)" "stops (CHR '']'' # s)" "stops (CHR ''}'' # s)"
  by (simp_all add: stops_def)

lemma stops_not_digit: "stops rest \<Longrightarrow> takeWhile is_digit rest = [] \<and> dropWhile is_digit rest = rest"
  by (cases rest) (auto simp: stops_def is_digit_def byte_in_def byte_def json_ws_def)

lemma digits_append:
  assumes "(\<forall>c \<in> set t. is_digit c) \<longrightarrow> stops rest"
  shows "takeWhile is_digit (t @ rest) = takeWhile is_digit t"
    and "dropWhile is_digit (t @ rest) = dropWhile is_digit t @ rest"
proof -
  have "takeWhile is_digit (t @ rest) = takeWhile is_digit t
     \<and> dropWhile is_digit (t @ rest) = dropWhile is_digit t @ rest"
  proof (cases "\<forall>c \<in> set t. is_digit c")
    case True
    then have "stops rest" "takeWhile is_digit t = t" "dropWhile is_digit t = []"
      using assms by (auto simp: takeWhile_eq_all_conv)
    with True stops_not_digit[of rest] show ?thesis
      by (simp add: takeWhile_append2 dropWhile_append2) (metis takeWhile_eq_all_conv)
  next
    case False
    then show ?thesis by (auto simp: takeWhile_append1 dropWhile_append1)
  qed
  then show "takeWhile is_digit (t @ rest) = takeWhile is_digit t"
    and "dropWhile is_digit (t @ rest) = dropWhile is_digit t @ rest" by simp_all
qed

lemma lex_integer_append:
  "lex_integer t = Some (b, r) \<Longrightarrow> r = [] \<longrightarrow> stops rest \<Longrightarrow> lex_integer (t @ rest) = Some (b, r @ rest)"
  by (cases t) (auto simp: lex_integer_def digits_append split: if_splits)

lemma lex_fraction_append:
  "lex_fraction t = Some (b, r) \<Longrightarrow> r = [] \<longrightarrow> stops rest \<Longrightarrow> lex_fraction (t @ rest) = Some (b, r @ rest)"
proof (cases t)
  case Nil
  assume "lex_fraction t = Some (b, r)" "r = [] \<longrightarrow> stops rest"
  with Nil show ?thesis by (cases rest) (auto simp: lex_fraction_def stops_def json_ws_def)
next
  case (Cons c u)
  assume "lex_fraction t = Some (b, r)" "r = [] \<longrightarrow> stops rest"
  with Cons show ?thesis by (auto simp: lex_fraction_def Let_def digits_append split: if_splits)
qed

lemma lex_exponent_append:
  "lex_exponent t = Some (b, r) \<Longrightarrow> r = [] \<longrightarrow> stops rest \<Longrightarrow> lex_exponent (t @ rest) = Some (b, r @ rest)"
proof (cases t)
  case Nil
  assume "lex_exponent t = Some (b, r)" "r = [] \<longrightarrow> stops rest"
  with Nil show ?thesis by (cases rest) (auto simp: lex_exponent_def stops_def json_ws_def)
next
  case (Cons e u)
  assume h: "lex_exponent t = Some (b, r)" "r = [] \<longrightarrow> stops rest"
  show ?thesis
  proof (cases "e = CHR ''e'' \<or> e = CHR ''E''")
    case False
    with h Cons show ?thesis by (auto simp: lex_exponent_def)
  next
    case True
    with h Cons show ?thesis
      by (cases u) (auto simp: lex_exponent_def Let_def digits_append split: if_splits)
  qed
qed

lemma lex_number_append:
  assumes "lex_number t = Some (b, r)" and "r = [] \<longrightarrow> stops rest"
  shows "lex_number (t @ rest) = Some (b, r @ rest)"
proof -
  let ?sg = "\<lambda>s. case s of c # _ \<Rightarrow> if c = CHR ''-'' then [c] else [] | [] \<Rightarrow> []"
  from assms(1) have ne: "t \<noteq> []" by (auto simp: lex_number_def lex_integer_def)
  then have sg: "?sg (t @ rest) = ?sg t" "length (?sg t) \<le> length t" by (cases t; simp)+
  from assms(1) obtain i r1 f r2 e where
    p: "lex_integer (drop (length (?sg t)) t) = Some (i, r1)" "lex_fraction r1 = Some (f, r2)"
       "lex_exponent r2 = Some (e, r)" "b = ?sg t @ i @ f @ e"
    by (auto simp: lex_number_def Let_def prepend_eq_Some split: option.splits)
  have e: "lex_exponent (r2 @ rest) = Some (e, r @ rest)"
    using p(3) assms(2) by (rule lex_exponent_append)
  have s2: "r2 = [] \<longrightarrow> stops rest"
    using p(3) assms(2) by (auto simp: lex_exponent_def)
  have f: "lex_fraction (r1 @ rest) = Some (f, r2 @ rest)"
    using p(2) s2 by (rule lex_fraction_append)
  have s1: "r1 = [] \<longrightarrow> stops rest"
    using p(2) s2 by (auto simp: lex_fraction_def)
  have "lex_integer (drop (length (?sg t)) t @ rest) = Some (i, r1 @ rest)"
    using p(1) s1 by (rule lex_integer_append)
  then show ?thesis
    using sg e f p(4) by (simp add: lex_number_def Let_def)
qed

lemma lex_string_append:
  "lex_string s = Some (b, r) \<Longrightarrow> lex_string (s @ rest) = Some (b, r @ rest)"
proof (induction s arbitrary: b r rule: lex_string.induct)
  case (2 c cs)
  show ?case
  proof (cases "c = backslash \<and> c \<noteq> quote")
    case False
    with 2 show ?thesis by (auto simp: prepend_eq_Some split: if_splits)
  next
    case True
    with "2.prems" obtain e t where cs: "cs = e # t" by (cases cs) auto
    show ?thesis
    proof (cases "e = CHR ''u''")
      case False
      with 2 True cs show ?thesis by (auto simp: prepend_eq_Some split: if_splits)
    next
      case u: True
      with "2.prems" True cs obtain w x y z t' where t: "t = w # x # y # z # t'"
        by (auto split: list.splits)
      with 2 True cs u show ?thesis by (auto simp: prepend_eq_Some split: if_splits)
    qed
  qed
qed simp

lemma number_head:
  "lex_number t = Some (t, []) \<Longrightarrow>
     t \<noteq> [] \<and> (hd t = CHR ''-'' \<or> is_digit (hd t))"
  by (cases t) (auto simp: lex_number_def Let_def lex_integer_def is_digit_def byte_in_def byte_def
      split: option.splits if_splits)

lemma render_head:
  assumes "compact d j"
  obtains c u where "render j = c # u" "\<not> json_ws c" "c \<noteq> CHR '']''" "c \<noteq> CHR ''}''"
proof (cases j)
  case (JNum t)
  with assms number_head[of t] obtain c u where "t = c # u" "c = CHR ''-'' \<or> is_digit c"
    by (cases t) auto
  with JNum show ?thesis
    by (intro that[of c u]) (auto simp: json_ws_def is_digit_def byte_in_def byte_def)
next
  case (JBool b)
  then show ?thesis by (cases b) (auto intro: that simp: json_ws_def)
qed (auto intro: that simp: json_ws_def quote_def)

lemma skip_ws_render: "compact d j \<Longrightarrow> skip_ws (render j @ rest) = render j @ rest"
  by (erule render_head) (simp add: skip_ws_def)

lemma skip_ws_nonws: "\<not> json_ws c \<Longrightarrow> skip_ws (c # s) = c # s"
  by (simp add: skip_ws_def)

lemma parse_number_value:
  assumes "lex_number t = Some (t, [])" and "stops rest"
  shows "parse_value (Suc n) d (t @ rest) = Some (JNum t, rest)"
proof -
  obtain c u where t: "t = c # u" using number_head[OF assms(1)] by (cases t) auto
  have "c \<noteq> CHR ''{''" "c \<noteq> CHR ''[''" "c \<noteq> quote" "c \<noteq> CHR ''t''" "c \<noteq> CHR ''f''" "c \<noteq> CHR ''n''"
    using number_head[OF assms(1)] by (auto simp: t quote_def is_digit_def byte_in_def byte_def)
  then show ?thesis
    using lex_number_append[OF assms(1), of rest] assms(2) by (simp add: t)
qed

lemma parse_items_render:
  assumes "\<And>raw j rest n. (raw, j) \<in> set items \<Longrightarrow> stops rest \<Longrightarrow> 2 * length (raw @ rest) + 1 \<le> n
      \<Longrightarrow> parse_value n d (raw @ rest) = Some (j, rest)"
    and "\<And>raw j t. (raw, j) \<in> set items \<Longrightarrow> skip_ws (raw @ t) = raw @ t"
    and "items \<noteq> []"
    and "2 * length (join_with '','' (map fst items) @ CHR '']'' # rest) + 2 \<le> n"
  shows "parse_items n d (join_with '','' (map fst items) @ CHR '']'' # rest) = Some (items, rest)"
  using assms
proof (induction items arbitrary: n)
  case (Cons it items)
  obtain raw j where it: "it = (raw, j)" by (cases it)
  obtain n' where n: "n = Suc n'" using Cons.prems(4) by (cases n) auto
  show ?case
  proof (cases items)
    case Nil
    have "parse_value n' d (raw @ CHR '']'' # rest) = Some (j, CHR '']'' # rest)"
      using Cons.prems(4) Nil it n by (intro Cons.prems(1)) simp_all
    then show ?thesis
      by (simp add: n it Nil skip_ws_nonws json_ws_def)
  next
    case (Cons it' items')
    let ?t = "join_with '','' (map fst items) @ CHR '']'' # rest"
    have j: "join_with '','' (map fst (it # items)) @ CHR '']'' # rest = raw @ CHR '','' # ?t"
      by (simp add: it Cons)
    have len: "2 * length (raw @ CHR '','' # ?t) + 2 \<le> Suc n'"
      using Cons.prems(4) unfolding n j .
    have "parse_value n' d (raw @ CHR '','' # ?t) = Some (j, CHR '','' # ?t)"
      using len it by (intro Cons.prems(1)) simp_all
    moreover have "parse_items n' d ?t = Some (items, rest)"
    proof (rule Cons.IH)
      show "parse_value m d (raw @ rest) = Some (j, rest)"
        if "(raw, j) \<in> set items" "stops rest" "2 * length (raw @ rest) + 1 \<le> m" for raw j rest m
        using that by (intro Cons.prems(1)[of raw j]) simp_all
      show "skip_ws (raw @ t) = raw @ t" if "(raw, j) \<in> set items" for raw j t
        using that by (intro Cons.prems(2)[of raw j]) simp
      show "items \<noteq> []" by (simp add: Cons)
      show "2 * length ?t + 2 \<le> n'" using len by simp
    qed
    moreover have "skip_ws ?t = ?t"
    proof -
      obtain raw' j' where it': "it' = (raw', j')" by (cases it')
      have "\<exists>u. ?t = raw' @ u"
        by (cases items') (auto simp: Cons it')
      then show ?thesis using Cons.prems(2)[of raw' j'] by (auto simp: Cons it')
    qed
    ultimately have "parse_items (Suc n') d (raw @ CHR '','' # ?t) = Some ((raw, j) # items, rest)"
      by (simp add: skip_ws_nonws json_ws_def)
    then show ?thesis unfolding n j [symmetric] it .
  qed
qed simp

definition member_text :: "string \<times> string \<times> json \<Rightarrow> string" where
  "member_text m = (case m of (k, raw, _) \<Rightarrow> quote # k @ quote # CHR '':'' # raw)"

lemma skip_ws_member_text: "skip_ws (member_text m @ t) = member_text m @ t"
  by (cases m) (simp add: member_text_def skip_ws_def json_ws_def quote_def)

lemma parse_members_render:
  assumes "\<And>k raw j rest n. (k, raw, j) \<in> set ms \<Longrightarrow> stops rest \<Longrightarrow> 2 * length (raw @ rest) + 1 \<le> n
      \<Longrightarrow> parse_value n d (raw @ rest) = Some (j, rest)"
    and "\<And>k raw j t. (k, raw, j) \<in> set ms \<Longrightarrow> skip_ws (raw @ t) = raw @ t"
    and "\<And>k raw j. (k, raw, j) \<in> set ms \<Longrightarrow> lex_string (k @ [quote]) = Some (k, [])"
    and "ms \<noteq> []"
    and "2 * length (join_with '','' (map member_text ms) @ CHR ''}'' # rest) + 2 \<le> n"
  shows "parse_members n d (join_with '','' (map member_text ms) @ CHR ''}'' # rest) = Some (ms, rest)"
  using assms
proof (induction ms arbitrary: n)
  case (Cons m ms)
  obtain k raw j where m: "m = (k, raw, j)" by (cases m)
  obtain n' where n: "n = Suc n'" using Cons.prems(5) by (cases n) auto
  have lex: "lex_string (k @ quote # t) = Some (k, t)" for t
    using lex_string_append[of "k @ [quote]" k "[]" t] Cons.prems(3)[of k raw j] by (simp add: m)
  have ws: "skip_ws (raw @ t) = raw @ t" for t
    using Cons.prems(2)[of k raw j] by (simp add: m)
  have col: "skip_ws (CHR '':'' # t) = CHR '':'' # t" for t
    by (simp add: skip_ws_nonws json_ws_def)
  show ?case
  proof (cases ms)
    case Nil
    have "parse_value n' d (raw @ CHR ''}'' # rest) = Some (j, CHR ''}'' # rest)"
      using Cons.prems(5) Nil m n by (intro Cons.prems(1)[of k raw j]) (simp_all add: member_text_def)
    then show ?thesis
      by (simp add: n m Nil member_text_def lex col ws skip_ws_nonws json_ws_def)
  next
    case (Cons m' ms')
    let ?t = "join_with '','' (map member_text ms) @ CHR ''}'' # rest"
    have jn: "join_with '','' (map member_text (m # ms)) @ CHR ''}'' # rest
        = quote # k @ quote # CHR '':'' # raw @ CHR '','' # ?t"
      using Cons by (simp add: m member_text_def)
    have len: "2 * length (quote # k @ quote # CHR '':'' # raw @ CHR '','' # ?t) + 2 \<le> Suc n'"
      using Cons.prems(5) unfolding n jn .
    have "parse_value n' d (raw @ CHR '','' # ?t) = Some (j, CHR '','' # ?t)"
      using len m by (intro Cons.prems(1)[of k raw j]) simp_all
    moreover have "parse_members n' d ?t = Some (ms, rest)"
    proof (rule Cons.IH)
      show "parse_value q d (raw @ rest) = Some (j, rest)"
        if "(k, raw, j) \<in> set ms" "stops rest" "2 * length (raw @ rest) + 1 \<le> q" for k raw j rest q
        using that by (intro Cons.prems(1)[of k raw j]) simp_all
      show "skip_ws (raw @ t) = raw @ t" if "(k, raw, j) \<in> set ms" for k raw j t
        using that by (intro Cons.prems(2)[of k raw j]) simp
      show "lex_string (k @ [quote]) = Some (k, [])" if "(k, raw, j) \<in> set ms" for k raw j
        using that by (intro Cons.prems(3)[of k raw j]) simp
      show "ms \<noteq> []" by (simp add: Cons)
      show "2 * length ?t + 2 \<le> n'" using len by simp
    qed
    moreover have "skip_ws ?t = ?t"
    proof -
      have "\<exists>u. ?t = member_text m' @ u" by (cases ms') (auto simp: Cons)
      then show ?thesis using skip_ws_member_text[of m'] by auto
    qed
    ultimately have "parse_members (Suc n') d (quote # k @ quote # CHR '':'' # raw @ CHR '','' # ?t)
        = Some ((k, raw, j) # ms, rest)"
      by (simp add: lex col ws skip_ws_nonws json_ws_def)
    then show ?thesis unfolding n jn [symmetric] m .
  qed
qed simp

lemma render_obj: "render (JObj ms) = ''{'' @ join_with '','' (map member_text ms) @ ''}''"
  by (simp add: member_text_def [abs_def])

lemma join_with_Cons:
  fixes ps :: "string list"
  shows "ps \<noteq> [] \<Longrightarrow> hd ps = c # p \<Longrightarrow> \<exists>u. join_with sep ps = c # u"
  by (cases "(sep, ps)" rule: join_with.cases) auto

text \<open>The parser reads the text of a compact value back to it, whatever may follow.\<close>

lemma parse_value_render:
  "compact d j \<Longrightarrow> stops rest \<Longrightarrow> 2 * length (render j @ rest) + 1 \<le> n \<Longrightarrow>
     parse_value n d (render j @ rest) = Some (j, rest)"
proof (induction d j arbitrary: n rest rule: compact.induct)
  case (1 d)
  then show ?case by (cases n) (simp_all add: lex_word_def has_prefix_def quote_def)
next
  case (2 d b)
  then show ?case by (cases n; cases b) (simp_all add: lex_word_def has_prefix_def quote_def)
next
  case (3 d t)
  then show ?case using parse_number_value[of t rest _ d] by (cases n) simp_all
next
  case (4 d b)
  then show ?case
    using lex_string_append[of "b @ [quote]" b "[]" rest] by (cases n) (simp_all add: quote_def)
next
  case (5 d items)
  obtain n' where n: "n = Suc n'" using "5.prems"(3) by (cases n) auto
  have it: "raw = render j" "compact (d + 1) j" if "(raw, j) \<in> set items" for raw j
    using "5.prems"(1) that by (auto simp: list_all_iff)
  show ?case
  proof (cases "items = []")
    case True
    then show ?thesis using "5.prems" n by (simp add: skip_ws_nonws json_ws_def)
  next
    case False
    let ?body = "join_with '','' (map fst items) @ CHR '']'' # rest"
    obtain raw j where rj: "(raw, j) \<in> set items" "hd (map fst items) = raw"
      using False by (cases items) (auto intro: that)
    obtain c u where c: "raw = c # u" "\<not> json_ws c" "c \<noteq> CHR '']''"
      using it[OF rj(1)] render_head by metis
    obtain v where v: "join_with '','' (map fst items) = c # v"
      using join_with_Cons[of "map fst items" c u "'',''"] rj(2) c(1) False by auto
    have "parse_items n' (d + 1) ?body = Some (items, rest)"
    proof (rule parse_items_render)
      show "parse_value m (d + 1) (raw @ r) = Some (j, r)"
        if "(raw, j) \<in> set items" "stops r" "2 * length (raw @ r) + 1 \<le> m" for raw j r m
        using "5.IH"[of "(raw, j)" raw j r m] that it[OF that(1)] by simp
      show "skip_ws (raw @ t) = raw @ t" if "(raw, j) \<in> set items" for raw j t
        using it[OF that] skip_ws_render by simp
    qed (use False "5.prems"(3) n in simp_all)
    then show ?thesis
      using "5.prems"(1) c by (simp add: n v skip_ws_nonws)
  qed
next
  case (6 d ms)
  obtain n' where n: "n = Suc n'" using "6.prems"(3) by (cases n) auto
  have it: "raw = render j" "compact (d + 1) j" "lex_string (k @ [quote]) = Some (k, [])"
    if "(k, raw, j) \<in> set ms" for k raw j
    using "6.prems"(1) that by (auto simp: list_all_iff)
  show ?case
  proof (cases "ms = []")
    case True
    then show ?thesis using "6.prems" n by (simp add: skip_ws_nonws json_ws_def)
  next
    case False
    let ?body = "join_with '','' (map member_text ms) @ CHR ''}'' # rest"
    obtain v where v: "join_with '','' (map member_text ms) = quote # v"
      using join_with_Cons[of "map member_text ms" quote _ "'',''"] False
      by (cases ms) (auto simp: member_text_def)
    have "parse_members n' (d + 1) ?body = Some (ms, rest)"
    proof (rule parse_members_render)
      show "parse_value m (d + 1) (raw @ r) = Some (j, r)"
        if "(k, raw, j) \<in> set ms" "stops r" "2 * length (raw @ r) + 1 \<le> m" for k raw j r m
        using "6.IH"[of "(k, raw, j)" k "(raw, j)" raw j r m] that it[OF that(1)] by simp
      show "skip_ws (raw @ t) = raw @ t" if "(k, raw, j) \<in> set ms" for k raw j t
        using it[OF that] skip_ws_render by simp
      show "lex_string (k @ [quote]) = Some (k, [])" if "(k, raw, j) \<in> set ms" for k raw j
        using it[OF that] by simp
    qed (use False "6.prems"(3) n in \<open>simp_all only: render_obj\<close>, simp_all)
    then show ?thesis
      using "6.prems"(1) by (simp only: render_obj n) (simp add: v skip_ws_nonws json_ws_def quote_def)
  qed
qed

theorem json_parse_render: "compact 0 j \<Longrightarrow> json_parse (render j) = Some j"
  using parse_value_render[of 0 j "[]" "2 * length (render j) + 1"] skip_ws_render[of 0 j "[]"]
  by (simp add: json_parse_def json_decode_def skip_ws_def)

text \<open>White space may follow, such as the line feed of an encoder.\<close>

lemma json_parse_render_space:
  assumes "compact 0 j" and "skip_ws space = []"
  shows "json_parse (render j @ space) = Some j"
proof -
  have "stops space" using assms(2) by (cases space) (auto simp: stops_def skip_ws_def split: if_splits)
  then show ?thesis
    using parse_value_render[of 0 j space "2 * length (render j @ space) + 1"] skip_ws_render[of 0 j space]
      assms by (simp add: json_parse_def json_decode_def)
qed

end
