(* ===== verification/JsonDecode.thy ===== *)
theory JsonDecode
  imports JsonRender "HOL-Library.AList"
begin

section \<open>Decoding JSON into Go values\<close>

text \<open>
  How \<open>encoding/json\<close> stores a parsed value in a Go value: into \<open>any\<close>, into a string, a pointer, a
  \<open>json.RawMessage\<close> and into a struct, member by member, with the matching of member names to
  fields (exact, and otherwise by case folding).  Then the token stream \<open>Decoder.Token\<close> delivers.
  The errors are the ones the callers distinguish.
\<close>

datatype json_error =
    NotAnObject
  | NotUtf8
  | SyntaxError
  | TrailingData
  | WrongType
  | DuplicateKey string
  | BadDelimiter
  | UnknownField string

subsection \<open>Values\<close>

text \<open>The value of type \<open>any\<close>; an object is its map, a later member replacing an earlier one.\<close>

datatype any_value =
    VNull
  | VBool bool
  | VNumber string
  | VString string
  | VArray "any_value list"
  | VObject "(string \<times> any_value) list"

fun decode_any :: "json \<Rightarrow> any_value" where
  "decode_any JNull = VNull"
| "decode_any (JBool b) = VBool b"
| "decode_any (JNum t) = VNumber t"
| "decode_any (JStr b) = VString (unquote b)"
| "decode_any (JArr items) = VArray (map (\<lambda>(_, j). decode_any j) items)"
| "decode_any (JObj ms) =
     VObject (foldl (\<lambda>m (k, v). AList.update k v m) []
       (map (\<lambda>(k, _, j). (unquote k, decode_any j)) ms))"

subsection \<open>Scalars and slices\<close>

text \<open>A null leaves a string alone, makes a pointer nil, and is kept by a raw message.\<close>

definition decode_string :: "json \<Rightarrow> string \<Rightarrow> (json_error, string) result" where
  "decode_string v old =
     (case v of JStr b \<Rightarrow> Inr (unquote b) | JNull \<Rightarrow> Inr old | _ \<Rightarrow> Inl WrongType)"

definition decode_bool :: "json \<Rightarrow> bool \<Rightarrow> (json_error, bool) result" where
  "decode_bool v old =
     (case v of JBool b \<Rightarrow> Inr b | JNull \<Rightarrow> Inr old | _ \<Rightarrow> Inl WrongType)"

definition decode_string_ptr :: "json \<Rightarrow> (json_error, string option) result" where
  "decode_string_ptr v =
     (case v of JStr b \<Rightarrow> Inr (Some (unquote b)) | JNull \<Rightarrow> Inr None | _ \<Rightarrow> Inl WrongType)"

definition decode_raw_slice :: "json \<Rightarrow> (json_error, string list) result" where
  "decode_raw_slice v =
     (case v of JArr items \<Rightarrow> Inr (map fst items) | JNull \<Rightarrow> Inr [] | _ \<Rightarrow> Inl WrongType)"

text \<open>\<open>json.Unmarshal\<close> into a string, a bool and a slice of raw messages.\<close>

definition unmarshal :: "(json \<Rightarrow> (json_error, 'a) result) \<Rightarrow> string \<Rightarrow> (json_error, 'a) result" where
  "unmarshal dec data = (case json_parse data of None \<Rightarrow> Inl SyntaxError | Some v \<Rightarrow> dec v)"

subsection \<open>Structs\<close>

text \<open>
  \<open>foldName\<close>: two names fold alike when they agree up to ASCII case; U+017F and U+212A are the two
  runes outside ASCII that fold to an ASCII letter.
\<close>

definition fold_piece :: "nat \<times> string \<Rightarrow> string" where
  "fold_piece rp = (if fst rp = 383 then ''S'' else if fst rp = 8490 then ''K'' else map ascii_upper (snd rp))"

definition fold_name :: "string \<Rightarrow> string" where
  "fold_name s = concat (map fold_piece (rune_pieces s))"

definition find_field :: "string list \<Rightarrow> string \<Rightarrow> string option" where
  "find_field names key =
     (if List.member names key then Some key
      else find (\<lambda>n. fold_name n = fold_name key) names)"

lemma find_field_exact: "List.member names key \<Longrightarrow> find_field names key = Some key"
  by (simp add: find_field_def)

text \<open>
  The member loop: \<open>store f raw v r\<close> decodes the member's value into the field \<open>f\<close> of the struct.
\<close>

fun decode_members ::
  "string list \<Rightarrow> (string \<Rightarrow> string \<Rightarrow> json \<Rightarrow> 'r \<Rightarrow> (json_error, 'r) result)
     \<Rightarrow> (string \<times> string \<times> json) list \<Rightarrow> 'r \<Rightarrow> (json_error, 'r) result" where
  "decode_members names store [] r = Inr r"
| "decode_members names store ((k, raw, v) # ms) r =
     (case find_field names (unquote k) of
        None \<Rightarrow> decode_members names store ms r
      | Some f \<Rightarrow> and_then (store f raw v r) (decode_members names store ms))"

definition decode_struct ::
  "string list \<Rightarrow> (string \<Rightarrow> string \<Rightarrow> json \<Rightarrow> 'r \<Rightarrow> (json_error, 'r) result)
     \<Rightarrow> json \<Rightarrow> 'r \<Rightarrow> (json_error, 'r) result" where
  "decode_struct names store v r =
     (case v of JObj ms \<Rightarrow> decode_members names store ms r | JNull \<Rightarrow> Inr r | _ \<Rightarrow> Inl WrongType)"

text \<open>The member loop of a decoder with \<open>DisallowUnknownFields\<close>.\<close>

fun decode_known_members ::
  "string list \<Rightarrow> (string \<Rightarrow> string \<Rightarrow> json \<Rightarrow> 'r \<Rightarrow> (json_error, 'r) result)
     \<Rightarrow> (string \<times> string \<times> json) list \<Rightarrow> 'r \<Rightarrow> (json_error, 'r) result" where
  "decode_known_members names store [] r = Inr r"
| "decode_known_members names store ((k, raw, v) # ms) r =
     (case find_field names (unquote k) of
        None \<Rightarrow> Inl (UnknownField (unquote k))
      | Some f \<Rightarrow> and_then (store f raw v r) (decode_known_members names store ms))"

definition decode_known_struct ::
  "string list \<Rightarrow> (string \<Rightarrow> string \<Rightarrow> json \<Rightarrow> 'r \<Rightarrow> (json_error, 'r) result)
     \<Rightarrow> json \<Rightarrow> 'r \<Rightarrow> (json_error, 'r) result" where
  "decode_known_struct names store v r =
     (case v of JObj ms \<Rightarrow> decode_known_members names store ms r | JNull \<Rightarrow> Inr r | _ \<Rightarrow> Inl WrongType)"

text \<open>
  A slice of structs keeps its backing array: an element decoded a second time starts from what the
  array holds there.  The pair is the backing array and the length of the slice.
\<close>

fun decode_elements ::
  "(json \<Rightarrow> 'r \<Rightarrow> (json_error, 'r) result) \<Rightarrow> 'r \<Rightarrow> (string \<times> json) list \<Rightarrow> 'r list
     \<Rightarrow> (json_error, 'r list) result" where
  "decode_elements dec zero [] backing = Inr backing"
| "decode_elements dec zero ((_, v) # items) backing =
     and_then (dec v (case backing of [] \<Rightarrow> zero | b # _ \<Rightarrow> b)) (\<lambda>x.
       and_then (decode_elements dec zero items (drop 1 backing)) (\<lambda>xs. Inr (x # xs)))"

definition decode_slice ::
  "(json \<Rightarrow> 'r \<Rightarrow> (json_error, 'r) result) \<Rightarrow> 'r \<Rightarrow> json \<Rightarrow> 'r list \<times> nat
     \<Rightarrow> (json_error, 'r list \<times> nat) result" where
  "decode_slice dec zero v old =
     (case v of
        JNull \<Rightarrow> Inr ([], 0)
      | JArr items \<Rightarrow>
          (if items = [] then Inr ([], 0)
           else and_then (decode_elements dec zero items (fst old)) (\<lambda>xs. Inr (xs, length items)))
      | _ \<Rightarrow> Inl WrongType)"

subsection \<open>Tokens\<close>

datatype token = Delim char | Key string | Scalar

text \<open>
  The stream of \<open>Decoder.Token\<close> over one value.  A string token is a \<open>Key\<close>, at the place of a
  member name or of a value alike; numbers, booleans and null are \<open>Scalar\<close>.
\<close>

fun tokens_of :: "json \<Rightarrow> token list" where
  "tokens_of (JStr b) = [Key (unquote b)]"
| "tokens_of (JArr items) =
     Delim CHR ''['' # concat (map (\<lambda>(_, j). tokens_of j) items) @ [Delim CHR '']'']"
| "tokens_of (JObj ms) =
     Delim CHR ''{'' # concat (map (\<lambda>(k, _, j). Key (unquote k) # tokens_of j) ms)
       @ [Delim CHR ''}'']"
| "tokens_of JNull = [Scalar]"
| "tokens_of (JBool b) = [Scalar]"
| "tokens_of (JNum t) = [Scalar]"

text \<open>\<open>Decoder.More\<close>: the next token does not close the current array or object.\<close>

definition has_more :: "token list \<Rightarrow> bool" where
  "has_more ts = (case ts of [] \<Rightarrow> False | t # _ \<Rightarrow> t \<noteq> Delim CHR '']'' \<and> t \<noteq> Delim CHR ''}'')"

lemma has_more_simps [simp]:
  "\<not> has_more []" "has_more (t # ts) \<longleftrightarrow> t \<noteq> Delim CHR '']'' \<and> t \<noteq> Delim CHR ''}''"
  by (simp_all add: has_more_def)

lemma tokens_of_Cons:
  obtains t ts where "tokens_of j = t # ts" "t \<noteq> Delim CHR '']''" "t \<noteq> Delim CHR ''}''"
  by (cases j) auto

lemma has_more_tokens_of [simp]: "has_more (tokens_of j @ ts)"
  by (rule tokens_of_Cons[of j]) simp

subsection \<open>Writing Go values\<close>

text \<open>The trees \<open>json.Marshal\<close> writes for strings, integers, slices and structs.\<close>

definition jstr :: "string \<Rightarrow> json" where "jstr s = JStr (escape_string s)"
definition jint :: "int \<Rightarrow> json" where "jint n = JNum (format_int n)"
definition jarr :: "json list \<Rightarrow> json" where "jarr vs = JArr (map (\<lambda>v. (render v, v)) vs)"
definition jobj :: "(string \<times> json) list \<Rightarrow> json" where
  "jobj kvs = JObj (map (\<lambda>(k, v). (escape_string k, render v, v)) kvs)"

text \<open>
  A \<open>json.RawMessage\<close> is written compacted, with the HTML characters and the two line separators of
  its strings escaped.
\<close>

fun html_body :: "string \<Rightarrow> string" where
  "html_body [] = []"
| "html_body (c # cs) =
     (if c = CHR ''<'' \<or> c = CHR ''>'' \<or> c = CHR ''&'' then u_escape (byte c) @ html_body cs
      else (case cs of
              d # e # t \<Rightarrow>
                (if byte c = 226 \<and> byte d = 128 \<and> (byte e = 168 \<or> byte e = 169)
                 then u_escape (8064 + byte e) @ html_body t
                 else c # html_body cs)
            | _ \<Rightarrow> c # html_body cs))"

fun compacted :: "json \<Rightarrow> json" where
  "compacted JNull = JNull"
| "compacted (JBool b) = JBool b"
| "compacted (JNum t) = JNum t"
| "compacted (JStr b) = JStr (html_body b)"
| "compacted (JArr items) = jarr (map (\<lambda>(_, j). compacted j) items)"
| "compacted (JObj ms) =
     JObj (map (\<lambda>(k, _, j). (html_body k, render (compacted j), compacted j)) ms)"

text \<open>\<open>None\<close> is the error of \<open>MarshalJSON\<close> on a text that is no JSON; nil is written as null.\<close>

definition marshal_raw :: "string \<Rightarrow> json option" where
  "marshal_raw raw = (if raw = [] then Some JNull else map_option compacted (json_parse raw))"

end
