(* ===== verification/JsonMarshal.thy ===== *)
theory JsonMarshal
  imports JsonDecode
begin

section \<open>What json.Marshal writes is JSON\<close>

text \<open>
  The trees the encoder builds (\<open>jstr\<close>, \<open>jint\<close>, \<open>jarr\<close>, \<open>jobj\<close>, \<open>marshal_raw\<close>) are compact, so the
  parser reads their text back to them, and two of them with the same text are equal.
\<close>

subsection \<open>Literals lex by themselves\<close>

lemma lex_string_self: "lex_string s = Some (b, r) \<Longrightarrow> lex_string (b @ quote # t) = Some (b, t)"
proof (induction s arbitrary: b r rule: lex_string.induct)
  case (2 c cs)
  show ?case
  proof (cases "c = backslash \<and> c \<noteq> quote")
    case False
    with 2 show ?thesis by (auto simp: prepend_eq_Some split: if_splits)
  next
    case True
    with "2.prems" obtain e u where cs: "cs = e # u" by (cases cs) auto
    show ?thesis
    proof (cases "e = CHR ''u''")
      case False
      with 2 True cs show ?thesis by (auto simp: prepend_eq_Some split: if_splits)
    next
      case u: True
      with "2.prems" True cs obtain w x y z t' where "u = w # x # y # z # t'"
        by (auto split: list.splits)
      with 2 True cs u show ?thesis by (auto simp: prepend_eq_Some split: if_splits)
    qed
  qed
qed simp

lemma digits_prefix:
  assumes "takeWhile is_digit t = ds" and "dropWhile is_digit t = u @ v"
  shows "takeWhile is_digit (ds @ u) = ds" and "dropWhile is_digit (ds @ u) = u"
proof -
  have d: "\<forall>c \<in> set ds. is_digit c" using assms(1) by (auto dest: set_takeWhileD)
  have "takeWhile is_digit u = [] \<and> dropWhile is_digit u = u"
  proof (cases u)
    case (Cons c u')
    then have "\<not> is_digit c"
      using assms(2) by (metis append_Cons dropWhile_eq_Cons_conv)
    then show ?thesis by (simp add: Cons)
  qed simp
  with d show "takeWhile is_digit (ds @ u) = ds" "dropWhile is_digit (ds @ u) = u"
    by (simp_all add: takeWhile_append dropWhile_append takeWhile_eq_all_conv)
qed

lemma lex_integer_prefix:
  assumes "lex_integer s = Some (b, u @ v)"
  shows "lex_integer (b @ u) = Some (b, u)"
  using assms digits_prefix[OF refl, of "tl s" u v]
  by (cases s) (auto simp: lex_integer_def split: if_splits)

lemma lex_fraction_prefix:
  assumes "lex_fraction s = Some (b, u @ v)"
  shows "lex_fraction (b @ u) = Some (b, u)"
proof (cases s)
  case Nil
  with assms show ?thesis by (simp add: lex_fraction_def)
next
  case (Cons p t)
  show ?thesis
  proof (cases "p = CHR ''.''")
    case True
    with assms Cons digits_prefix[OF refl, of t u v] show ?thesis
      by (auto simp: lex_fraction_def Let_def split: if_splits)
  next
    case False
    with assms Cons show ?thesis by (cases u) (auto simp: lex_fraction_def)
  qed
qed

lemma lex_exponent_prefix:
  assumes "lex_exponent s = Some (b, u @ v)"
  shows "lex_exponent (b @ u) = Some (b, u)"
proof (cases s)
  case Nil
  with assms show ?thesis by (simp add: lex_exponent_def)
next
  case (Cons e t)
  show ?thesis
  proof (cases "e = CHR ''e'' \<or> e = CHR ''E''")
    case False
    with assms Cons show ?thesis by (cases u) (auto simp: lex_exponent_def)
  next
    case True
    show ?thesis
    proof (cases t)
      case Nil
      with assms Cons True show ?thesis by (simp add: lex_exponent_def)
    next
      case (Cons g w)
      show ?thesis
      proof (cases "g = CHR ''+'' \<or> g = CHR ''-''")
        case g: True
        with assms True Cons \<open>s = e # t\<close> digits_prefix[OF refl, of w u v] show ?thesis
          by (auto simp: lex_exponent_def Let_def split: if_splits)
      next
        case g: False
        let ?ds = "takeWhile is_digit t"
        have ds: "?ds \<noteq> []" "b = e # ?ds" "dropWhile is_digit t = u @ v"
          using assms True Cons \<open>s = e # t\<close> g by (auto simp: lex_exponent_def Let_def split: if_splits)
        then obtain h ds' where h: "?ds = h # ds'" "is_digit h"
          by (metis list.exhaust list.set_intros(1) set_takeWhileD)
        have "h \<noteq> CHR ''+''" "h \<noteq> CHR ''-''"
          using h(2) by (auto simp: is_digit_def byte_in_def byte_def)
        with digits_prefix[OF refl ds(3)] ds h True show ?thesis
          by (auto simp: lex_exponent_def Let_def)
      qed
    qed
  qed
qed

lemma lex_number_self:
  assumes "lex_number s = Some (b, r)"
  shows "lex_number b = Some (b, [])"
proof -
  let ?sg = "\<lambda>s. case s of c # _ \<Rightarrow> if c = CHR ''-'' then [c] else [] | [] \<Rightarrow> []"
  from assms obtain i r1 f r2 e where
    p: "lex_integer (drop (length (?sg s)) s) = Some (i, r1)" "lex_fraction r1 = Some (f, r2)"
       "lex_exponent r2 = Some (e, r)" "b = ?sg s @ i @ f @ e"
    by (auto simp: lex_number_def Let_def prepend_eq_Some split: option.splits)
  have r2: "r2 = e @ r" and r1: "r1 = (f @ e) @ r"
    using lex_exponent_split[OF p(3)] lex_fraction_split[OF p(2)] by simp_all
  have "lex_exponent e = Some (e, [])"
    using lex_exponent_prefix[of r2 e "[]" r] p(3) by simp
  moreover have "lex_fraction (f @ e) = Some (f, e)"
    using lex_fraction_prefix[of r1 f e r] p(2) r2 by simp
  moreover have "lex_integer (i @ f @ e) = Some (i, f @ e)"
    using lex_integer_prefix[of _ i "f @ e" r] p(1) r1 by simp
  moreover have "?sg b = ?sg s"
  proof (cases "?sg s")
    case Nil
    have "i \<noteq> []" using lex_integer_split[OF p(1)] by simp
    then obtain c i' where i: "i = c # i'" by (cases i) auto
    have "is_digit c" using p(1) i by (auto simp: lex_integer_def is_digit_def byte_in_def byte_def split: list.splits if_splits)
    then have "c \<noteq> CHR ''-''" by (auto simp: is_digit_def byte_in_def byte_def)
    then show ?thesis using Nil p(4) i by simp
  next
    case (Cons c cs)
    then show ?thesis using p(4) by (auto split: list.splits if_splits)
  qed
  ultimately show ?thesis by (simp add: lex_number_def Let_def p(4))
qed

subsection \<open>Parsed values\<close>

text \<open>What the parser guarantees of the literals and of the depth of its result.\<close>

fun lexed :: "int \<Rightarrow> json \<Rightarrow> bool" where
  "lexed d JNull \<longleftrightarrow> True"
| "lexed d (JBool b) \<longleftrightarrow> True"
| "lexed d (JNum t) \<longleftrightarrow> lex_number t = Some (t, [])"
| "lexed d (JStr b) \<longleftrightarrow> lex_string (b @ [quote]) = Some (b, [])"
| "lexed d (JArr items) \<longleftrightarrow> d < max_nesting \<and> list_all (\<lambda>(_, j). lexed (d + 1) j) items"
| "lexed d (JObj ms) \<longleftrightarrow>
     d < max_nesting
     \<and> list_all (\<lambda>(k, _, j). lex_string (k @ [quote]) = Some (k, []) \<and> lexed (d + 1) j) ms"

lemma parse_lexed:
  "parse_value n d s = Some (v, r) \<Longrightarrow> lexed d v"
  "parse_items n d s = Some (vs, r) \<Longrightarrow> list_all (\<lambda>(_, j). lexed d j) vs"
  "parse_members n d s = Some (ms, r) \<Longrightarrow>
     list_all (\<lambda>(k, _, j). lex_string (k @ [quote]) = Some (k, []) \<and> lexed d j) ms"
proof (induction n arbitrary: d s v vs ms r)
  case 0
  { case 1 then show ?case by simp }
  { case 2 then show ?case by simp }
  { case 3 then show ?case by simp }
next
  case (Suc n)
  { case 1
    then show ?case
    proof (cases rule: parse_value_SucE)
      case (obj cs c t)
      then show ?thesis using Suc.IH(3)[of "d + 1" "skip_ws cs"] by auto
    next
      case (arr cs c t)
      then show ?thesis using Suc.IH(2)[of "d + 1" "skip_ws cs"] by auto
    next
      case (str cs b)
      then show ?thesis using lex_string_self[of cs b r "[]"] by simp
    next
      case (word w)
      then show ?thesis by auto
    next
      case (num b)
      then show ?thesis using lex_number_self by simp
    qed }
  { case 2
    then show ?case
    proof (cases rule: parse_items_SucE)
      case (1 v r1 c t)
      then show ?thesis using Suc.IH(1)[OF 1(1)] Suc.IH(2)[of d "skip_ws t"] by auto
    qed }
  { case 3
    then show ?case
    proof (cases rule: parse_members_SucE)
      case (1 s1 k s2 s3 v r1 c t)
      then show ?thesis
        using Suc.IH(1)[OF 1(4)] Suc.IH(3)[of d "skip_ws t"] lex_string_self[OF 1(2), of "[]"] by auto
    qed }
qed

lemma json_parse_lexed: "json_parse s = Some v \<Longrightarrow> lexed 0 v"
  by (auto simp: json_parse_def json_decode_def dest: parse_lexed(1)
      simp del: parse_value.simps split: option.splits if_splits)

subsection \<open>Compact trees\<close>

lemma compact_antimono: "compact d j \<Longrightarrow> d' \<le> d \<Longrightarrow> compact d' j"
proof (induction d j arbitrary: d' rule: compact.induct)
  case (5 d items)
  then show ?case by (fastforce simp: list_all_iff)
next
  case (6 d ms)
  then show ?case by (fastforce simp: list_all_iff)
qed simp_all

definition wf_json :: "json \<Rightarrow> bool" where
  "wf_json j \<longleftrightarrow> (\<exists>d. compact d j)"

lemma render_inject: "wf_json a \<Longrightarrow> wf_json b \<Longrightarrow> render a = render b \<Longrightarrow> a = b"
proof -
  assume "wf_json a" "wf_json b" and eq: "render a = render b"
  then obtain d e where "compact d a" "compact e b" by (auto simp: wf_json_def)
  then have "compact (min d e) a" "compact (min d e) b" by (auto intro: compact_antimono)
  then have "parse_value (2 * length (render a) + 1) (min d e) (render a) = Some (a, [])"
    "parse_value (2 * length (render b) + 1) (min d e) (render b) = Some (b, [])"
    using parse_value_render[of "min d e" _ "[]"] by (simp_all del: parse_value.simps)
  then show ?thesis unfolding eq by simp
qed

lemma wf_json_all:
  assumes "\<forall>x \<in> set xs. wf_json (f x)"
  shows "\<exists>d. \<forall>x \<in> set xs. compact d (f x)"
  using assms
proof (induction xs)
  case (Cons x xs)
  then obtain d e where "\<forall>y \<in> set xs. compact d (f y)" "compact e (f x)" by (auto simp: wf_json_def)
  then have "\<forall>y \<in> set (x # xs). compact (min d e) (f y)" by (auto intro: compact_antimono)
  then show ?case by blast
qed simp

lemma lex_escape_string: "lex_string (escape_string s @ t) = prepend (escape_string s) (lex_string t)"
proof (induction s rule: rune_pieces.induct)
  case (1 s)
  show ?case
  proof (cases "s = []")
    case True
    then show ?thesis by (cases "lex_string t") auto
  next
    case False
    let ?r = "fst (decode_rune s)" and ?n = "snd (decode_rune s)"
    obtain c u where s: "s = c # u" using False by (cases s) auto
    have "?n > 0" using decode_rune_width[OF False] by simp
    then have ne: "take ?n s \<noteq> []" by (simp add: s)
    have "if ?r < 128 then take ?n s = [char_of ?r] else \<forall>c \<in> set (take ?n s). 128 \<le> byte c"
    proof (cases "?r = rune_error \<and> ?n = 1")
      case False
      then show ?thesis using valid_piece_decode[OF \<open>s \<noteq> []\<close>] by (simp add: valid_piece_def)
    next
      case True
      have "\<not> byte c < 128"
      proof
        assume "byte c < 128"
        then have "?r < 128" by (simp add: s)
        with True show False by (simp add: rune_error_def)
      qed
      then show ?thesis using True by (simp add: s rune_error_def)
    qed
    from lex_escape_piece[OF ne this]
    have "lex_string (escape_piece (?r, take ?n s) @ v)
        = prepend (escape_piece (?r, take ?n s)) (lex_string v)" for v .
    then have "lex_string (escape_string s @ t)
        = prepend (escape_piece (?r, take ?n s)) (prepend (escape_string (drop ?n s)) (lex_string t))"
      using 1[OF False] by (simp add: escape_string_step[OF False])
    then show ?thesis
      by (cases "lex_string t") (auto simp: escape_string_step[OF False])
  qed
qed

lemma lex_quote [simp]: "lex_string (quote # t) = Some ([], t)"
  by simp

lemma lex_escape_string_self: "lex_string (escape_string s @ [quote]) = Some (escape_string s, [])"
  by (simp add: lex_escape_string)

declare html_body.simps [simp del]

lemma html_body_Nil [simp]: "html_body [] = []"
  by (simp add: html_body.simps)

lemma html_body_plain:
  "c \<noteq> CHR ''<'' \<Longrightarrow> c \<noteq> CHR ''>'' \<Longrightarrow> c \<noteq> CHR ''&'' \<Longrightarrow> byte c \<noteq> 226 \<Longrightarrow>
     html_body (c # cs) = c # html_body cs"
  by (subst html_body.simps) (auto split: list.splits)

lemma html_body_cases:
  obtains (special) "c = CHR ''<'' \<or> c = CHR ''>'' \<or> c = CHR ''&''"
      "html_body (c # cs) = u_escape (byte c) @ html_body cs"
  | (separator) d e u where "cs = d # e # u" "byte c = 226" "byte d = 128" "byte e = 168 \<or> byte e = 169"
      "html_body (c # cs) = u_escape (8064 + byte e) @ html_body u"
  | (plain) "html_body (c # cs) = c # html_body cs"
  using html_body.simps(2)[of c cs] that by (auto split: list.splits if_splits)

lemma lex_prepend_Some:
  "prepend p (lex_string s) = Some (p @ b, []) \<Longrightarrow> lex_string s = Some (b, [])"
  by (auto simp: prepend_eq_Some)

lemma html_body_escape_chars:
  "escape_letter e \<Longrightarrow> html_body (e # s) = e # html_body s"
  "hex_val e \<noteq> None \<Longrightarrow> html_body (e # s) = e # html_body s"
  "html_body (backslash # s) = backslash # html_body s"
  "html_body (CHR ''u'' # s) = CHR ''u'' # html_body s"
  by (rule html_body_plain;
      auto simp: escape_letter_def quote_def backslash_def byte_def hex_val_def byte_in_def split: if_splits)+

lemma parse_hex4_vals:
  "parse_hex4 [w, x, y, z] \<noteq> None \<Longrightarrow>
     hex_val w \<noteq> None \<and> hex_val x \<noteq> None \<and> hex_val y \<noteq> None \<and> hex_val z \<noteq> None"
  by (auto simp: parse_hex4_def split: option.splits)

lemma prepend_prepend [simp]: "prepend p (prepend q r) = prepend (p @ q) r"
  by (cases r) auto

lemma lex_html_body:
  "lex_string (b @ [quote]) = Some (b, []) \<Longrightarrow>
     lex_string (html_body b @ t) = prepend (html_body b) (lex_string t)"
proof (induction b rule: length_induct)
  case (1 b)
  show ?case
  proof (cases b)
    case Nil
    then show ?thesis by (cases "lex_string t") auto
  next
    case (Cons c cs)
    have cq: "c \<noteq> quote" using 1(2) Cons by auto
    show ?thesis
    proof (cases "c = backslash")
      case True
      obtain e u where cs: "cs = e # u"
        using 1(2) Cons True by (cases cs) (auto simp: quote_def backslash_def escape_letter_def)
      show ?thesis
      proof (cases "e = CHR ''u''")
        case e: True
        obtain w x y z v where u: "u @ [quote] = w # x # y # z # v"
          and h: "parse_hex4 [w, x, y, z] \<noteq> None"
          and l: "prepend [c, e, w, x, y, z] (lex_string v) = Some (b, [])"
          using 1(2) Cons True cq cs e by (auto split: list.splits if_splits)
        have "z \<noteq> quote" using parse_hex4_vals[OF h] by (auto simp: hex_val_def quote_def byte_in_def byte_def)
        then obtain v' where u': "u = w # x # y # z # v'" "v = v' @ [quote]"
          using u by (cases u rule: rev_cases; cases v rule: rev_cases)
            (auto simp: Cons_eq_append_conv append_eq_Cons_conv)
        have "lex_string (v' @ [quote]) = Some (v', [])"
          using l u' Cons cs by (auto simp: prepend_eq_Some)
        then have "lex_string (html_body v' @ t) = prepend (html_body v') (lex_string t)"
          using 1(1) Cons cs u' by simp
        then show ?thesis
          using parse_hex4_vals[OF h] h True e cq
          by (simp add: Cons cs u' html_body_escape_chars)
      next
        case False
        have "escape_letter e" "lex_string (u @ [quote]) = Some (u, [])"
          using 1(2) Cons True cq cs False by (auto simp: prepend_eq_Some split: if_splits)
        moreover from this have "lex_string (html_body u @ t) = prepend (html_body u) (lex_string t)"
          using 1(1) Cons cs by simp
        ultimately show ?thesis
          using True False cq
          by (simp add: Cons cs html_body_escape_chars)
      qed
    next
      case False
      have rest: "\<not> byte c < 32" "lex_string (cs @ [quote]) = Some (cs, [])"
        using 1(2) Cons cq False by (auto simp: prepend_eq_Some split: if_splits)
      have IH: "lex_string (html_body cs @ t) = prepend (html_body cs) (lex_string t)"
        using 1(1) rest(2) Cons by simp
      have keep: ?thesis if "html_body b = c # html_body cs"
        using that IH cq False rest(1) by simp
      show ?thesis
      proof (cases c cs rule: html_body_cases)
        case esc: special
        then have "byte c < 65536" by (auto simp: byte_def)
        from lex_string_u_escape[OF this] show ?thesis
          using esc(2) IH by (simp add: Cons del: lex_string.simps)
      next
        case sep: (separator d e u)
        have "d \<noteq> quote" "d \<noteq> backslash" "e \<noteq> quote" "e \<noteq> backslash"
          using sep byte_quote byte_backslash by auto
        then have "lex_string (u @ [quote]) = Some (u, [])"
          using rest(2) sep by (auto simp: prepend_eq_Some split: if_splits)
        then have "lex_string (html_body u @ t) = prepend (html_body u) (lex_string t)"
          using 1(1) Cons sep by simp
        moreover have "8064 + byte e < 65536" using sep by auto
        note lex_string_u_escape[OF this]
        ultimately show ?thesis
          using sep by (simp add: Cons del: lex_string.simps)
      next
        case plain
        then show ?thesis by (intro keep) (simp add: Cons)
      qed
    qed
  qed
qed

subsection \<open>The encoder's trees are compact\<close>

lemma compact_compacted: "lexed d j \<Longrightarrow> compact d (compacted j)"
proof (induction d j rule: lexed.induct)
  case (4 d b)
  then show ?case by (simp add: lex_html_body)
next
  case (5 d items)
  then show ?case by (fastforce simp: jarr_def list_all_iff)
next
  case (6 d ms)
  then show ?case by (fastforce simp: list_all_iff lex_html_body)
qed simp_all

lemma wf_marshal_raw: "marshal_raw raw = Some j \<Longrightarrow> wf_json j"
  by (auto simp: marshal_raw_def wf_json_def dest!: json_parse_lexed split: if_splits
      intro!: exI[of _ 0] compact_compacted)

lemma wf_jstr: "wf_json (jstr s)"
  by (simp add: wf_json_def jstr_def lex_escape_string_self)

lemma hd_format_nat_zero: "0 < n \<Longrightarrow> hd (format_nat n) \<noteq> CHR ''0''"
proof (induction n rule: format_nat.induct)
  case (1 n)
  have "digit_char n \<noteq> CHR ''0''" if "n < 10" "0 < n"
    using that by (simp add: digit_char_def byte_inject [symmetric] byte_def del: byte_inject)
  with 1 show ?case by (subst format_nat.simps) (simp add: not_less)
qed

lemma lex_format_nat: "lex_integer (format_nat n) = Some (format_nat n, [])"
proof -
  obtain c cs where f: "format_nat n = c # cs" by (cases "format_nat n") auto
  have dig: "\<forall>x \<in> set (c # cs). is_digit x"
    using format_nat_digits[of _ n] f by (auto simp: is_digit_def)
  show ?thesis
  proof (cases "n = 0")
    case True
    then show ?thesis by (subst (1 2) format_nat.simps) (simp add: lex_integer_def digit_char_def is_digit_def byte_in_def byte_def)
  next
    case False
    then have "c \<noteq> CHR ''0''" using hd_format_nat_zero[of n] f by simp
    with dig have "takeWhile is_digit cs = cs" "dropWhile is_digit cs = []"
      by (auto simp: takeWhile_eq_all_conv)
    with dig \<open>c \<noteq> _\<close> show ?thesis by (simp add: f lex_integer_def)
  qed
qed

lemma wf_jint: "wf_json (jint n)"
proof -
  have "lex_number (format_int n) = Some (format_int n, [])"
  proof (cases "n < 0")
    case True
    then show ?thesis
      by (simp add: format_int_def lex_number_def Let_def lex_format_nat lex_fraction_def lex_exponent_def)
  next
    case False
    obtain c cs where f: "format_nat (nat n) = c # cs" by (cases "format_nat (nat n)") auto
    have "c \<noteq> CHR ''-''" using hd_format_nat[of "nat n"] by (auto simp: f byte_in_def byte_def)
    with False lex_format_nat[of "nat n"] f show ?thesis
      by (simp add: format_int_def lex_number_def Let_def lex_fraction_def lex_exponent_def)
  qed
  then show ?thesis by (simp add: wf_json_def jint_def)
qed

lemma wf_jarr: "list_all wf_json vs \<Longrightarrow> wf_json (jarr vs)"
proof -
  assume "list_all wf_json vs"
  then obtain d where "\<forall>v \<in> set vs. compact d v"
    using wf_json_all[of vs id] by (auto simp: list_all_iff)
  then have "compact (min d max_nesting - 1) (jarr vs)"
    by (auto simp: jarr_def list_all_iff intro: compact_antimono)
  then show ?thesis by (auto simp: wf_json_def)
qed

lemma wf_jobj: "list_all (wf_json \<circ> snd) kvs \<Longrightarrow> wf_json (jobj kvs)"
proof -
  assume "list_all (wf_json \<circ> snd) kvs"
  then obtain d where "\<forall>kv \<in> set kvs. compact d (snd kv)"
    using wf_json_all[of kvs snd] by (auto simp: list_all_iff)
  then have "compact (min d max_nesting - 1) (jobj kvs)"
    by (force simp: jobj_def list_all_iff lex_escape_string_self intro: compact_antimono)
  then show ?thesis by (auto simp: wf_json_def)
qed

subsection \<open>What a value means\<close>

text \<open>
  The value a JSON text denotes under RFC 8785: strings without their escapes, objects without the
  order of their members, numbers as IEEE doubles.  The argument gives the bit pattern of the double
  a number's text is read as.
\<close>

datatype json_sem =
    SNull
  | SBool bool
  | SNum int
  | SStr string
  | SArr "json_sem list"
  | SObj "string \<Rightarrow> json_sem option"

fun sem_of :: "(string \<Rightarrow> int) \<Rightarrow> json \<Rightarrow> json_sem" where
  "sem_of f64 JNull = SNull"
| "sem_of f64 (JBool b) = SBool b"
| "sem_of f64 (JNum t) = SNum (f64 t)"
| "sem_of f64 (JStr b) = SStr (unquote b)"
| "sem_of f64 (JArr items) = SArr (map (\<lambda>(_, j). sem_of f64 j) items)"
| "sem_of f64 (JObj ms) = SObj (map_of (rev (map (\<lambda>(k, _, j). (unquote k, sem_of f64 j)) ms)))"

lemma sem_jstr: "valid_utf8 s \<Longrightarrow> sem_of f64 (jstr s) = SStr s"
  by (simp add: jstr_def unquote_escape_string)

lemma sem_jarr: "sem_of f64 (jarr vs) = SArr (map (sem_of f64) vs)"
  by (simp add: jarr_def comp_def)

lemma sem_jobj:
  assumes "list_all (valid_utf8 \<circ> fst) kvs" and "distinct (map fst kvs)"
  shows "sem_of f64 (jobj kvs) = SObj (map_of (map (\<lambda>(k, v). (k, sem_of f64 v)) kvs))"
proof -
  have "map (\<lambda>(k, _, j). (unquote k, sem_of f64 j)) (map (\<lambda>(k, v). (escape_string k, render v, v)) kvs)
      = map (\<lambda>(k, v). (k, sem_of f64 v)) kvs"
    using assms(1) by (auto simp: list_all_iff unquote_escape_string)
  moreover have "map_of (rev xs) = map_of xs" if "distinct (map fst xs)" for xs :: "(string \<times> json_sem) list"
    using that by (intro map_of_perm) (simp_all add: rev_map [symmetric])
  moreover have "map fst (map (\<lambda>(k, v). (k, sem_of f64 v)) kvs) = map fst kvs" by auto
  ultimately show ?thesis
    using assms(2) by (simp add: jobj_def del: map_map)
qed

end
