(* ===== verification/Canonical.thy ===== *)
theory Canonical
  imports JsonMarshal HttpHeader
begin

section \<open>Canonical JSON values (internal/attestation/attestation.go)\<close>

text \<open>
  \<open>canonicalizeJSONValue\<close>, the checks it makes before it calls the JCS library, and \<open>NewField\<close>.
  The record \<open>runtime\<close> holds what lies outside the repository: the JCS transformation
  (\<open>webpki.org/jsoncanonicalizer\<close>, \<open>None\<close> for an error), Ed25519, SHA-256 and the reading of a
  number as an IEEE double.
\<close>

record runtime = unicode_tables +
  jcs :: "bytes \<Rightarrow> bytes option"
  ed_sign :: "bytes \<Rightarrow> bytes \<Rightarrow> bytes"
  ed_verify :: "bytes \<Rightarrow> bytes \<Rightarrow> bytes \<Rightarrow> bool"
  sha256 :: "bytes \<Rightarrow> bytes"
  f64 :: "string \<Rightarrow> int"

datatype att_error =
    GoPanic
  | EmptyFieldName
  | FieldNameNotUtf8
  | JsonNotUtf8
  | InvalidJson
  | InvalidEscape
  | UnpairedHighSurrogate
  | UnpairedLowSurrogate
  | UnsafeInteger
  | JcsFailed
  | FieldsMissing
  | InvalidFieldName string string
  | DuplicateFieldName string string
  | InvalidFieldValue string string att_error
  | UnsafeRequestPath
  | ModelNotString
  | UnsafeModel
  | NonceUnavailable
  | ClaimNotUtf8 string
  | TimestampOutOfRange
  | ChallengeLength
  | ChallengeCharacter
  | StatusOutOfRange
  | InvalidContentType
  | EncodeFailed
  | UnsupportedAlgorithm string
  | UnsupportedProfile string
  | UnexpectedSignedFields string
  | DomainMismatch
  | PathMismatch
  | ModelMismatch
  | UnexpectedModel
  | FingerprintMismatch
  | ChallengeMismatch
  | StatusMismatch
  | ContentTypeMismatch
  | InvalidTimestamp
  | OutsideWindow
  | InvalidSignatureEncoding
  | SignatureFailed

definition max_safe_integer :: int where
  "max_safe_integer = 2 ^ 53 - 1"

subsection \<open>Unpaired surrogates\<close>

text \<open>
  The byte loop of \<open>validateUnicodeScalarEscapes\<close>; the flag says whether the index is inside a
  string.  An index behind the end of the text is a panic of the Go code.
\<close>

function scan_escapes :: "bool \<Rightarrow> string \<Rightarrow> (att_error, unit) result" where
  "scan_escapes inside s =
     (case s of
        [] \<Rightarrow> Inr ()
      | c # cs \<Rightarrow>
          if \<not> inside then scan_escapes (c = quote) cs
          else if c = quote then scan_escapes False cs
          else if c = backslash then
            (case cs of
               [] \<Rightarrow> Inl GoPanic
             | e # t \<Rightarrow>
                 if e \<noteq> CHR ''u'' then scan_escapes True t
                 else if length t < 4 then Inl GoPanic
                 else (case parse_hex4 (take 4 t) of
                         None \<Rightarrow> Inl InvalidEscape
                       | Some u \<Rightarrow>
                           if is_high_surrogate u then
                             (if length t < 10 \<or> t ! 4 \<noteq> backslash \<or> t ! 5 \<noteq> CHR ''u''
                              then Inl UnpairedHighSurrogate
                              else (case parse_hex4 (take 4 (drop 6 t)) of
                                      None \<Rightarrow> Inl UnpairedHighSurrogate
                                    | Some v \<Rightarrow>
                                        if is_low_surrogate v then scan_escapes True (drop 10 t)
                                        else Inl UnpairedHighSurrogate))
                           else if is_low_surrogate u then Inl UnpairedLowSurrogate
                           else scan_escapes True (drop 4 t)))
          else scan_escapes True cs)"
  by pat_completeness auto
termination
  by (relation "measure (\<lambda>(_, s). length s)") auto

declare scan_escapes.simps [simp del]

definition validate_unicode_scalar_escapes :: "string \<Rightarrow> (att_error, unit) result" where
  "validate_unicode_scalar_escapes raw = scan_escapes False raw"

subsection \<open>Integers outside the safe range\<close>

text \<open>An object is visited in the order of its members; the outcome does not depend on the order.\<close>

fun validate_ijson_numbers :: "any_value \<Rightarrow> (att_error, unit) result" where
  "validate_ijson_numbers (VNumber t) =
     (if contains_any t ''.eE'' then Inr ()
      else (case parse_int64 t of
              None \<Rightarrow> Inl UnsafeInteger
            | Some n \<Rightarrow> require (- max_safe_integer \<le> n \<and> n \<le> max_safe_integer) UnsafeInteger (Inr ())))"
| "validate_ijson_numbers (VArray vs) =
     and_then (map_result validate_ijson_numbers vs) (\<lambda>_. Inr ())"
| "validate_ijson_numbers (VObject m) =
     and_then (map_result (\<lambda>(_, v). validate_ijson_numbers v) m) (\<lambda>_. Inr ())"
| "validate_ijson_numbers VNull = Inr ()"
| "validate_ijson_numbers (VBool b) = Inr ()"
| "validate_ijson_numbers (VString s) = Inr ()"

subsection \<open>Canonicalisation\<close>

text \<open>
  The raw value is wrapped in an array, and the brackets are cut off the result again; a result
  shorter than two bytes would make the slice expression panic.
\<close>

definition canonicalize_json_value :: "('r) runtime_scheme \<Rightarrow> bytes \<Rightarrow> (att_error, bytes) result" where
  "canonicalize_json_value rt raw =
     require (valid_utf8 raw) JsonNotUtf8 (
     require (json_valid raw) InvalidJson (
     and_then (validate_unicode_scalar_escapes raw) (\<lambda>_.
       case json_decode raw of
         None \<Rightarrow> Inl InvalidJson
       | Some (v, _) \<Rightarrow>
           and_then (validate_ijson_numbers (decode_any v)) (\<lambda>_.
             case jcs rt (''['' @ raw @ '']'') of
               None \<Rightarrow> Inl JcsFailed
             | Some c \<Rightarrow> require (2 \<le> length c) GoPanic (Inr (butlast (tl c)))))))"

record att_field =
  fname :: string
  fvalue :: bytes

definition new_field :: "('r) runtime_scheme \<Rightarrow> string \<Rightarrow> bytes \<Rightarrow> (att_error, att_field) result" where
  "new_field rt name raw =
     require (trim_space name \<noteq> []) EmptyFieldName (
     require (valid_utf8 name) FieldNameNotUtf8 (
     and_then (canonicalize_json_value rt raw) (\<lambda>c. Inr \<lparr>fname = name, fvalue = c\<rparr>)))"

subsection \<open>The scan accepts what the decoder reads without loss\<close>

text \<open>
  \<open>lossless\<close> says of the body of a string literal that the decoder of \<open>encoding/json\<close> never has to
  replace an escaped surrogate by U+FFFD: wherever it meets one, it reads a pair.
\<close>

function lossless :: "string \<Rightarrow> bool" where
  "lossless s \<longleftrightarrow>
     (if s = [] then True
      else (case get_u4 s of
              None \<Rightarrow> True
            | Some u \<Rightarrow> (is_high_surrogate u \<or> is_low_surrogate u \<longrightarrow> snd (unquote_step s) = 12))
           \<and> lossless (drop (snd (unquote_step s)) s))"
  by pat_completeness auto
termination
  by (relation "measure length") (use unquote_step_pos in auto)

declare lossless.simps [simp del]

lemma lossless_Nil [simp]: "lossless []"
  by (simp add: lossless.simps)

fun all_lossless :: "json \<Rightarrow> bool" where
  "all_lossless (JStr b) \<longleftrightarrow> lossless b"
| "all_lossless (JArr items) \<longleftrightarrow> list_all (\<lambda>(_, j). all_lossless j) items"
| "all_lossless (JObj ms) \<longleftrightarrow> list_all (\<lambda>(k, _, j). lossless k \<and> all_lossless j) ms"
| "all_lossless JNull \<longleftrightarrow> True"
| "all_lossless (JBool b) \<longleftrightarrow> True"
| "all_lossless (JNum t) \<longleftrightarrow> True"

lemma lossless_step:
  "s \<noteq> [] \<Longrightarrow> lossless s \<longleftrightarrow>
     (case get_u4 s of
        None \<Rightarrow> True
      | Some u \<Rightarrow> (is_high_surrogate u \<or> is_low_surrogate u \<longrightarrow> snd (unquote_step s) = 12))
     \<and> lossless (drop (snd (unquote_step s)) s)"
  by (subst lossless.simps) simp

lemma decode_rune_tail:
  assumes "c1 \<in> set (take (snd (decode_rune (c # cs)) - 1) cs)"
  shows "128 \<le> byte c1"
proof -
  let ?s = "c # cs"
  consider "byte c < 128" | "128 \<le> byte c" "fst (decode_rune ?s) = rune_error \<and> snd (decode_rune ?s) = 1"
    | "128 \<le> byte c" "\<not> (fst (decode_rune ?s) = rune_error \<and> snd (decode_rune ?s) = 1)"
    by linarith
  then show ?thesis
  proof cases
    case 3
    then have "valid_piece (fst (decode_rune ?s)) (take (snd (decode_rune ?s)) ?s)"
      by (intro valid_piece_decode) simp_all
    moreover have "\<not> fst (decode_rune ?s) < 128" using 3(1) decode_rune_non_ascii[of c cs] by simp
    moreover have "c1 \<in> set (take (snd (decode_rune ?s)) ?s)"
      using assms by (cases "snd (decode_rune ?s)") simp_all
    ultimately show ?thesis by (auto simp: valid_piece_def)
  qed (use assms in auto)
qed

lemma lossless_plain: "c \<noteq> backslash \<Longrightarrow> lossless (c # cs) = lossless cs"
proof (induction "length cs" arbitrary: c cs rule: less_induct)
  case less
  let ?n = "snd (decode_rune (c # cs))"
  have g: "get_u4 (c # cs) = None" using less(2) by (rule get_u4_not_backslash)
  have n: "snd (unquote_step (c # cs)) = (if byte c < 128 then 1 else ?n)"
  proof (cases cs)
    case Nil
    have "?n = 1" using decode_rune_width[of "[c]"] Nil by simp
    then show ?thesis using g Nil by (simp add: unquote_step_def)
  next
    case (Cons d u)
    then show ?thesis using g less(2) by (auto simp: unquote_step_def)
  qed
  have skip: "lossless (drop k u) = lossless u"
    if "k \<le> length u" "length u \<le> length cs" "\<forall>x \<in> set (take k u). x \<noteq> backslash" for k u
    using that
  proof (induction k arbitrary: u)
    case (Suc k)
    then obtain x v where u: "u = x # v" by (cases u) auto
    then have "lossless v = lossless u" using Suc.prems less(1)[of v x] by simp
    moreover have "lossless (drop k v) = lossless v" using Suc.prems u by (intro Suc.IH) simp_all
    ultimately show ?case by (simp add: u)
  qed simp
  show ?case
  proof (cases "byte c < 128")
    case True
    then show ?thesis by (simp add: lossless_step g n)
  next
    case False
    have w: "0 < ?n" "?n \<le> Suc (length cs)" using decode_rune_width[of "c # cs"] by simp_all
    have "lossless (drop (?n - 1) cs) = lossless cs"
    proof (rule skip)
      show "\<forall>x \<in> set (take (?n - 1) cs). x \<noteq> backslash"
        using decode_rune_tail[of _ c cs] byte_backslash by fastforce
    qed (use w in auto)
    moreover have "drop ?n (c # cs) = drop (?n - 1) cs" using w by (cases ?n) simp_all
    ultimately show ?thesis using False by (simp add: lossless_step g n)
  qed
qed

lemma scan_simps [simp]:
  "scan_escapes inside [] = Inr ()"
  "scan_escapes False (c # cs) = scan_escapes (c = quote) cs"
  "scan_escapes True (quote # cs) = scan_escapes False cs"
  by (subst scan_escapes.simps, simp)+

lemma scan_outside: "quote \<notin> set p \<Longrightarrow> scan_escapes False (p @ s) = scan_escapes False s"
  by (induction p) auto

text \<open>The scan of a string literal and of what follows it.\<close>

definition lossless_else :: "bool \<Rightarrow> (att_error, unit) result \<Rightarrow> (att_error, unit) result \<Rightarrow> bool" where
  "lossless_else ok rest r \<longleftrightarrow>
     (if ok then r = rest
      else r = Inl UnpairedHighSurrogate \<or> r = Inl UnpairedLowSurrogate)"

lemma get_u4_Cons:
  "get_u4 (backslash # CHR ''u'' # w # x # y # z # t) = parse_hex4 [w, x, y, z]"
  by (simp add: get_u4_def)

lemma get_u4_lexed:
  assumes "lex_string t = Some (b, r)"
  shows "get_u4 b = (if 6 \<le> length t \<and> t ! 0 = backslash \<and> t ! 1 = CHR ''u''
      then parse_hex4 (take 4 (drop 2 t)) else None)"
    and "get_u4 b = None \<Longrightarrow> 6 \<le> length t \<Longrightarrow> t ! 0 = backslash \<Longrightarrow> t ! 1 \<noteq> CHR ''u''"
proof -
  have t: "t = b @ quote # r" using assms by (rule lex_string_split)
  obtain c cs where c: "t = c # cs" using assms by (cases t) auto
  have "get_u4 b = (if 6 \<le> length t \<and> t ! 0 = backslash \<and> t ! 1 = CHR ''u''
      then parse_hex4 (take 4 (drop 2 t)) else None)
    \<and> (get_u4 b = None \<longrightarrow> 6 \<le> length t \<longrightarrow> t ! 0 = backslash \<longrightarrow> t ! 1 \<noteq> CHR ''u'')"
  proof (cases "c = backslash \<and> c \<noteq> quote")
    case False
    then show ?thesis
    proof (cases b)
      case Nil
      then show ?thesis using t by (simp add: get_u4_def quote_def backslash_def)
    next
      case (Cons d u)
      then have "d \<noteq> backslash"
        using False t c byte_quote byte_backslash by (auto simp: quote_def backslash_def)
      then show ?thesis using Cons t get_u4_not_backslash[of d u] by simp
    qed
  next
    case True
    with assms c obtain e u where e: "cs = e # u" by (cases cs) auto
    show ?thesis
    proof (cases "e = CHR ''u''")
      case eu: True
      then obtain w x y z v where u: "u = w # x # y # z # v" "parse_hex4 [w, x, y, z] \<noteq> None"
        "prepend [c, e, w, x, y, z] (lex_string v) = Some (b, r)"
        using assms c e True by (auto split: list.splits if_splits)
      then obtain b' where "b = c # e # w # x # y # z # b'" by (auto simp: prepend_eq_Some)
      then show ?thesis using c e eu True u by (simp add: get_u4_Cons)
    next
      case eu: False
      then obtain b' where "b = c # e # b'"
        using assms c e True by (auto simp: prepend_eq_Some split: if_splits)
      then show ?thesis using c e eu True get_u4_short_escape[OF eu, of b'] by simp
    qed
  qed
  then show "get_u4 b = (if 6 \<le> length t \<and> t ! 0 = backslash \<and> t ! 1 = CHR ''u''
      then parse_hex4 (take 4 (drop 2 t)) else None)"
    and "get_u4 b = None \<Longrightarrow> 6 \<le> length t \<Longrightarrow> t ! 0 = backslash \<Longrightarrow> t ! 1 \<noteq> CHR ''u''"
    by blast+
qed

lemma unquote_step_escape:
  assumes "get_u4 (p @ b) = Some u" and "length p = 6"
  shows "snd (unquote_step (p @ b)) =
    (if is_high_surrogate u \<and> (\<exists>v. get_u4 b = Some v \<and> is_low_surrogate v) then 12 else 6)"
  using assms by (auto simp: unquote_step_def split: option.splits)

lemma surrogates_disjoint: "is_high_surrogate u \<Longrightarrow> \<not> is_low_surrogate u"
  by (simp add: is_high_surrogate_def is_low_surrogate_def)

lemma lex_escape_split:
  assumes "lex_string (backslash # CHR ''u'' # t) = Some (b, r)"
  obtains w x y z v b' u where "t = w # x # y # z # v" "parse_hex4 [w, x, y, z] = Some u"
    "lex_string v = Some (b', r)" "b = backslash # CHR ''u'' # w # x # y # z # b'"
  using assms by (auto simp: prepend_eq_Some byte_quote byte_backslash quote_def backslash_def
      split: list.splits if_splits intro: that)

lemma scan_string:
  "lex_string s = Some (b, r) \<Longrightarrow> lossless_else (lossless b) (scan_escapes False r) (scan_escapes True s)"
proof (induction "length s" arbitrary: s b rule: less_induct)
  case less
  obtain c cs where s: "s = c # cs" using less(2) by (cases s) auto
  consider (close) "c = quote" | (esc) "c = backslash" "c \<noteq> quote" | (plain) "c \<noteq> quote" "c \<noteq> backslash"
    by blast
  then show ?case
  proof cases
    case close
    then show ?thesis using less(2) s by (simp add: lossless_else_def)
  next
    case plain
    then obtain b' where b': "lex_string cs = Some (b', r)" "b = c # b'"
      using less(2) s by (auto simp: prepend_eq_Some split: if_splits)
    have "scan_escapes True s = scan_escapes True cs"
      unfolding s using plain by (subst scan_escapes.simps) simp
    then show ?thesis
      using less(1)[of cs b'] b' plain by (simp add: s lossless_plain)
  next
    case esc
    then obtain e t where t: "cs = e # t" using less(2) s by (cases cs) auto
    show ?thesis
    proof (cases "e = CHR ''u''")
      case False
      then obtain b' where b': "lex_string t = Some (b', r)" "b = backslash # e # b'"
        using less(2) s t esc by (auto simp: prepend_eq_Some split: if_splits)
      have "scan_escapes True s = scan_escapes True t"
        unfolding s t using esc False by (subst scan_escapes.simps) simp
      moreover have "lossless b = lossless b'"
        unfolding b'(2) using False
        by (simp add: lossless_step get_u4_short_escape unquote_step_short_escape)
      ultimately show ?thesis using less(1)[of t b'] b'(1) by (simp add: s t)
    next
      case True
      have "lex_string (backslash # CHR ''u'' # t) = Some (b, r)"
        using less(2) by (simp only: s t esc(1) True)
      then obtain w x y z v b' u where
        v: "t = w # x # y # z # v" and u: "parse_hex4 [w, x, y, z] = Some u"
        and b': "lex_string v = Some (b', r)" and b: "b = backslash # CHR ''u'' # w # x # y # z # b'"
        by (rule lex_escape_split)
      let ?p = "[backslash, CHR ''u'', w, x, y, z]"
      have g: "get_u4 (?p @ b') = Some u" using u by (simp add: get_u4_Cons)
      have st: "snd (unquote_step b) =
          (if is_high_surrogate u \<and> (\<exists>q. get_u4 b' = Some q \<and> is_low_surrogate q) then 12 else 6)"
        using unquote_step_escape[OF g] by (simp add: b)
      have bne: "b \<noteq> []" "get_u4 b = Some u" using g by (simp_all add: b)
      have scan: "scan_escapes True s =
          (if is_high_surrogate u then
             (if length v < 6 \<or> v ! 0 \<noteq> backslash \<or> v ! 1 \<noteq> CHR ''u'' then Inl UnpairedHighSurrogate
              else (case parse_hex4 (take 4 (drop 2 v)) of
                      None \<Rightarrow> Inl UnpairedHighSurrogate
                    | Some q \<Rightarrow> if is_low_surrogate q then scan_escapes True (drop 6 v)
                               else Inl UnpairedHighSurrogate))
           else if is_low_surrogate u then Inl UnpairedLowSurrogate
           else scan_escapes True v)"
        unfolding s t v using esc True u
        by (subst scan_escapes.simps) (simp add: numeral_eq_Suc split: option.split)
      consider (pair) q where "is_high_surrogate u" "get_u4 b' = Some q" "is_low_surrogate q"
        | (high) "is_high_surrogate u" "\<not> (\<exists>q. get_u4 b' = Some q \<and> is_low_surrogate q)"
        | (low) "is_low_surrogate u" "\<not> is_high_surrogate u"
        | (scalar) "\<not> is_high_surrogate u" "\<not> is_low_surrogate u"
        by blast
      then show ?thesis
      proof cases
        case pair
        have cond: "6 \<le> length v" "v ! 0 = backslash" "v ! 1 = CHR ''u''"
          "parse_hex4 (take 4 (drop 2 v)) = Some q"
          using get_u4_lexed(1)[OF b'] pair(2) by (auto split: if_splits)
        then obtain v1 where "v = backslash # CHR ''u'' # v1"
          by (cases v; cases "tl v") auto
        with b' have "lex_string (backslash # CHR ''u'' # v1) = Some (b', r)" by simp
        then obtain w2 x2 y2 z2 v2 b2 where v2: "v1 = w2 # x2 # y2 # z2 # v2"
          and b2: "lex_string v2 = Some (b2, r)" "b' = backslash # CHR ''u'' # w2 # x2 # y2 # z2 # b2"
          by (rule lex_escape_split)
        have d: "drop 6 v = v2" using \<open>v = _\<close> v2 by simp
        have "lossless b = lossless b2"
          using pair bne st by (simp add: lossless_step b b2(2))
        moreover have "scan_escapes True s = scan_escapes True v2"
          using scan pair(1,3) cond d by simp
        moreover have "length v2 < length s" using \<open>v = _\<close> v2 by (simp add: s t v)
        ultimately show ?thesis using less(1)[of v2 b2] b2(1) by simp
      next
        case high
        have "snd (unquote_step b) = 6" using st high(2) by meson
        then have "\<not> lossless b" using high(1) bne by (simp add: lossless_step)
        moreover have "scan_escapes True s = Inl UnpairedHighSurrogate"
          using scan high get_u4_lexed(1)[OF b'] by (auto split: option.splits)
        ultimately show ?thesis by (simp add: lossless_else_def)
      next
        case low
        have "\<not> lossless b" using low bne st by (simp add: lossless_step)
        then show ?thesis using scan low by (simp add: lossless_else_def)
      next
        case scalar
        have "lossless b = lossless b'" using scalar bne st by (simp add: lossless_step b)
        moreover have "length v < length s" by (simp add: s t v)
        ultimately show ?thesis using scan scalar less(1)[of v b'] b' by simp
      qed
    qed
  qed
qed

lemma scan_skip_ws: "scan_escapes False (skip_ws s) = scan_escapes False s"
proof -
  have "takeWhile json_ws s @ skip_ws s = s" by (simp add: skip_ws_def)
  moreover have "quote \<notin> set (takeWhile json_ws s)"
    by (auto simp: json_ws_def quote_def dest!: set_takeWhileD)
  ultimately show ?thesis using scan_outside by metis
qed

lemma scan_skip_char: "skip_ws s = c # t \<Longrightarrow> c \<noteq> quote \<Longrightarrow> scan_escapes False t = scan_escapes False s"
  using scan_skip_ws[of s] by simp

lemma quote_no_digit: "\<not> is_digit (CHR 34)"
  by (simp add: is_digit_def byte_in_def byte_def)

lemma digits_no_quote: "CHR 34 \<notin> set (takeWhile is_digit s)"
  using quote_no_digit by (auto dest!: set_takeWhileD)

lemma lex_number_no_quote: "lex_number s = Some (b, r) \<Longrightarrow> quote \<notin> set b"
proof -
  have i: "quote \<notin> set i" if "lex_integer s = Some (i, r)" for s i r
    using that digits_no_quote quote_no_digit by (auto simp: lex_integer_def quote_def split: list.splits if_splits)
  have f: "quote \<notin> set i" if "lex_fraction s = Some (i, r)" for s i r
    using that digits_no_quote quote_no_digit by (auto simp: lex_fraction_def Let_def quote_def split: list.splits if_splits)
  have e: "quote \<notin> set i" if "lex_exponent s = Some (i, r)" for s i r
    using that digits_no_quote quote_no_digit by (auto simp: lex_exponent_def Let_def quote_def split: list.splits if_splits)
  assume "lex_number s = Some (b, r)"
  then show ?thesis
    by (auto simp: lex_number_def Let_def prepend_eq_Some quote_def split: option.splits list.splits if_splits
        dest!: i f e)
qed

lemma lossless_else_trans:
  "lossless_else ok1 mid r \<Longrightarrow> lossless_else ok2 rest mid \<Longrightarrow> lossless_else (ok1 \<and> ok2) rest r"
  by (auto simp: lossless_else_def split: if_splits)

lemma lossless_else_refl: "lossless_else True r r"
  by (simp add: lossless_else_def)

lemma scan_parsed:
  "parse_value n d s = Some (v, r) \<Longrightarrow>
     lossless_else (all_lossless v) (scan_escapes False r) (scan_escapes False s)"
  "parse_items n d s = Some (vs, r) \<Longrightarrow>
     lossless_else (list_all (\<lambda>(_, j). all_lossless j) vs) (scan_escapes False r) (scan_escapes False s)"
  "parse_members n d s = Some (ms, r) \<Longrightarrow>
     lossless_else (list_all (\<lambda>(k, _, j). lossless k \<and> all_lossless j) ms)
       (scan_escapes False r) (scan_escapes False s)"
proof (induction n arbitrary: d s v vs ms r)
  case 0
  { case 1 then show ?case by simp }
  { case 2 then show ?case by simp }
  { case 3 then show ?case by simp }
next
  case (Suc n)
  { case 1
    then show ?case
    proof (cases rule: parse_value_SucE)
      case (obj cs c t)
      have "scan_escapes False s = scan_escapes False (skip_ws cs)"
        using obj(1) by (simp add: scan_skip_ws quote_def)
      moreover have "scan_escapes False t = scan_escapes False cs" if "c = CHR ''}''"
        using scan_skip_char[OF obj(2)] that by (simp add: quote_def)
      ultimately show ?thesis
        using obj(4) Suc.IH(3)[of "d + 1" "skip_ws cs"] by (auto simp: lossless_else_refl scan_skip_ws)
    next
      case (arr cs c t)
      have "scan_escapes False s = scan_escapes False (skip_ws cs)"
        using arr(1) by (simp add: scan_skip_ws quote_def)
      moreover have "scan_escapes False t = scan_escapes False cs" if "c = CHR '']''"
        using scan_skip_char[OF arr(2)] that by (simp add: quote_def)
      ultimately show ?thesis
        using arr(4) Suc.IH(2)[of "d + 1" "skip_ws cs"] by (auto simp: lossless_else_refl scan_skip_ws)
    next
      case (str cs b)
      then show ?thesis using scan_string[OF str(2)] by simp
    next
      case (word w)
      have "s = w @ r"
        using word(1) by (auto simp: lex_word_def has_prefix_def split: if_splits)
          (metis append_take_drop_id)
      moreover have "quote \<notin> set w" using word(2) by (auto simp: quote_def)
      ultimately show ?thesis using word(4) scan_outside[of w r] by (auto simp: lossless_else_refl)
    next
      case (num b)
      then show ?thesis
        using scan_outside[OF lex_number_no_quote[OF num(1)], of r] lex_number_split[OF num(1)]
        by (simp add: lossless_else_refl)
    qed }
  { case 2
    then show ?case
    proof (cases rule: parse_items_SucE)
      case (1 v r1 c t)
      have v: "lossless_else (all_lossless v) (scan_escapes False r1) (scan_escapes False s)"
        using 1(1) by (rule Suc.IH(1))
      have "scan_escapes False r1 = scan_escapes False (skip_ws t)"
        using scan_skip_char[OF 1(2)] 1(3) by (auto simp: quote_def scan_skip_ws)
      with v 1(3) Suc.IH(2)[of d "skip_ws t"] show ?thesis
        by (auto simp: scan_skip_ws intro: lossless_else_trans)
    qed }
  { case 3
    then show ?case
    proof (cases rule: parse_members_SucE)
      case (1 s1 k s2 s3 v r1 c t)
      have k: "lossless_else (lossless k) (scan_escapes False s2) (scan_escapes False s)"
        using scan_string[OF 1(2)] 1(1) by simp
      have "scan_escapes False (skip_ws s3) = scan_escapes False s2"
        using scan_skip_char[OF 1(3)] by (simp add: quote_def scan_skip_ws)
      with k Suc.IH(1)[OF 1(4)]
      have v: "lossless_else (lossless k \<and> all_lossless v) (scan_escapes False r1) (scan_escapes False s)"
        by (auto intro: lossless_else_trans)
      have "scan_escapes False r1 = scan_escapes False (skip_ws t)"
        using scan_skip_char[OF 1(5)] 1(6) by (auto simp: quote_def scan_skip_ws)
      with v have v': "lossless_else (lossless k \<and> all_lossless v) (scan_escapes False (skip_ws t))
          (scan_escapes False s)" by simp
      from 1(6) show ?thesis
      proof (elim disjE conjE exE)
        fix ms' assume p: "parse_members n d (skip_ws t) = Some (ms', r)"
          and ms: "ms = (k, consumed (skip_ws s3) r1, v) # ms'"
        from lossless_else_trans[OF v' Suc.IH(3)[OF p]] show ?thesis
          by (simp add: ms conj_assoc)
      next
        assume "ms = [(k, consumed (skip_ws s3) r1, v)]" "r = t"
        then show ?thesis using v' by (simp add: scan_skip_ws)
      qed
    qed }
qed

lemma scan_valid_json:
  assumes "json_parse raw = Some v"
  shows "lossless_else (all_lossless v) (Inr ()) (validate_unicode_scalar_escapes raw)"
proof -
  from assms obtain r where p: "parse_value (2 * length raw + 1) 0 (skip_ws raw) = Some (v, r)"
    and r: "skip_ws r = []"
    by (auto simp: json_parse_def json_decode_def simp del: parse_value.simps split: option.splits if_splits)
  have "scan_escapes False r = Inr ()" using scan_skip_ws[of r] r by simp
  then show ?thesis
    using scan_parsed(1)[OF p] by (simp add: validate_unicode_scalar_escapes_def scan_skip_ws)
qed

lemma scan_accepts:
  "json_parse raw = Some v \<Longrightarrow> validate_unicode_scalar_escapes raw = Inr () \<longleftrightarrow> all_lossless v"
  using scan_valid_json[of raw v] by (auto simp: lossless_else_def split: if_splits)

text \<open>
  C33: Surrogate check.  On every valid JSON text the byte scan accepts exactly the texts whose
  string literals (member names included) the JSON decoder reads without replacing an escaped
  surrogate, it rejects the others as an unpaired surrogate, and it never indexes outside the
  text.\<close>

theorem surrogate_check_exact:
  assumes "json_parse raw = Some v"
  shows "(validate_unicode_scalar_escapes raw = Inr () \<longleftrightarrow> all_lossless v)
    \<and> validate_unicode_scalar_escapes raw
        \<in> {Inr (), Inl UnpairedHighSurrogate, Inl UnpairedLowSurrogate}"
  using scan_valid_json[OF assms] by (auto simp: lossless_else_def split: if_splits)

definition sample_escapes :: "string" where
  "sample_escapes = [CHR ''['', quote, backslash] @ ''ud83d'' @ [backslash] @ ''ude00'' @ [quote, CHR '']'']"

definition sample_lone :: "string" where
  "sample_lone = [CHR ''['', quote, backslash] @ ''ud83d'' @ [quote, CHR '']'']"

theorem surrogate_check_exact_witness:
  "validate_unicode_scalar_escapes sample_escapes = Inr ()
   \<and> validate_unicode_scalar_escapes sample_lone \<noteq> Inr ()"
proof -
  have "json_parse sample_escapes = Some (the (json_parse sample_escapes))"
    "all_lossless (the (json_parse sample_escapes))"
    "json_parse sample_lone = Some (the (json_parse sample_lone))"
    "\<not> all_lossless (the (json_parse sample_lone))"
    by code_simp+
  then show ?thesis
    using surrogate_check_exact[of sample_escapes] surrogate_check_exact[of sample_lone] by blast
qed

subsection \<open>What canonicalisation accepts\<close>

fun numbers_of :: "any_value \<Rightarrow> string list" where
  "numbers_of (VNumber t) = [t]"
| "numbers_of (VArray vs) = concat (map numbers_of vs)"
| "numbers_of (VObject m) = concat (map (\<lambda>(_, v). numbers_of v) m)"
| "numbers_of VNull = []"
| "numbers_of (VBool b) = []"
| "numbers_of (VString s) = []"

definition safe_number :: "string \<Rightarrow> bool" where
  "safe_number t \<longleftrightarrow>
     contains_any t ''.eE''
     \<or> (case parse_int64 t of None \<Rightarrow> False | Some n \<Rightarrow> \<bar>n\<bar> \<le> max_safe_integer)"

lemma is_ok_unit: "is_ok r \<longleftrightarrow> r = Inr ()"
  by (cases r) simp_all

lemma validate_ijson_numbers_ok:
  "validate_ijson_numbers v = Inr () \<longleftrightarrow> list_all safe_number (numbers_of v)"
proof (induction v rule: validate_ijson_numbers.induct)
  case (1 t)
  then show ?case by (auto simp: safe_number_def require_Inr_iff split: option.splits)
next
  case (2 vs)
  have "is_ok (map_result validate_ijson_numbers vs) \<longleftrightarrow> (\<forall>v \<in> set vs. list_all safe_number (numbers_of v))"
    using 2 by (simp add: map_result_is_ok is_ok_unit)
  then show ?case
    by (cases "map_result validate_ijson_numbers vs") (simp_all add: list_all_iff)
next
  case (3 m)
  have "is_ok (map_result (\<lambda>(_, v). validate_ijson_numbers v) m)
      \<longleftrightarrow> (\<forall>kv \<in> set m. list_all safe_number (numbers_of (snd kv)))"
    using 3 by (force simp: map_result_is_ok is_ok_unit)
  moreover have "numbers_of (VObject m) = concat (map (numbers_of \<circ> snd) m)"
    by (simp add: comp_def case_prod_unfold)
  then have "list_all safe_number (numbers_of (VObject m))
      \<longleftrightarrow> (\<forall>kv \<in> set m. list_all safe_number (numbers_of (snd kv)))"
    by (auto simp: list_all_iff simp del: numbers_of.simps)
  ultimately show ?case
    by (cases "map_result (\<lambda>(_, v). validate_ijson_numbers v) m") (simp_all del: numbers_of.simps)
qed simp_all

lemma json_parse_decode: "json_parse s = Some v \<Longrightarrow> \<exists>r. json_decode s = Some (v, r)"
  by (auto simp: json_parse_def split: option.splits if_splits)

lemma json_validE:
  assumes "json_valid s"
  obtains v r where "json_parse s = Some v" "json_decode s = Some (v, r)"
  using assms json_parse_decode[of s] that by (auto simp: json_valid_def)

lemma canonicalize_Inr_iff:
  "canonicalize_json_value rt raw = Inr c \<longleftrightarrow>
     valid_utf8 raw
     \<and> (\<exists>v w. json_parse raw = Some v \<and> all_lossless v
           \<and> list_all safe_number (numbers_of (decode_any v))
           \<and> jcs rt (''['' @ raw @ '']'') = Some w \<and> 2 \<le> length w \<and> c = butlast (tl w))"
proof (cases "json_valid raw")
  case True
  then obtain v r where v: "json_parse raw = Some v" "json_decode raw = Some (v, r)" by (rule json_validE)
  then show ?thesis
    using True scan_accepts[OF v(1)]
    by (auto simp: canonicalize_json_value_def require_Inr_iff and_then_Inr_iff
        validate_ijson_numbers_ok split: option.splits)
next
  case False
  then show ?thesis
    by (auto simp: canonicalize_json_value_def require_Inr_iff json_valid_def)
qed

end
