(* ===== verification/Attestation.thy ===== *)
theory Attestation
  imports Canonical
begin

section \<open>Signing and verifying (internal/attestation/attestation.go)\<close>

text \<open>
  The claims object, its canonical payload, the two signing profiles and their verifiers.  Each Go
  function is one definition, with its checks in the order of the code; an error is the value
  \<open>Inl\<close>.  A header is changed only by a successful call, since the Go code writes the fields after
  its last error return.
\<close>

subsection \<open>Constants\<close>

definition HeaderAlgorithm :: string where "HeaderAlgorithm = ''X-Attestation-Algorithm''"
definition HeaderProfile :: string where "HeaderProfile = ''X-Attestation-Profile''"
definition HeaderKeyID :: string where "HeaderKeyID = ''X-Attestation-Key-Id''"
definition HeaderDomain :: string where "HeaderDomain = ''X-Attestation-Domain''"
definition HeaderRequestPath :: string where "HeaderRequestPath = ''X-Attestation-Path''"
definition HeaderModel :: string where "HeaderModel = ''X-Attestation-Model''"
definition HeaderCertificateFingerprint :: string where "HeaderCertificateFingerprint = ''X-Attestation-Certificate-SHA256''"
definition HeaderTimestamp :: string where "HeaderTimestamp = ''X-Attestation-Timestamp''"
definition HeaderNonce :: string where "HeaderNonce = ''X-Attestation-Nonce''"
definition HeaderSignedFields :: string where "HeaderSignedFields = ''X-Attestation-Signed-Fields''"
definition HeaderSignature :: string where "HeaderSignature = ''X-Attestation-Signature''"
definition HeaderProofReference :: string where "HeaderProofReference = ''X-Attestation-Proof-Ref''"
definition HeaderChallenge :: string where "HeaderChallenge = ''X-Attestation-Challenge''"
definition HeaderResponseStatus :: string where "HeaderResponseStatus = ''X-Attestation-Response-Status''"
definition HeaderResponseContentType :: string where "HeaderResponseContentType = ''X-Attestation-Response-Content-Type''"
definition Algorithm :: string where "Algorithm = ''ed25519''"
definition Version :: string where "Version = ''trusted-ai-proxy-v1''"
definition Profile :: string where "Profile = ''llm-conversation-text-v1''"
definition RequestUpstreamProfile :: string where "RequestUpstreamProfile = ''llm-request-upstream-v1''"

lemmas header_name_defs =
  HeaderAlgorithm_def HeaderProfile_def HeaderKeyID_def HeaderDomain_def HeaderRequestPath_def
  HeaderModel_def HeaderCertificateFingerprint_def HeaderTimestamp_def HeaderNonce_def
  HeaderSignedFields_def HeaderSignature_def HeaderProofReference_def HeaderChallenge_def
  HeaderResponseStatus_def HeaderResponseContentType_def

definition public_key_id :: "('r) runtime_scheme \<Rightarrow> bytes \<Rightarrow> string" where
  "public_key_id rt pk = ''ed25519-'' @ b64_encode (take 18 (sha256 rt pk))"

record claims =
  version :: string
  profile :: string
  key_id :: string
  tls_certificate_sha256 :: string
  domain :: string
  request_path :: string
  request_fields :: "att_field list"
  response_fields :: "att_field list"
  timestamp :: int
  nonce :: string
  challenge :: string
  response_status :: int
  response_content_type :: string

record observation =
  obs_domain :: string
  obs_fingerprint :: string
  obs_path :: string
  obs_fields :: "att_field list"
  obs_challenge :: string
  obs_status :: int
  obs_content_type :: string

record signer =
  private_key :: bytes
  signer_key_id :: string

subsection \<open>Time\<close>

text \<open>
  A \<open>time.Time\<close> is its distance from the Unix epoch in nanoseconds, a \<open>time.Duration\<close> a number of
  nanoseconds in 64 bits.  \<open>time.Unix\<close> counts seconds from year 1 in 64 bits and wraps around, and
  so does \<open>Unix\<close> on the way back; \<open>Sub\<close> saturates.
\<close>

definition second :: int where "second = 1000000000"

definition wrap64 :: "int \<Rightarrow> int" where
  "wrap64 n = (n + 2 ^ 63) mod 2 ^ 64 - 2 ^ 63"

definition unix_to_internal :: int where "unix_to_internal = 62135596800"

definition time_unix :: "int \<Rightarrow> int" where
  "time_unix sec = (wrap64 (sec + unix_to_internal) - unix_to_internal) * second"

definition unix_seconds :: "int \<Rightarrow> int" where
  "unix_seconds t = wrap64 (t div second)"

definition time_sub :: "int \<Rightarrow> int \<Rightarrow> int" where
  "time_sub t u = max int64_min (min int64_max (t - u))"

subsection \<open>Checks\<close>

definition challenge_rune :: "nat \<Rightarrow> bool" where
  "challenge_rune r \<longleftrightarrow>
     (97 \<le> r \<and> r \<le> 122) \<or> (65 \<le> r \<and> r \<le> 90) \<or> (48 \<le> r \<and> r \<le> 57) \<or> r = 45 \<or> r = 95"

definition validate_challenge :: "string \<Rightarrow> (att_error, unit) result" where
  "validate_challenge ch =
     (if length ch < 10 \<or> 74 < length ch then Inl ChallengeLength
      else if list_all challenge_rune (runes ch) then Inr ()
      else Inl ChallengeCharacter)"

fun model_header :: "att_field list \<Rightarrow> (att_error, string option) result" where
  "model_header [] = Inr None"
| "model_header (f # fs) =
     (if fname f \<noteq> ''model'' then model_header fs
      else (case unmarshal (\<lambda>v. decode_string v []) (fvalue f) of
              Inl _ \<Rightarrow> Inl ModelNotString
            | Inr m \<Rightarrow> require (valid_header_value m) UnsafeModel (Inr (Some m))))"

definition has_header :: "header \<Rightarrow> string \<Rightarrow> bool" where
  "has_header h name \<longleftrightarrow> h (canonical_key name) \<noteq> None"

definition single_header :: "header \<Rightarrow> string \<Rightarrow> string \<times> bool" where
  "single_header h name =
     (case h (canonical_key name) of Some [v] \<Rightarrow> (v, True) | _ \<Rightarrow> ([], False))"

definition base_fields :: "string list" where
  "base_fields = [''tls_certificate_sha256'', ''domain'', ''request.path'']"

definition signed_fields :: "att_field list \<Rightarrow> att_field list \<Rightarrow> string" where
  "signed_fields req resp =
     join_with '','' (base_fields @ map (\<lambda>f. ''request.body.'' @ fname f) req
                        @ map (\<lambda>f. ''response.body.'' @ fname f) resp)"

definition request_upstream_signed_fields :: "att_field list \<Rightarrow> string" where
  "request_upstream_signed_fields req =
     join_with '','' (base_fields @ map (\<lambda>f. ''request.body.'' @ fname f) req
                        @ [''response.status'', ''response.content_type'', ''challenge''])"

text \<open>The inner loop of \<open>validateFields\<close> over one group, with the keys seen so far.\<close>

fun validate_group ::
  "('r) runtime_scheme \<Rightarrow> string \<Rightarrow> att_field list \<Rightarrow> string list \<Rightarrow> (att_error, string list) result" where
  "validate_group rt g [] seen = Inr seen"
| "validate_group rt g (f # fs) seen =
     (if trim_space (fname f) = [] \<or> \<not> valid_utf8 (fname f)
         \<or> contains_any (fname f) [CHR '','', CHR 13, CHR 10]
      then Inl (InvalidFieldName g (fname f))
      else if List.member seen (g @ [CHR 0x00] @ fname f) then Inl (DuplicateFieldName g (fname f))
      else (case canonicalize_json_value rt (fvalue f) of
              Inl e \<Rightarrow> Inl (InvalidFieldValue g (fname f) e)
            | Inr _ \<Rightarrow> validate_group rt g fs ((g @ [CHR 0x00] @ fname f) # seen)))"

definition validate_fields ::
  "('r) runtime_scheme \<Rightarrow> att_field list \<Rightarrow> att_field list \<Rightarrow> bool \<Rightarrow> (att_error, unit) result" where
  "validate_fields rt req resp require_response =
     (if req = [] \<or> (require_response \<and> resp = []) then Inl FieldsMissing
      else and_then (validate_group rt ''request'' req []) (\<lambda>seen.
             and_then (validate_group rt ''response'' resp seen) (\<lambda>_. Inr ())))"

subsection \<open>The payload\<close>

definition field_json :: "att_field \<Rightarrow> json option" where
  "field_json f = map_option (\<lambda>v. jobj [(''name'', jstr (fname f)), (''value'', v)]) (marshal_raw (fvalue f))"

fun fields_json :: "att_field list \<Rightarrow> json list option" where
  "fields_json [] = Some []"
| "fields_json (f # fs) =
     (case field_json f of
        None \<Rightarrow> None
      | Some j \<Rightarrow> map_option (\<lambda>js. j # js) (fields_json fs))"

text \<open>The members of a claims object, the last three only when they are not empty.\<close>

definition claims_json :: "claims \<Rightarrow> json option" where
  "claims_json c =
     (case (fields_json (request_fields c), fields_json (response_fields c)) of
        (Some req, Some resp) \<Rightarrow>
          Some (jobj (
            [(''version'', jstr (version c)), (''profile'', jstr (profile c)),
             (''key_id'', jstr (key_id c)),
             (''tls_certificate_sha256'', jstr (tls_certificate_sha256 c)),
             (''domain'', jstr (domain c)), (''request_path'', jstr (request_path c)),
             (''request_fields'', jarr req), (''response_fields'', jarr resp),
             (''timestamp'', jint (timestamp c)), (''nonce'', jstr (nonce c))]
            @ (if challenge c = [] then [] else [(''challenge'', jstr (challenge c))])
            @ (if response_status c = 0 then [] else [(''response_status'', jint (response_status c))])
            @ (if response_content_type c = [] then []
               else [(''response_content_type'', jstr (response_content_type c))])))
      | _ \<Rightarrow> None)"

definition checked_claims :: "claims \<Rightarrow> (string \<times> string) list" where
  "checked_claims c =
     [(''version'', version c), (''profile'', profile c), (''key_id'', key_id c),
      (''tls_certificate_sha256'', tls_certificate_sha256 c), (''domain'', domain c),
      (''request_path'', request_path c), (''nonce'', nonce c)]"

definition status_in_range :: "int \<Rightarrow> bool" where
  "status_in_range s \<longleftrightarrow> 100 \<le> s \<and> s \<le> 599"

definition canonical_payload :: "('r) runtime_scheme \<Rightarrow> claims \<Rightarrow> (att_error, bytes) result" where
  "canonical_payload rt c =
     (case find (\<lambda>(_, v). \<not> valid_utf8 v) (checked_claims c) of
        Some (name, _) \<Rightarrow> Inl (ClaimNotUtf8 name)
      | None \<Rightarrow>
          require (- max_safe_integer \<le> timestamp c \<and> timestamp c \<le> max_safe_integer) TimestampOutOfRange (
          and_then (if challenge c = [] then Inr () else validate_challenge (challenge c)) (\<lambda>_.
          require (response_status c = 0 \<or> status_in_range (response_status c)) StatusOutOfRange (
          require (response_content_type c = [] \<or> valid_header_value (response_content_type c))
            InvalidContentType (
          case claims_json c of
            None \<Rightarrow> Inl EncodeFailed
          | Some j \<Rightarrow> (case jcs rt (render j) of None \<Rightarrow> Inl JcsFailed | Some p \<Rightarrow> Inr p))))))"

subsection \<open>Signing\<close>

text \<open>\<open>ed25519.Sign\<close> and \<open>ed25519.Verify\<close> panic on a key of the wrong length.\<close>

definition sign_payload :: "('r) runtime_scheme \<Rightarrow> signer \<Rightarrow> bytes \<Rightarrow> (att_error, bytes) result" where
  "sign_payload rt s payload =
     require (length (private_key s) = 64) GoPanic (Inr (ed_sign rt (private_key s) payload))"

definition verify_payload ::
  "('r) runtime_scheme \<Rightarrow> bytes \<Rightarrow> bytes \<Rightarrow> bytes \<Rightarrow> (att_error, bool) result" where
  "verify_payload rt pk payload sig =
     require (length pk = 32) GoPanic (Inr (ed_verify rt pk payload sig))"

definition set_model :: "string option \<Rightarrow> header \<Rightarrow> header" where
  "set_model m h =
     (let h' = header_del h HeaderModel in
      case m of None \<Rightarrow> h' | Some v \<Rightarrow> header_set h' HeaderModel v)"

definition conversation_claims ::
  "('r) runtime_scheme \<Rightarrow> string \<Rightarrow> string \<Rightarrow> string \<Rightarrow> string \<Rightarrow> att_field list \<Rightarrow> att_field list
     \<Rightarrow> int \<Rightarrow> string \<Rightarrow> claims" where
  "conversation_claims rt kid dmn fp path req resp ts n =
     \<lparr>version = Version, profile = Profile, key_id = kid,
      tls_certificate_sha256 = to_lower rt fp, domain = to_lower rt dmn, request_path = path,
      request_fields = req, response_fields = resp, timestamp = ts, nonce = n,
      challenge = [], response_status = 0, response_content_type = []\<rparr>"

definition upstream_claims ::
  "('r) runtime_scheme \<Rightarrow> string \<Rightarrow> string \<Rightarrow> observation \<Rightarrow> int \<Rightarrow> string \<Rightarrow> claims" where
  "upstream_claims rt kid fp obs ts n =
     \<lparr>version = Version, profile = RequestUpstreamProfile, key_id = kid,
      tls_certificate_sha256 = to_lower rt fp, domain = to_lower rt (obs_domain obs),
      request_path = obs_path obs, request_fields = obs_fields obs, response_fields = [],
      timestamp = ts, nonce = n, challenge = obs_challenge obs,
      response_status = obs_status obs, response_content_type = obs_content_type obs\<rparr>"

definition common_headers :: "claims \<Rightarrow> (string \<times> string) list" where
  "common_headers c =
     [(HeaderAlgorithm, Algorithm), (HeaderProfile, profile c), (HeaderKeyID, key_id c),
      (HeaderDomain, domain c), (HeaderRequestPath, request_path c)]"

definition claim_headers :: "claims \<Rightarrow> (string \<times> string) list" where
  "claim_headers c =
     [(HeaderCertificateFingerprint, tls_certificate_sha256 c),
      (HeaderTimestamp, format_int (timestamp c)), (HeaderNonce, nonce c)]"

text \<open>
  \<open>Sign\<close>: the arguments behind the runtime are the signer, the clock (\<open>s.now\<close>), the 16 random
  bytes (\<open>None\<close> when the random source fails), and those of the Go method.
\<close>

definition sign ::
  "('r) runtime_scheme \<Rightarrow> signer \<Rightarrow> int \<Rightarrow> bytes option \<Rightarrow> header \<Rightarrow> string \<Rightarrow> string \<Rightarrow> string
     \<Rightarrow> att_field list \<Rightarrow> att_field list \<Rightarrow> (att_error, header) result" where
  "sign rt s now random h dmn fp path req resp =
     and_then (validate_fields rt req resp True) (\<lambda>_.
     require (valid_header_value path) UnsafeRequestPath (
     and_then (model_header req) (\<lambda>m.
     case random of
       None \<Rightarrow> Inl NonceUnavailable
     | Some nb \<Rightarrow>
         (let c = conversation_claims rt (signer_key_id s) dmn fp path req resp
                    (unix_seconds now) (b64_encode nb) in
          and_then (canonical_payload rt c) (\<lambda>payload.
          and_then (sign_payload rt s payload) (\<lambda>sig.
            let h1 = header_set_all (common_headers c) h;
                h2 = set_model m h1;
                h3 = header_set_all (claim_headers c
                       @ [(HeaderSignedFields, signed_fields req resp),
                          (HeaderSignature, b64_encode sig)]) h2 in
            Inr (header_del_all
              [HeaderChallenge, HeaderResponseStatus, HeaderResponseContentType] h3)))))))"

definition sign_request_upstream ::
  "('r) runtime_scheme \<Rightarrow> signer \<Rightarrow> int \<Rightarrow> bytes option \<Rightarrow> header \<Rightarrow> observation
     \<Rightarrow> (att_error, header) result" where
  "sign_request_upstream rt s now random h obs =
     and_then (validate_fields rt (obs_fields obs) [] False) (\<lambda>_.
     and_then (validate_challenge (obs_challenge obs)) (\<lambda>_.
     require (status_in_range (obs_status obs)) StatusOutOfRange (
     require (valid_header_value (obs_content_type obs) \<and> obs_content_type obs \<noteq> []) InvalidContentType (
     require (valid_header_value (obs_path obs)) UnsafeRequestPath (
     and_then (model_header (obs_fields obs)) (\<lambda>m.
     case random of
       None \<Rightarrow> Inl NonceUnavailable
     | Some nb \<Rightarrow>
         (let c = upstream_claims rt (signer_key_id s) (obs_fingerprint obs) obs
                    (unix_seconds now) (b64_encode nb) in
          and_then (canonical_payload rt c) (\<lambda>payload.
          and_then (sign_payload rt s payload) (\<lambda>sig.
            let h1 = header_set_all (common_headers c) h;
                h2 = set_model m h1 in
            Inr (header_set_all (claim_headers c
                   @ [(HeaderChallenge, challenge c),
                      (HeaderResponseStatus, format_int (response_status c)),
                      (HeaderResponseContentType, response_content_type c),
                      (HeaderSignedFields, request_upstream_signed_fields (obs_fields obs)),
                      (HeaderSignature, b64_encode sig)]) h2))))))))))"

subsection \<open>Verifying\<close>

text \<open>The checks both verifiers share, each as the Go code spells it.\<close>

definition check_model :: "header \<Rightarrow> att_field list \<Rightarrow> (att_error, unit) result" where
  "check_model h req =
     and_then (model_header req) (\<lambda>m.
       case m of
         Some expected \<Rightarrow>
           (case single_header h HeaderModel of (v, ok) \<Rightarrow>
              require (ok \<and> v = expected) ModelMismatch (Inr ()))
       | None \<Rightarrow> require (\<not> has_header h HeaderModel) UnexpectedModel (Inr ()))"

definition check_time :: "header \<Rightarrow> int \<Rightarrow> int \<Rightarrow> (att_error, int) result" where
  "check_time h now max_age =
     (case parse_int64 (header_get h HeaderTimestamp) of
        None \<Rightarrow> Inl InvalidTimestamp
      | Some ts \<Rightarrow>
          (let age = time_sub now (time_unix ts) in
           require (\<not> (age < - 30 * second \<or> max_age < age)) OutsideWindow (Inr ts)))"

definition check_signature ::
  "('r) runtime_scheme \<Rightarrow> bytes \<Rightarrow> header \<Rightarrow> claims \<Rightarrow> (att_error, unit) result" where
  "check_signature rt pk h c =
     and_then (canonical_payload rt c) (\<lambda>payload.
       case b64_decode (header_get h HeaderSignature) of
         None \<Rightarrow> Inl InvalidSignatureEncoding
       | Some sig \<Rightarrow>
           and_then (verify_payload rt pk payload sig) (\<lambda>ok.
             require ok SignatureFailed (Inr ())))"

definition verify ::
  "('r) runtime_scheme \<Rightarrow> bytes \<Rightarrow> header \<Rightarrow> string \<Rightarrow> string \<Rightarrow> string \<Rightarrow> att_field list
     \<Rightarrow> att_field list \<Rightarrow> int \<Rightarrow> int \<Rightarrow> (att_error, unit) result" where
  "verify rt pk h dmn fp path req resp now max_age =
     and_then (validate_fields rt req resp True) (\<lambda>_.
     require (header_get h HeaderAlgorithm = Algorithm)
       (UnsupportedAlgorithm (header_get h HeaderAlgorithm)) (
     require (header_get h HeaderProfile = Profile)
       (UnsupportedProfile (header_get h HeaderProfile)) (
     require (header_get h HeaderSignedFields = signed_fields req resp)
       (UnexpectedSignedFields (header_get h HeaderSignedFields)) (
     require (dmn \<noteq> [] \<and> equal_fold rt (header_get h HeaderDomain) dmn) DomainMismatch (
     require (single_header h HeaderRequestPath = (path, True)) PathMismatch (
     and_then (check_model h req) (\<lambda>_.
     require (fp = [] \<or> equal_fold rt (header_get h HeaderCertificateFingerprint) fp)
       FingerprintMismatch (
     and_then (check_time h now max_age) (\<lambda>ts.
       check_signature rt pk h
         (conversation_claims rt (header_get h HeaderKeyID) dmn
            (header_get h HeaderCertificateFingerprint) path req resp ts
            (header_get h HeaderNonce)))))))))))"

definition verify_request_upstream ::
  "('r) runtime_scheme \<Rightarrow> bytes \<Rightarrow> header \<Rightarrow> observation \<Rightarrow> int \<Rightarrow> int \<Rightarrow> (att_error, unit) result" where
  "verify_request_upstream rt pk h obs now max_age =
     and_then (validate_fields rt (obs_fields obs) [] False) (\<lambda>_.
     and_then (validate_challenge (obs_challenge obs)) (\<lambda>_.
     require (header_get h HeaderAlgorithm = Algorithm)
       (UnsupportedAlgorithm (header_get h HeaderAlgorithm)) (
     require (header_get h HeaderProfile = RequestUpstreamProfile)
       (UnsupportedProfile (header_get h HeaderProfile)) (
     require (header_get h HeaderSignedFields = request_upstream_signed_fields (obs_fields obs))
       (UnexpectedSignedFields (header_get h HeaderSignedFields)) (
     require (obs_domain obs \<noteq> [] \<and> equal_fold rt (header_get h HeaderDomain) (obs_domain obs))
       DomainMismatch (
     require (single_header h HeaderRequestPath = (obs_path obs, True)) PathMismatch (
     and_then (check_model h (obs_fields obs)) (\<lambda>_.
     require (obs_fingerprint obs = []
         \<or> equal_fold rt (header_get h HeaderCertificateFingerprint) (obs_fingerprint obs))
       FingerprintMismatch (
     require (single_header h HeaderChallenge = (obs_challenge obs, True)) ChallengeMismatch (
     (case single_header h HeaderResponseStatus of (status_text, ok) \<Rightarrow>
     require (ok \<and> parse_int64 status_text = Some (obs_status obs)) StatusMismatch (
     require (single_header h HeaderResponseContentType = (obs_content_type obs, True))
       ContentTypeMismatch (
     and_then (check_time h now max_age) (\<lambda>ts.
       check_signature rt pk h
         (upstream_claims rt (header_get h HeaderKeyID)
            (header_get h HeaderCertificateFingerprint) obs ts
            (header_get h HeaderNonce))))))))))))))))"

end
