(* ===== verification/Extractors.thy ===== *)
theory Extractors
  imports Canonical
begin

section \<open>Text extraction (internal/mitmproxy/text\_extractors.go)\<close>

text \<open>
  The five extractors that turn request and response bodies into the signed fields.  Envelopes are
  records, decoded member by member as \<open>encoding/json\<close> does; the loops are recursive functions over
  the list that is left.  An error value says where the Go code returned; the message index it
  prints is left out.
\<close>

datatype extract_error =
    JsonError json_error
  | FieldError att_error
  | NoMessages
  | UnsupportedRole string
  | UnsupportedToolCall
  | NoText
  | ContentShape
  | NonTextBlock string
  | TextBlockEmpty
  | BothTextAndRefusal
  | StreamNotTrue
  | InputRequired
  | InputShape
  | InputEmpty
  | NonTextItem string
  | ChoiceCount
  | AmbiguousBedrock
  | OutputRequired
  | BadPathEscape
  | ModelRequired

definition lift_json :: "(json_error, 'a) result \<Rightarrow> (extract_error, 'a) result" where
  "lift_json r = (case r of Inl e \<Rightarrow> Inl (JsonError e) | Inr x \<Rightarrow> Inr x)"

definition lift_field :: "(att_error, 'a) result \<Rightarrow> (extract_error, 'a) result" where
  "lift_field r = (case r of Inl e \<Rightarrow> Inl (FieldError e) | Inr x \<Rightarrow> Inr x)"

lemma lift_simps [simp]:
  "lift_json (Inl e) = Inl (JsonError e)" "lift_json (Inr x) = Inr x"
  "lift_field (Inl e') = Inl (FieldError e')" "lift_field (Inr y) = Inr y"
  by (simp_all add: lift_json_def lift_field_def)

lemma lift_json_Inr_iff: "lift_json r = Inr x \<longleftrightarrow> r = Inr x"
  by (cases r) simp_all

lemma lift_field_Inr_iff: "lift_field r = Inr x \<longleftrightarrow> r = Inr x"
  by (cases r) simp_all

subsection \<open>Unique object keys\<close>

text \<open>
  \<open>scanJSONValue\<close> on the rest of the token stream; \<open>scan_members\<close> and \<open>scan_items\<close> are its two
  loops.  The first argument is fuel; \<open>scan_tokens\<close> shows that the length of the stream is enough.
\<close>

fun scan_json_value :: "nat \<Rightarrow> token list \<Rightarrow> (json_error, token list) result"
  and scan_members :: "nat \<Rightarrow> string list \<Rightarrow> token list \<Rightarrow> (json_error, token list) result"
  and scan_items :: "nat \<Rightarrow> token list \<Rightarrow> (json_error, token list) result"
where
  "scan_json_value 0 ts = Inl SyntaxError"
| "scan_json_value (Suc n) ts =
     (case ts of
        [] \<Rightarrow> Inl SyntaxError
      | Delim d # t \<Rightarrow>
          if d = CHR ''{'' then
            and_then (scan_members n [] t) (\<lambda>u.
              case u of
                [] \<Rightarrow> Inl SyntaxError
              | c # u' \<Rightarrow> require (c = Delim CHR ''}'') BadDelimiter (Inr u'))
          else if d = CHR ''['' then
            and_then (scan_items n t) (\<lambda>u.
              case u of
                [] \<Rightarrow> Inl SyntaxError
              | c # u' \<Rightarrow> require (c = Delim CHR '']'') BadDelimiter (Inr u'))
          else Inl BadDelimiter
      | _ # t \<Rightarrow> Inr t)"
| "scan_members 0 seen ts = Inl SyntaxError"
| "scan_members (Suc n) seen ts =
     (if \<not> has_more ts then Inr ts
      else (case ts of
              Key k # t \<Rightarrow>
                (if List.member seen k then Inl (DuplicateKey k)
                 else and_then (scan_json_value n t) (\<lambda>u. scan_members n (k # seen) u))
            | _ \<Rightarrow> Inl BadDelimiter))"
| "scan_items 0 ts = Inl SyntaxError"
| "scan_items (Suc n) ts =
     (if \<not> has_more ts then Inr ts
      else and_then (scan_json_value n ts) (\<lambda>u. scan_items n u))"

text \<open>
  The decoder reads its tokens from the text itself; on a text that is no JSON its error is the
  syntax error of the first bad token.
\<close>

definition validate_unique_json :: "string \<Rightarrow> (json_error, unit) result" where
  "validate_unique_json data =
     require (valid_utf8 data) NotUtf8 (
     case json_parse data of
       None \<Rightarrow> Inl SyntaxError
     | Some v \<Rightarrow>
         and_then (scan_json_value (Suc (length (tokens_of v))) (tokens_of v)) (\<lambda>ts.
           require (ts = []) TrailingData (Inr ())))"

definition decode_json_object ::
  "(json \<Rightarrow> 'r \<Rightarrow> (json_error, 'r) result) \<Rightarrow> string \<Rightarrow> 'r \<Rightarrow> (json_error, 'r) result" where
  "decode_json_object dec data target =
     (let trimmed = trim_space data in
      if trimmed = [] \<or> hd trimmed \<noteq> CHR ''{'' then Inl NotAnObject
      else and_then (validate_unique_json trimmed) (\<lambda>_.
        case json_decode trimmed of
          None \<Rightarrow> Inl SyntaxError
        | Some (v, rest) \<Rightarrow>
            and_then (dec v target) (\<lambda>r.
              require (skip_ws rest = []) TrailingData (Inr r))))"

subsection \<open>Envelopes\<close>

record request_envelope =
  req_model :: string
  req_messages :: "string list"
  req_input :: string
  req_system :: string
  req_instructions :: string
  req_stream :: string

record message_envelope =
  msg_type :: string
  msg_role :: string
  msg_content :: string
  msg_refusal :: "string option"
  msg_tool_calls :: string
  msg_function_call :: string

record content_block =
  blk_type :: string
  blk_text :: "string option"
  blk_refusal :: "string option"

record text_message =
  tm_role :: string
  tm_text :: string

definition zero_request :: request_envelope where
  "zero_request = \<lparr>req_model = [], req_messages = [], req_input = [], req_system = [],
     req_instructions = [], req_stream = []\<rparr>"

definition zero_message :: message_envelope where
  "zero_message = \<lparr>msg_type = [], msg_role = [], msg_content = [], msg_refusal = None,
     msg_tool_calls = [], msg_function_call = []\<rparr>"

definition zero_block :: content_block where
  "zero_block = \<lparr>blk_type = [], blk_text = None, blk_refusal = None\<rparr>"

definition store_request ::
  "string \<Rightarrow> string \<Rightarrow> json \<Rightarrow> request_envelope \<Rightarrow> (json_error, request_envelope) result" where
  "store_request f raw v r =
     (if f = ''model'' then and_then (decode_string v (req_model r)) (\<lambda>s. Inr (r\<lparr>req_model := s\<rparr>))
      else if f = ''messages'' then and_then (decode_raw_slice v) (\<lambda>l. Inr (r\<lparr>req_messages := l\<rparr>))
      else if f = ''input'' then Inr (r\<lparr>req_input := raw\<rparr>)
      else if f = ''system'' then Inr (r\<lparr>req_system := raw\<rparr>)
      else if f = ''instructions'' then Inr (r\<lparr>req_instructions := raw\<rparr>)
      else Inr (r\<lparr>req_stream := raw\<rparr>))"

definition decode_request :: "json \<Rightarrow> request_envelope \<Rightarrow> (json_error, request_envelope) result" where
  "decode_request = decode_struct
     [''model'', ''messages'', ''input'', ''system'', ''instructions'', ''stream''] store_request"

definition store_message ::
  "string \<Rightarrow> string \<Rightarrow> json \<Rightarrow> message_envelope \<Rightarrow> (json_error, message_envelope) result" where
  "store_message f raw v r =
     (if f = ''type'' then and_then (decode_string v (msg_type r)) (\<lambda>s. Inr (r\<lparr>msg_type := s\<rparr>))
      else if f = ''role'' then and_then (decode_string v (msg_role r)) (\<lambda>s. Inr (r\<lparr>msg_role := s\<rparr>))
      else if f = ''content'' then Inr (r\<lparr>msg_content := raw\<rparr>)
      else if f = ''refusal'' then and_then (decode_string_ptr v) (\<lambda>p. Inr (r\<lparr>msg_refusal := p\<rparr>))
      else if f = ''tool_calls'' then Inr (r\<lparr>msg_tool_calls := raw\<rparr>)
      else Inr (r\<lparr>msg_function_call := raw\<rparr>))"

definition decode_message :: "json \<Rightarrow> message_envelope \<Rightarrow> (json_error, message_envelope) result" where
  "decode_message = decode_struct
     [''type'', ''role'', ''content'', ''refusal'', ''tool_calls'', ''function_call''] store_message"

definition store_block ::
  "string \<Rightarrow> string \<Rightarrow> json \<Rightarrow> content_block \<Rightarrow> (json_error, content_block) result" where
  "store_block f raw v r =
     (if f = ''type'' then and_then (decode_string v (blk_type r)) (\<lambda>s. Inr (r\<lparr>blk_type := s\<rparr>))
      else if f = ''text'' then and_then (decode_string_ptr v) (\<lambda>p. Inr (r\<lparr>blk_text := p\<rparr>))
      else and_then (decode_string_ptr v) (\<lambda>p. Inr (r\<lparr>blk_refusal := p\<rparr>)))"

definition decode_block :: "json \<Rightarrow> content_block \<Rightarrow> (json_error, content_block) result" where
  "decode_block = decode_struct [''type'', ''text'', ''refusal''] store_block"

subsection \<open>Content\<close>

definition raw_json_present :: "string \<Rightarrow> bool" where
  "raw_json_present raw =
     (let trimmed = trim_space raw in trimmed \<noteq> [] \<and> trimmed \<noteq> ''null'' \<and> trimmed \<noteq> ''[]'')"

definition is_text_block :: "content_block \<Rightarrow> bool" where
  "is_text_block b \<longleftrightarrow>
     blk_type b = ''text'' \<or> blk_type b = ''input_text'' \<or> blk_type b = ''output_text''
     \<or> blk_type b = ''refusal'' \<or> (blk_type b = [] \<and> blk_text b \<noteq> None)"

definition block_value :: "content_block \<Rightarrow> string option" where
  "block_value b = (if blk_type b = ''refusal'' \<and> blk_text b = None then blk_refusal b else blk_text b)"

text \<open>The block loop of \<open>extractContentText\<close>, with the text written so far.\<close>

fun content_blocks ::
  "bool \<Rightarrow> string list \<Rightarrow> string \<Rightarrow> bool \<Rightarrow> (extract_error, string \<times> bool) result" where
  "content_blocks reject [] acc found = Inr (acc, found)"
| "content_blocks reject (raw # raws) acc found =
     and_then (lift_json (decode_json_object decode_block raw zero_block)) (\<lambda>b.
       if \<not> is_text_block b then
         (if reject then Inl (NonTextBlock (blk_type b)) else content_blocks reject raws acc found)
       else (case block_value b of
               None \<Rightarrow> Inl TextBlockEmpty
             | Some t \<Rightarrow> content_blocks reject raws (acc @ t) True))"

definition extract_content_text :: "string \<Rightarrow> bool \<Rightarrow> (extract_error, string \<times> bool) result" where
  "extract_content_text raw reject =
     (let trimmed = trim_space raw in
      if trimmed = [] \<or> trimmed = ''null'' then Inr ([], False)
      else if hd trimmed = quote then
        and_then (lift_json (unmarshal (\<lambda>v. decode_string v []) trimmed)) (\<lambda>t. Inr (t, True))
      else if hd trimmed \<noteq> CHR ''['' then Inl ContentShape
      else and_then (lift_json (unmarshal decode_raw_slice trimmed)) (\<lambda>blocks.
             content_blocks reject blocks [] False))"

definition extract_optional_text :: "string \<Rightarrow> bool \<Rightarrow> (extract_error, string \<times> bool) result" where
  "extract_optional_text raw reject = extract_content_text raw reject"

subsection \<open>Messages\<close>

definition is_request_role :: "string \<Rightarrow> bool" where
  "is_request_role r \<longleftrightarrow> List.member [''system'', ''developer'', ''user'', ''assistant''] r"

definition canonical_request_message :: "message_envelope \<Rightarrow> (extract_error, text_message) result" where
  "canonical_request_message m =
     require (is_request_role (msg_role m)) (UnsupportedRole (msg_role m)) (
     require (\<not> (raw_json_present (msg_tool_calls m) \<or> raw_json_present (msg_function_call m)))
       UnsupportedToolCall (
     and_then (extract_content_text (msg_content m) True) (\<lambda>(t, found).
     require found NoText (Inr \<lparr>tm_role = msg_role m, tm_text = t\<rparr>))))"

definition canonical_response_message :: "message_envelope \<Rightarrow> (extract_error, text_message) result" where
  "canonical_response_message m =
     require (msg_role m = ''assistant'') (UnsupportedRole (msg_role m)) (
     and_then (extract_content_text (msg_content m) False) (\<lambda>(t, found).
     case msg_refusal m of
       None \<Rightarrow> require found NoText (Inr \<lparr>tm_role = ''assistant'', tm_text = t\<rparr>)
     | Some refusal \<Rightarrow> require (\<not> found) BothTextAndRefusal (Inr \<lparr>tm_role = ''assistant'', tm_text = refusal\<rparr>)))"

definition request_message :: "string \<Rightarrow> (extract_error, text_message) result" where
  "request_message raw =
     and_then (lift_json (decode_json_object decode_message raw zero_message)) canonical_request_message"

definition extract_request_messages :: "string list \<Rightarrow> (extract_error, text_message list) result" where
  "extract_request_messages raws =
     require (raws \<noteq> []) NoMessages (map_result request_message raws)"

subsection \<open>The model name\<close>

text \<open>\<open>url.PathUnescape\<close>.\<close>

fun path_unescape :: "string \<Rightarrow> string option" where
  "path_unescape [] = Some []"
| "path_unescape (c # cs) =
     (if c = CHR ''%'' then
        (case cs of
           a # b # t \<Rightarrow>
             (case (hex_val a, hex_val b) of
                (Some x, Some y) \<Rightarrow> map_option (\<lambda>u. char_of (x * 16 + y) # u) (path_unescape t)
              | _ \<Rightarrow> None)
         | _ \<Rightarrow> None)
      else map_option (\<lambda>u. c # u) (path_unescape cs))"

fun path_model :: "string list \<Rightarrow> (extract_error, string) result" where
  "path_model [] = Inl ModelRequired"
| "path_model [s] = Inl ModelRequired"
| "path_model (s # t # ss) =
     (if s = ''deployments'' \<or> s = ''model'' then
        (case path_unescape t of
           None \<Rightarrow> Inl BadPathEscape
         | Some m \<Rightarrow> if m \<noteq> [] then Inr m else path_model (t # ss))
      else path_model (t # ss))"

definition request_model :: "string \<Rightarrow> string \<Rightarrow> (extract_error, string) result" where
  "request_model body_model path =
     (if body_model \<noteq> [] then Inr body_model
      else path_model (split_on CHR ''/'' (trim_byte CHR ''/'' path)))"

subsection \<open>Fields\<close>

definition message_json :: "text_message \<Rightarrow> json" where
  "message_json m = jobj [(''role'', jstr (tm_role m)), (''text'', jstr (tm_text m))]"

definition messages_json :: "text_message list \<Rightarrow> json" where
  "messages_json ms = jarr (map message_json ms)"

text \<open>\<open>json.Marshal\<close> of the values the extractors pass cannot fail, so only \<open>NewField\<close> can.\<close>

definition new_json_field ::
  "('r) runtime_scheme \<Rightarrow> string \<Rightarrow> json \<Rightarrow> (extract_error, att_field) result" where
  "new_json_field rt name v = lift_field (new_field rt name (render v))"

definition new_string_field ::
  "('r) runtime_scheme \<Rightarrow> string \<Rightarrow> string \<Rightarrow> (extract_error, att_field) result" where
  "new_string_field rt name s = lift_field (new_field rt name (render (jstr s)))"

definition conversation_request_fields ::
  "('r) runtime_scheme \<Rightarrow> string \<Rightarrow> text_message list \<Rightarrow> (extract_error, att_field list) result" where
  "conversation_request_fields rt model ms =
     and_then (new_string_field rt ''model'' model) (\<lambda>mf.
     and_then (new_json_field rt ''messages'' (messages_json ms)) (\<lambda>f. Inr [mf, f]))"

definition conversation_response_fields ::
  "('r) runtime_scheme \<Rightarrow> text_message list \<Rightarrow> (extract_error, att_field list) result" where
  "conversation_response_fields rt ms =
     and_then (new_json_field rt ''messages'' (messages_json ms)) (\<lambda>f. Inr [f])"

subsection \<open>Requests\<close>

definition extract_openai_chat_request ::
  "('r) runtime_scheme \<Rightarrow> string \<Rightarrow> string \<Rightarrow> (extract_error, att_field list) result" where
  "extract_openai_chat_request rt body path =
     and_then (lift_json (decode_json_object decode_request body zero_request)) (\<lambda>r.
     and_then (extract_request_messages (req_messages r)) (\<lambda>ms.
     and_then (request_model (req_model r) path) (\<lambda>model.
       conversation_request_fields rt model ms)))"

definition append_streaming_request_field ::
  "('r) runtime_scheme \<Rightarrow> string \<Rightarrow> att_field list \<Rightarrow> (extract_error, att_field list) result" where
  "append_streaming_request_field rt body fs =
     and_then (lift_json (decode_json_object decode_request body zero_request)) (\<lambda>r.
     require (trim_space (req_stream r) \<noteq> []
         \<and> unmarshal (\<lambda>v. decode_bool v False) (req_stream r) = Inr True) StreamNotTrue (
     and_then (new_json_field rt ''stream'' (JBool True)) (\<lambda>f. Inr (fs @ [f]))))"

definition extract_messages_request ::
  "('r) runtime_scheme \<Rightarrow> string \<Rightarrow> string \<Rightarrow> (extract_error, att_field list) result" where
  "extract_messages_request rt body path =
     and_then (lift_json (decode_json_object decode_request body zero_request)) (\<lambda>r.
     and_then (extract_request_messages (req_messages r)) (\<lambda>ms.
     and_then (extract_optional_text (req_system r) True) (\<lambda>(system, present).
     let ms' = (if present then \<lparr>tm_role = ''system'', tm_text = system\<rparr> # ms else ms) in
     and_then (request_model (req_model r) path) (\<lambda>model.
       conversation_request_fields rt model ms'))))"

definition input_item :: "string \<Rightarrow> (extract_error, text_message) result" where
  "input_item raw =
     and_then (lift_json (decode_json_object decode_message raw zero_message)) (\<lambda>item.
     require (msg_type item = [] \<or> msg_type item = ''message'') (NonTextItem (msg_type item))
       (canonical_request_message item))"

definition extract_openai_responses_request ::
  "('r) runtime_scheme \<Rightarrow> string \<Rightarrow> string \<Rightarrow> (extract_error, att_field list) result" where
  "extract_openai_responses_request rt body path =
     and_then (lift_json (decode_json_object decode_request body zero_request)) (\<lambda>r.
     and_then (request_model (req_model r) path) (\<lambda>model.
     let trimmed = trim_space (req_input r) in
     require (trimmed \<noteq> []) InputRequired (
     and_then (extract_optional_text (req_instructions r) True) (\<lambda>(instructions, present).
     let ms = (if present then [\<lparr>tm_role = ''system'', tm_text = instructions\<rparr>] else []) in
     if hd trimmed = quote then
       and_then (lift_json (unmarshal (\<lambda>v. decode_string v []) trimmed)) (\<lambda>input.
         conversation_request_fields rt model (ms @ [\<lparr>tm_role = ''user'', tm_text = input\<rparr>]))
     else if hd trimmed \<noteq> CHR ''['' then Inl InputShape
     else and_then (lift_json (unmarshal decode_raw_slice trimmed)) (\<lambda>items.
       require (items \<noteq> []) InputEmpty (
       and_then (map_result input_item items) (\<lambda>ms'.
         conversation_request_fields rt model (ms @ ms'))))))))"

subsection \<open>Responses\<close>

text \<open>An element of \<open>choices\<close> is a struct with the one field \<open>message\<close>.\<close>

definition store_choice ::
  "string \<Rightarrow> string \<Rightarrow> json \<Rightarrow> message_envelope \<Rightarrow> (json_error, message_envelope) result" where
  "store_choice f raw v m = decode_message v m"

definition decode_choice :: "json \<Rightarrow> message_envelope \<Rightarrow> (json_error, message_envelope) result" where
  "decode_choice = decode_struct [''message''] store_choice"

definition extract_openai_chat_response ::
  "('r) runtime_scheme \<Rightarrow> string \<Rightarrow> (extract_error, att_field list) result" where
  "extract_openai_chat_response rt body =
     and_then (lift_json (decode_json_object
         (decode_struct [''choices''] (\<lambda>f raw v. decode_slice decode_choice zero_message v))
         body ([], 0))) (\<lambda>(backing, len).
     require (len = 1) ChoiceCount (
     and_then (canonical_response_message (hd backing)) (\<lambda>m.
       conversation_response_fields rt [m])))"

text \<open>The loop over the output items: items of another type than \<open>message\<close> are skipped.\<close>

fun output_messages :: "string list \<Rightarrow> (extract_error, text_message list) result" where
  "output_messages [] = Inr []"
| "output_messages (raw # raws) =
     and_then (lift_json (decode_json_object decode_message raw zero_message)) (\<lambda>item.
       if msg_type item \<noteq> ''message'' then output_messages raws
       else and_then (canonical_response_message item) (\<lambda>m.
              and_then (output_messages raws) (\<lambda>ms. Inr (m # ms))))"

definition extract_openai_responses_response ::
  "('r) runtime_scheme \<Rightarrow> string \<Rightarrow> (extract_error, att_field list) result" where
  "extract_openai_responses_response rt body =
     and_then (lift_json (decode_json_object
         (decode_struct [''output''] (\<lambda>f raw v _. decode_raw_slice v)) body [])) (\<lambda>raws.
     and_then (output_messages raws) (\<lambda>ms.
     require (ms \<noteq> []) NoText (conversation_response_fields rt ms)))"

record role_content =
  rc_role :: string
  rc_content :: string
  rc_output :: "message_envelope option"

text \<open>\<open>Output\<close> is a pointer: null clears it, and an object is decoded into what it points to.\<close>

definition decode_output ::
  "json \<Rightarrow> message_envelope option \<Rightarrow> (json_error, message_envelope option) result" where
  "decode_output v old =
     (if v = JNull then Inr None
      else and_then (decode_struct [''message''] store_choice v
             (case old of None \<Rightarrow> zero_message | Some m \<Rightarrow> m)) (\<lambda>m. Inr (Some m)))"

definition store_role_content ::
  "string \<Rightarrow> string \<Rightarrow> json \<Rightarrow> role_content \<Rightarrow> (json_error, role_content) result" where
  "store_role_content f raw v r =
     (if f = ''role'' then and_then (decode_string v (rc_role r)) (\<lambda>s. Inr (r\<lparr>rc_role := s\<rparr>))
      else if f = ''content'' then Inr (r\<lparr>rc_content := raw\<rparr>)
      else and_then (decode_output v (rc_output r)) (\<lambda>m. Inr (r\<lparr>rc_output := m\<rparr>)))"

definition zero_role_content :: role_content where
  "zero_role_content = \<lparr>rc_role = [], rc_content = [], rc_output = None\<rparr>"

definition extract_anthropic_response ::
  "('r) runtime_scheme \<Rightarrow> string \<Rightarrow> (extract_error, att_field list) result" where
  "extract_anthropic_response rt body =
     and_then (lift_json (decode_json_object
         (decode_struct [''role'', ''content''] store_role_content) body zero_role_content)) (\<lambda>r.
     and_then (canonical_response_message
         (zero_message\<lparr>msg_role := rc_role r, msg_content := rc_content r\<rparr>)) (\<lambda>m.
       conversation_response_fields rt [m]))"

definition extract_bedrock_invoke_response ::
  "('r) runtime_scheme \<Rightarrow> string \<Rightarrow> (extract_error, att_field list) result" where
  "extract_bedrock_invoke_response rt body =
     and_then (lift_json (decode_json_object
         (decode_struct [''role'', ''content'', ''output''] store_role_content) body
         zero_role_content)) (\<lambda>r.
     let claude = (trim_space (rc_content r) \<noteq> [] \<and> trim_space (rc_content r) \<noteq> ''null'');
         nova = (case rc_output r of None \<Rightarrow> False | Some m \<Rightarrow> trim_space (msg_content m) \<noteq> []) in
     require (claude \<noteq> nova) AmbiguousBedrock (
     and_then (canonical_response_message
         (if nova then (case rc_output r of None \<Rightarrow> zero_message | Some m \<Rightarrow> m)
          else zero_message\<lparr>msg_role := rc_role r, msg_content := rc_content r\<rparr>)) (\<lambda>m.
       conversation_response_fields rt [m])))"

definition extract_bedrock_converse_response ::
  "('r) runtime_scheme \<Rightarrow> string \<Rightarrow> (extract_error, att_field list) result" where
  "extract_bedrock_converse_response rt body =
     and_then (lift_json (decode_json_object
         (decode_struct [''output''] (\<lambda>f raw v. decode_output v)) body None)) (\<lambda>out.
     case out of
       None \<Rightarrow> Inl OutputRequired
     | Some m \<Rightarrow>
         and_then (canonical_response_message m) (\<lambda>m'. conversation_response_fields rt [m']))"

subsection \<open>The registry\<close>

definition ExtractorOpenAIChatConversation :: string where
  "ExtractorOpenAIChatConversation = ''openai-chat-conversation-v1''"
definition ExtractorOpenAIResponsesConversation :: string where
  "ExtractorOpenAIResponsesConversation = ''openai-responses-conversation-v1''"
definition ExtractorAnthropicMessagesConversation :: string where
  "ExtractorAnthropicMessagesConversation = ''anthropic-messages-conversation-v1''"
definition ExtractorBedrockInvokeConversation :: string where
  "ExtractorBedrockInvokeConversation = ''bedrock-invoke-conversation-v1''"
definition ExtractorBedrockConverseConversation :: string where
  "ExtractorBedrockConverseConversation = ''bedrock-converse-conversation-v1''"

record text_extractor =
  extract_request :: "string \<Rightarrow> string \<Rightarrow> (extract_error, att_field list) result"
  extract_response :: "string \<Rightarrow> (extract_error, att_field list) result"

definition text_extractors :: "('r) runtime_scheme \<Rightarrow> (string \<times> text_extractor) list" where
  "text_extractors rt =
     [(ExtractorOpenAIChatConversation,
         \<lparr>extract_request = extract_openai_chat_request rt,
          extract_response = extract_openai_chat_response rt\<rparr>),
      (ExtractorOpenAIResponsesConversation,
         \<lparr>extract_request = extract_openai_responses_request rt,
          extract_response = extract_openai_responses_response rt\<rparr>),
      (ExtractorAnthropicMessagesConversation,
         \<lparr>extract_request = extract_messages_request rt,
          extract_response = extract_anthropic_response rt\<rparr>),
      (ExtractorBedrockInvokeConversation,
         \<lparr>extract_request = extract_messages_request rt,
          extract_response = extract_bedrock_invoke_response rt\<rparr>),
      (ExtractorBedrockConverseConversation,
         \<lparr>extract_request = extract_messages_request rt,
          extract_response = extract_bedrock_converse_response rt\<rparr>)]"

definition lookup_text_extractor :: "('r) runtime_scheme \<Rightarrow> string \<Rightarrow> text_extractor option" where
  "lookup_text_extractor rt name = map_of (text_extractors rt) name"

definition is_supported_extractor :: "('r) runtime_scheme \<Rightarrow> string \<Rightarrow> bool" where
  "is_supported_extractor rt name \<longleftrightarrow> lookup_text_extractor rt name \<noteq> None"

end
