(* ===== verification/PathRules.thy ===== *)
theory PathRules
  imports GoStrings "HOL-Library.Multiset"
begin

section \<open>Path rules: exact paths and single-segment templates\<close>

text \<open>
  The model of \<open>internal/mitmproxy/pathrules.go\<close>.  A configured pattern is an exact path or a
  template whose parameters occupy whole segments; templates are compiled into a trie, and a
  request path is matched by a search that prefers a static segment and backtracks to a
  parameter.  The second half compares the trie with a reference that knows nothing of tries: the
  list of all generalisations of the path, the most specific first.
\<close>

subsection \<open>Data\<close>

record path_rule =
  extractor :: string

datatype node =
  Node (static: "string \<Rightarrow> node option") (parameter: "node option")
       (rule: "path_rule option") (pattern: string)

record compiled_rules =
  exact :: "string \<Rightarrow> path_rule option"
  templates :: node
  count :: nat

datatype path_error =
    InvalidRequestPath string
  | ParameterNotWholeSegment string
  | InvalidParameterName string string
  | ConflictingTemplates string string

text \<open>The zero value \<open>&pathRuleNode{}\<close>.\<close>

definition empty_node :: node where
  "empty_node = Node Map.empty None None []"

subsection \<open>Parsing a pattern\<close>

definition is_ascii_letter :: "char \<Rightarrow> bool" where
  "is_ascii_letter c \<longleftrightarrow> byte_in 97 122 c \<or> byte_in 65 90 c"

text \<open>The loop of \<open>validParameterName\<close> starts at index 1.\<close>

definition valid_parameter_name :: "string \<Rightarrow> bool" where
  "valid_parameter_name name =
     (case name of
        [] \<Rightarrow> False
      | c # cs \<Rightarrow>
          (is_ascii_letter c \<or> c = CHR ''_'')
          \<and> list_all (\<lambda>d. is_ascii_letter d \<or> byte_in 48 57 d \<or> d = CHR ''_'') cs)"

definition is_parameter_segment :: "string \<Rightarrow> bool" where
  "is_parameter_segment s \<longleftrightarrow>
     2 \<le> length s \<and> hd s = CHR ''{'' \<and> last s = CHR ''}''
     \<and> count_byte s CHR ''{'' = 1 \<and> count_byte s CHR ''}'' = 1"

definition split_path :: "string \<Rightarrow> string list" where
  "split_path path = (if path = ''/'' then [] else split_on CHR ''/'' (tl path))"

text \<open>The segment loop of \<open>parsePathPattern\<close>; the accumulator is the variable \<open>template\<close>.\<close>

fun check_segments :: "string \<Rightarrow> string list \<Rightarrow> bool \<Rightarrow> (path_error, bool) result" where
  "check_segments pat [] template = Inr template"
| "check_segments pat (s # ss) template =
     (if \<not> contains_any s ''{}'' then check_segments pat ss template
      else if \<not> is_parameter_segment s then Inl (ParameterNotWholeSegment pat)
      else if \<not> valid_parameter_name (butlast (tl s))
        then Inl (InvalidParameterName (butlast (tl s)) pat)
      else check_segments pat ss True)"

definition parse_path_pattern :: "string \<Rightarrow> (path_error, string list \<times> bool) result" where
  "parse_path_pattern pat =
     (if pat = [] \<or> hd pat \<noteq> CHR ''/''
         \<or> contains_any pat [CHR ''?'', CHR ''#'', CHR 13, CHR 10]
      then Inl (InvalidRequestPath pat)
      else and_then (check_segments pat (split_path pat) False)
             (\<lambda>template. Inr (split_path pat, template)))"

subsection \<open>Compiling\<close>

text \<open>
  The walk of \<open>CompilePathRules\<close> through the trie: it creates the nodes on the way and stores the
  rule at the end, unless a rule is already there.
\<close>

fun insert_template ::
  "string list \<Rightarrow> path_rule \<Rightarrow> string \<Rightarrow> node \<Rightarrow> (path_error, node) result" where
  "insert_template [] r pat (Node st pa ru pt) =
     (case ru of
        Some _ \<Rightarrow> Inl (ConflictingTemplates pt pat)
      | None \<Rightarrow> Inr (Node st pa (Some r) pat))"
| "insert_template (s # ss) r pat (Node st pa ru pt) =
     (if is_parameter_segment s then
        and_then (insert_template ss r pat (case pa of None \<Rightarrow> empty_node | Some n \<Rightarrow> n))
          (\<lambda>n. Inr (Node st (Some n) ru pt))
      else
        and_then (insert_template ss r pat (case st s of None \<Rightarrow> empty_node | Some n \<Rightarrow> n))
          (\<lambda>n. Inr (Node (st(s \<mapsto> n)) pa ru pt)))"

text \<open>
  The loop over the configured map; the list is the map in the order Go happens to iterate it.
\<close>

fun compile_loop ::
  "(string \<times> path_rule) list \<Rightarrow> compiled_rules \<Rightarrow> (path_error, compiled_rules) result" where
  "compile_loop [] c = Inr c"
| "compile_loop ((pat, r) # cfg) c =
     and_then (parse_path_pattern pat) (\<lambda>(segments, template).
       if \<not> template then compile_loop cfg (c\<lparr>exact := (exact c)(pat \<mapsto> r)\<rparr>)
       else and_then (insert_template segments r pat (templates c))
              (\<lambda>n. compile_loop cfg (c\<lparr>templates := n\<rparr>)))"

definition compile_path_rules ::
  "(string \<times> path_rule) list \<Rightarrow> (path_error, compiled_rules) result" where
  "compile_path_rules cfg =
     compile_loop cfg \<lparr>exact = Map.empty, templates = empty_node, count = length cfg\<rparr>"

text \<open>\<open>None\<close> is the nil pointer.\<close>

definition rules_len :: "compiled_rules option \<Rightarrow> nat" where
  "rules_len r = (case r of None \<Rightarrow> 0 | Some c \<Rightarrow> count c)"

subsection \<open>Matching\<close>

text \<open>The list is the segments from \<open>index\<close> on.\<close>

fun match_template :: "node option \<Rightarrow> string list \<Rightarrow> path_rule option" where
  "match_template None ss = None"
| "match_template (Some (Node st pa ru pt)) [] = ru"
| "match_template (Some (Node st pa ru pt)) (s # ss) =
     (let fallback = (if s \<noteq> [] \<and> pa \<noteq> None then match_template pa ss else None) in
      case st s of
        None \<Rightarrow> fallback
      | Some child \<Rightarrow>
          (case match_template (Some child) ss of
             Some r \<Rightarrow> Some r
           | None \<Rightarrow> fallback))"

definition match_path :: "compiled_rules option \<Rightarrow> string \<Rightarrow> path_rule option" where
  "match_path r path =
     (case r of
        None \<Rightarrow> None
      | Some c \<Rightarrow>
          (if path = [] \<or> hd path \<noteq> CHR ''/'' then None
           else case exact c path of
                  Some ru \<Rightarrow> Some ru
                | None \<Rightarrow> match_template (Some (templates c)) (split_path path)))"

subsection \<open>The shape of a template\<close>

text \<open>
  Two templates match the same paths when they have the same shape: parameter names do not count.
\<close>

definition shape :: "string list \<Rightarrow> string option list" where
  "shape = map (\<lambda>s. if is_parameter_segment s then None else Some s)"

lemma shape_simps [simp]:
  "shape [] = []"
  "is_parameter_segment s \<Longrightarrow> shape (s # ss) = None # shape ss"
  "\<not> is_parameter_segment s \<Longrightarrow> shape (s # ss) = Some s # shape ss"
  by (simp_all add: shape_def)

text \<open>The content of a trie: which shape leads to which rule.\<close>

fun lookup_shape :: "node \<Rightarrow> string option list \<Rightarrow> (path_rule \<times> string) option" where
  "lookup_shape (Node st pa ru pt) [] = map_option (\<lambda>r. (r, pt)) ru"
| "lookup_shape (Node st pa ru pt) (Some s # sh) =
     (case st s of None \<Rightarrow> None | Some n \<Rightarrow> lookup_shape n sh)"
| "lookup_shape (Node st pa ru pt) (None # sh) =
     (case pa of None \<Rightarrow> None | Some n \<Rightarrow> lookup_shape n sh)"

lemma lookup_empty_node [simp]: "lookup_shape empty_node = Map.empty"
proof
  fix sh
  show "lookup_shape empty_node sh = Map.empty sh"
  proof (cases sh)
    case (Cons x xs)
    then show ?thesis by (cases x) (simp_all add: empty_node_def)
  qed (simp add: empty_node_def)
qed

lemma lookup_shape_param:
  "lookup_shape (Node st (Some n) ru pt) =
     (\<lambda>sh. case sh of None # sh' \<Rightarrow> lookup_shape n sh' | _ \<Rightarrow> lookup_shape (Node st None ru pt) sh)"
  by (rule ext) (auto split: list.splits option.splits)

lemma insert_template_fresh:
  "lookup_shape n (shape ss) = None \<Longrightarrow>
     \<exists>n'. insert_template ss r pat n = Inr n'
        \<and> lookup_shape n' = (lookup_shape n)(shape ss \<mapsto> (r, pat))"
proof (induction ss r pat n rule: insert_template.induct)
  case (1 r pat st pa ru pt)
  show ?case
  proof (rule exI, rule conjI)
    show "insert_template [] r pat (Node st pa ru pt) = Inr (Node st pa (Some r) pat)"
      using 1 by simp
    show "lookup_shape (Node st pa (Some r) pat)
        = (lookup_shape (Node st pa ru pt))(shape [] \<mapsto> (r, pat))"
    proof
      fix sh
      show "lookup_shape (Node st pa (Some r) pat) sh
          = ((lookup_shape (Node st pa ru pt))(shape [] \<mapsto> (r, pat))) sh"
      proof (cases sh)
        case (Cons x xs)
        then show ?thesis by (cases x) simp_all
      qed simp
    qed
  qed
next
  case (2 s ss r pat st pa ru pt)
  show ?case
  proof (cases "is_parameter_segment s")
    case True
    let ?m = "case pa of None \<Rightarrow> empty_node | Some n \<Rightarrow> n"
    have "lookup_shape ?m (shape ss) = None"
      using "2.prems" True by (cases pa) simp_all
    with "2.IH"(1)[OF True] obtain n' where
      n': "insert_template ss r pat ?m = Inr n'"
          "lookup_shape n' = (lookup_shape ?m)(shape ss \<mapsto> (r, pat))" by blast
    have "lookup_shape (Node st (Some n') ru pt) sh
        = ((lookup_shape (Node st pa ru pt))(shape (s # ss) \<mapsto> (r, pat))) sh" for sh
    proof (cases sh)
      case (Cons x xs)
      then show ?thesis using True n'(2) by (cases x; cases pa) simp_all
    qed (use True in simp)
    with n' True show ?thesis by auto
  next
    case False
    let ?m = "case st s of None \<Rightarrow> empty_node | Some n \<Rightarrow> n"
    have "lookup_shape ?m (shape ss) = None"
      using "2.prems" False by (cases "st s") simp_all
    with "2.IH"(2)[OF False] obtain n' where
      n': "insert_template ss r pat ?m = Inr n'"
          "lookup_shape n' = (lookup_shape ?m)(shape ss \<mapsto> (r, pat))" by blast
    have "lookup_shape (Node (st(s \<mapsto> n')) pa ru pt) sh
        = ((lookup_shape (Node st pa ru pt))(shape (s # ss) \<mapsto> (r, pat))) sh" for sh
    proof (cases sh)
      case (Cons x xs)
      then show ?thesis using False n'(2) by (cases x; cases "st s") auto
    qed (use False in simp)
    with n' False show ?thesis by auto
  qed
qed

lemma insert_template_taken:
  "lookup_shape n (shape ss) = Some (q, pt) \<Longrightarrow>
     insert_template ss r pat n = Inl (ConflictingTemplates pt pat)"
  by (induction ss r pat n rule: insert_template.induct)
     (auto split: option.splits if_splits)

subsection \<open>The interface of a conflict-checking index\<close>

text \<open>
  What the compile loop relies on: an index that holds one value per key, whose insertion fails
  exactly when the key is taken.  The trie is such an index, keyed by the shape.
\<close>

locale conflict_index =
  fixes empty :: "'t"
    and add :: "'p \<Rightarrow> 'v \<Rightarrow> 't \<Rightarrow> ('e, 't) result"
    and key :: "'p \<Rightarrow> 'k"
    and find :: "'t \<Rightarrow> 'k \<Rightarrow> 'v option"
  assumes find_empty: "find empty k = None"
    and add_fresh: "find t (key p) = None \<Longrightarrow>
          \<exists>t'. add p v t = Inr t' \<and> find t' = (find t)(key p \<mapsto> v)"
    and add_taken: "find t (key p) \<noteq> None \<Longrightarrow> \<exists>e. add p v t = Inl e"
begin

fun add_all :: "('p \<times> 'v) list \<Rightarrow> 't \<Rightarrow> ('e, 't) result" where
  "add_all [] t = Inr t"
| "add_all ((p, v) # pvs) t = and_then (add p v t) (add_all pvs)"

lemma add_Inr:
  "add p v t = Inr t' \<Longrightarrow> find t (key p) = None \<and> find t' = (find t)(key p \<mapsto> v)"
  using add_fresh[of t p v] add_taken[of t p v] by (cases "find t (key p)") auto

lemma add_all_ok_iff:
  "is_ok (add_all pvs t) \<longleftrightarrow>
     distinct (map (key \<circ> fst) pvs) \<and> (\<forall>pv \<in> set pvs. find t (key (fst pv)) = None)"
proof (induction pvs arbitrary: t)
  case Nil
  then show ?case by simp
next
  case (Cons pv pvs)
  obtain p v where pv: "pv = (p, v)" by (cases pv)
  show ?case
  proof (cases "find t (key p)")
    case None
    then obtain t' where t': "add p v t = Inr t'" "find t' = (find t)(key p \<mapsto> v)"
      using add_fresh by blast
    have "is_ok (add_all (pv # pvs) t) = is_ok (add_all pvs t')"
      by (simp add: pv t')
    also have "\<dots> \<longleftrightarrow> distinct (map (key \<circ> fst) pvs)
        \<and> (\<forall>qw \<in> set pvs. find t' (key (fst qw)) = None)"
      by (rule Cons.IH)
    also have "\<dots> \<longleftrightarrow> distinct (map (key \<circ> fst) (pv # pvs))
        \<and> (\<forall>qw \<in> set (pv # pvs). find t (key (fst qw)) = None)"
      using None by (auto simp: pv t'(2) image_iff)
    finally show ?thesis .
  next
    case (Some w)
    then obtain e where "add p v t = Inl e" using add_taken by blast
    with Some show ?thesis by (auto simp: pv)
  qed
qed

lemma add_all_find:
  "add_all pvs t = Inr t' \<Longrightarrow>
     find t' k = (case map_of (map (\<lambda>(p, v). (key p, v)) pvs) k of
                    Some v \<Rightarrow> Some v | None \<Rightarrow> find t k)"
proof (induction pvs arbitrary: t)
  case Nil
  then show ?case by simp
next
  case (Cons pv pvs)
  obtain p v where pv: "pv = (p, v)" by (cases pv)
  from Cons.prems obtain u where u: "add p v t = Inr u" "add_all pvs u = Inr t'"
    by (auto simp: pv and_then_Inr_iff)
  have fresh: "find u (key p) = Some v" and upd: "find u = (find t)(key p \<mapsto> v)"
    using add_Inr[OF u(1)] by auto
  have "is_ok (add_all pvs u)" by (simp add: u(2))
  then have "\<forall>qw \<in> set pvs. key (fst qw) \<noteq> key p"
    using fresh by (auto simp: add_all_ok_iff)
  then have "map_of (map (\<lambda>(p, v). (key p, v)) pvs) (key p) = None"
    by (auto simp: map_of_eq_None_iff)
  with Cons.IH[OF u(2)] upd show ?case
    by (auto simp: pv split: option.splits)
qed

end

interpretation trie: conflict_index empty_node "\<lambda>ss (r, pat). insert_template ss r pat" shape lookup_shape
proof unfold_locales
  fix k show "lookup_shape empty_node k = None" by simp
next
  fix t p and v :: "path_rule \<times> string"
  assume "lookup_shape t (shape p) = None"
  then show "\<exists>t'. (case v of (r, pat) \<Rightarrow> insert_template p r pat) t = Inr t'
      \<and> lookup_shape t' = (lookup_shape t)(shape p \<mapsto> v)"
    using insert_template_fresh[of t p "fst v" "snd v"] by (cases v) simp
next
  fix t p and v :: "path_rule \<times> string"
  assume "lookup_shape t (shape p) \<noteq> None"
  then show "\<exists>e. (case v of (r, pat) \<Rightarrow> insert_template p r pat) t = Inl e"
    using insert_template_taken by (cases v) fastforce
qed

subsection \<open>The compiled rules against the configuration\<close>

definition is_template :: "string \<Rightarrow> bool" where
  "is_template pat \<longleftrightarrow> parse_path_pattern pat = Inr (split_path pat, True)"

definition is_exact :: "string \<Rightarrow> bool" where
  "is_exact pat \<longleftrightarrow> parse_path_pattern pat = Inr (split_path pat, False)"

lemma parse_path_pattern_cases:
  obtains (error) e where "parse_path_pattern pat = Inl e" "\<not> is_template pat" "\<not> is_exact pat"
  | (exact) "parse_path_pattern pat = Inr (split_path pat, False)" "is_exact pat" "\<not> is_template pat"
  | (template) "parse_path_pattern pat = Inr (split_path pat, True)" "is_template pat" "\<not> is_exact pat"
proof (cases "parse_path_pattern pat")
  case (Inl e)
  then show ?thesis by (intro error) (simp_all add: is_template_def is_exact_def)
next
  case (Inr st)
  then obtain b where b: "st = (split_path pat, b)"
    by (auto simp: parse_path_pattern_def and_then_Inr_iff split: if_splits)
  show ?thesis
    using Inr b exact template by (cases b) (simp_all add: is_template_def is_exact_def)
qed

definition template_entries ::
  "(string \<times> path_rule) list \<Rightarrow> (string list \<times> path_rule \<times> string) list" where
  "template_entries cfg =
     map (\<lambda>(pat, r). (split_path pat, r, pat)) (filter (is_template \<circ> fst) cfg)"

definition exact_entries :: "(string \<times> path_rule) list \<Rightarrow> (string \<times> path_rule) list" where
  "exact_entries cfg = filter (is_exact \<circ> fst) cfg"

lemma compile_loop_eq:
  "compile_loop cfg c = Inr c' \<longleftrightarrow>
     (\<forall>pr \<in> set cfg. is_ok (parse_path_pattern (fst pr)))
     \<and> trie.add_all (template_entries cfg) (templates c) = Inr (templates c')
     \<and> exact c' = exact c ++ map_of (rev (exact_entries cfg))
     \<and> count c' = count c \<and> compiled_rules.more c' = compiled_rules.more c"
proof (induction cfg arbitrary: c)
  case Nil
  then show ?case
    by (auto simp: template_entries_def exact_entries_def)
next
  case (Cons pr cfg)
  obtain pat r where pr: "pr = (pat, r)" by (cases pr)
  show ?case
  proof (cases rule: parse_path_pattern_cases[of pat])
    case (error e)
    then show ?thesis by (simp add: pr)
  next
    case exact
    then show ?thesis
      by (simp add: pr Cons.IH template_entries_def exact_entries_def map_add_upd_left
          dom_def map_add_def) (auto simp: fun_eq_iff split: option.splits)
  next
    case template
    then show ?thesis
      by (cases "insert_template (split_path pat) r pat (templates c)")
         (simp_all add: pr Cons.IH template_entries_def exact_entries_def)
  qed
qed

subsection \<open>The reference: exhaustive search in order of preference\<close>

fun first_some :: "('a \<Rightarrow> 'b option) \<Rightarrow> 'a list \<Rightarrow> 'b option" where
  "first_some f [] = None"
| "first_some f (x # xs) = (case f x of Some y \<Rightarrow> Some y | None \<Rightarrow> first_some f xs)"

lemma first_some_append:
  "first_some f (xs @ ys) = (case first_some f xs of Some y \<Rightarrow> Some y | None \<Rightarrow> first_some f ys)"
  by (induction xs) (auto split: option.splits)

lemma first_some_map: "first_some f (map g xs) = first_some (f \<circ> g) xs"
  by (induction xs) (auto split: option.splits)

lemma first_some_None_iff: "first_some f xs = None \<longleftrightarrow> (\<forall>x \<in> set xs. f x = None)"
  by (induction xs) (auto split: option.splits)

lemma first_some_SomeD: "first_some f xs = Some y \<Longrightarrow> \<exists>x \<in> set xs. f x = Some y"
  by (induction xs) (auto split: option.splits)

lemma first_some_cong [fundef_cong]:
  "xs = ys \<Longrightarrow> (\<And>x. x \<in> set ys \<Longrightarrow> f x = g x) \<Longrightarrow> first_some f xs = first_some g ys"
proof (induction ys arbitrary: xs)
  case (Cons y ys)
  then show ?case by (auto split: option.splits)
qed simp

text \<open>
  All shapes that match the segments of a path: each segment stands for itself or, if it is not
  empty, for a parameter.  The order is lexicographic with the segment itself before the parameter.
\<close>

fun generalisations :: "string list \<Rightarrow> string option list list" where
  "generalisations [] = [[]]"
| "generalisations (s # ss) =
     map ((#) (Some s)) (generalisations ss)
     @ (if s \<noteq> [] then map ((#) None) (generalisations ss) else [])"

definition segment_matches :: "string option \<Rightarrow> string \<Rightarrow> bool" where
  "segment_matches t s = (case t of Some u \<Rightarrow> u = s | None \<Rightarrow> s \<noteq> [])"

lemma set_generalisations: "set (generalisations ss) = {sh. list_all2 segment_matches sh ss}"
proof (induction ss)
  case Nil
  then show ?case by simp
next
  case (Cons s ss)
  then show ?case
    by (auto simp: list_all2_Cons2 segment_matches_def split: option.splits)
qed

lemma match_template_first_some:
  "match_template (Some n) ss =
     first_some (\<lambda>sh. map_option fst (lookup_shape n sh)) (generalisations ss)"
proof (induction ss arbitrary: n)
  case Nil
  obtain st pa ru pt where "n = Node st pa ru pt" by (cases n)
  then show ?case by (cases ru) simp_all
next
  case (Cons s ss)
  obtain st pa ru pt where n: "n = Node st pa ru pt" by (cases n)
  have stat: "first_some (\<lambda>sh. map_option fst (lookup_shape n (Some s # sh))) (generalisations ss)
      = match_template (st s) ss"
  proof (cases "st s")
    case None
    then show ?thesis by (simp add: n first_some_None_iff)
  next
    case (Some m)
    then show ?thesis using Cons.IH[of m] by (simp add: n)
  qed
  have par: "first_some (\<lambda>sh. map_option fst (lookup_shape n (None # sh))) (generalisations ss)
      = match_template pa ss"
  proof (cases pa)
    case None
    then show ?thesis by (simp add: n first_some_None_iff)
  next
    case (Some m)
    then show ?thesis using Cons.IH[of m] by (simp add: n)
  qed
  have "first_some (\<lambda>sh. map_option fst (lookup_shape n sh)) (generalisations (s # ss)) =
      (case match_template (st s) ss of
         Some r \<Rightarrow> Some r
       | None \<Rightarrow> if s \<noteq> [] then match_template pa ss else None)"
    using stat par
    by (cases "match_template (st s) ss") (simp_all add: first_some_append first_some_map comp_def)
  also have "\<dots> = match_template (Some n) (s # ss)"
    by (cases "st s") (auto simp: n Let_def split: option.splits)
  finally show ?case by simp
qed

definition template_rule :: "(string \<times> path_rule) list \<Rightarrow> string option list \<Rightarrow> path_rule option" where
  "template_rule cfg sh =
     map_option fst (map_of (map (\<lambda>(p, v). (shape p, v)) (template_entries cfg)) sh)"

text \<open>What matching means, with no reference to the trie or to the order of configuration.\<close>

definition reference_match :: "(string \<times> path_rule) list \<Rightarrow> string \<Rightarrow> path_rule option" where
  "reference_match cfg path =
     (if path = [] \<or> hd path \<noteq> CHR ''/'' then None
      else case map_of (exact_entries cfg) path of
             Some r \<Rightarrow> Some r
           | None \<Rightarrow> first_some (template_rule cfg) (generalisations (split_path path)))"

definition well_formed_rules :: "(string \<times> path_rule) list \<Rightarrow> bool" where
  "well_formed_rules cfg \<longleftrightarrow>
     list_all (\<lambda>(pat, _). is_ok (parse_path_pattern pat)) cfg
     \<and> distinct (map (\<lambda>(p, _). shape p) (template_entries cfg))"

lemma distinct_exact_entries:
  "distinct (map fst cfg) \<Longrightarrow> distinct (map fst (exact_entries cfg))"
  by (simp add: exact_entries_def distinct_map_filter)

lemma compile_path_rules_eq:
  "compile_path_rules cfg = Inr c \<longleftrightarrow>
     (\<forall>pr \<in> set cfg. is_ok (parse_path_pattern (fst pr)))
     \<and> trie.add_all (template_entries cfg) empty_node = Inr (templates c)
     \<and> exact c = map_of (rev (exact_entries cfg)) \<and> count c = length cfg"
  by (auto simp: compile_path_rules_def compile_loop_eq)

lemma compile_ok_iff:
  "is_ok (compile_path_rules cfg) \<longleftrightarrow> well_formed_rules cfg"
proof -
  have "is_ok (compile_path_rules cfg) \<longleftrightarrow>
      (\<forall>pr \<in> set cfg. is_ok (parse_path_pattern (fst pr)))
      \<and> is_ok (trie.add_all (template_entries cfg) empty_node)" (is "?l \<longleftrightarrow> ?r")
  proof
    assume ?l
    then show ?r by (auto simp: is_ok_iff compile_path_rules_eq)
  next
    assume r: ?r
    then obtain n where "trie.add_all (template_entries cfg) empty_node = Inr n"
      by (auto simp: is_ok_iff)
    then have "compile_path_rules cfg
        = Inr \<lparr>exact = map_of (rev (exact_entries cfg)), templates = n, count = length cfg\<rparr>"
      using r by (simp add: compile_path_rules_eq)
    then show ?l by simp
  qed
  also have "\<dots> \<longleftrightarrow> well_formed_rules cfg"
    unfolding trie.add_all_ok_iff
    by (simp add: well_formed_rules_def list_all_iff case_prod_unfold comp_def)
  finally show ?thesis .
qed

lemma compiled_template_lookup:
  assumes "compile_path_rules cfg = Inr c"
  shows "map_option fst (lookup_shape (templates c) sh) = template_rule cfg sh"
proof -
  from assms have "trie.add_all (template_entries cfg) empty_node = Inr (templates c)"
    by (simp add: compile_path_rules_eq)
  from trie.add_all_find[OF this, of sh] show ?thesis
    by (auto simp: template_rule_def split: option.splits)
qed

lemma template_rule_eq_Some:
  assumes "well_formed_rules cfg"
  shows "template_rule cfg sh = Some r \<longleftrightarrow>
     (\<exists>pat. (pat, r) \<in> set cfg \<and> is_template pat \<and> shape (split_path pat) = sh)"
proof -
  have "distinct (map fst (map (\<lambda>(p, v). (shape p, v)) (template_entries cfg)))"
    using assms by (simp add: well_formed_rules_def comp_def case_prod_unfold)
  then show ?thesis
    by (force simp: template_rule_def template_entries_def map_of_eq_Some_iff)
qed

lemma template_rule_perm:
  assumes "well_formed_rules cfg" and "well_formed_rules cfg'" and "set cfg = set cfg'"
  shows "template_rule cfg = template_rule cfg'"
proof
  fix sh
  show "template_rule cfg sh = template_rule cfg' sh"
    using template_rule_eq_Some[OF assms(1), of sh] template_rule_eq_Some[OF assms(2), of sh] assms(3)
    by (cases "template_rule cfg sh"; cases "template_rule cfg' sh") (force+)
qed

lemma exact_entries_perm:
  assumes "distinct (map fst cfg)" and "distinct (map fst cfg')" and "set cfg = set cfg'"
  shows "map_of (exact_entries cfg) = map_of (exact_entries cfg')"
  using assms by (intro map_of_perm) (auto simp: exact_entries_def distinct_map_filter)

lemma well_formed_rules_perm:
  assumes "distinct (map fst cfg)" and "distinct (map fst cfg')" and "set cfg = set cfg'"
  shows "well_formed_rules cfg = well_formed_rules cfg'"
proof -
  have "mset cfg = mset cfg'"
    using assms by (intro set_eq_iff_mset_eq_distinct[THEN iffD1]) (auto simp: distinct_map)
  then have "mset (map (\<lambda>(p, _). shape p) (template_entries cfg))
      = mset (map (\<lambda>(p, _). shape p) (template_entries cfg'))"
    by (simp add: template_entries_def)
  then have "distinct (map (\<lambda>(p, _). shape p) (template_entries cfg))
      = distinct (map (\<lambda>(p, _). shape p) (template_entries cfg'))"
    by (metis mset_eq_imp_distinct_iff)
  with assms(3) show ?thesis by (simp add: well_formed_rules_def list_all_iff)
qed

subsection \<open>Properties\<close>

text \<open>A template segment covers a path segment; a pattern covers a path.\<close>

definition segment_covers :: "string \<Rightarrow> string \<Rightarrow> bool" where
  "segment_covers t s \<longleftrightarrow> (if is_parameter_segment t then s \<noteq> [] else t = s)"

definition pattern_covers :: "string \<Rightarrow> string \<Rightarrow> bool" where
  "pattern_covers pat path \<longleftrightarrow>
     (is_exact pat \<and> path = pat)
     \<or> (is_template pat \<and> list_all2 segment_covers (split_path pat) (split_path path))"

lemma list_all2_shape:
  "list_all2 segment_matches (shape ts) ss \<longleftrightarrow> list_all2 segment_covers ts ss"
proof -
  have "(\<lambda>t. segment_matches (if is_parameter_segment t then None else Some t)) = segment_covers"
    by (intro ext) (simp add: segment_matches_def segment_covers_def)
  then show ?thesis by (simp add: shape_def list_all2_map1)
qed

lemma is_exact_absolute: "is_exact pat \<Longrightarrow> pat \<noteq> [] \<and> hd pat = CHR ''/''"
  by (auto simp: is_exact_def parse_path_pattern_def split: if_splits)

lemma exact_entries_eq_Some:
  "distinct (map fst cfg) \<Longrightarrow>
     map_of (exact_entries cfg) path = Some r \<longleftrightarrow> (path, r) \<in> set cfg \<and> is_exact path"
  using distinct_exact_entries[of cfg] by (auto simp: map_of_eq_Some_iff exact_entries_def)

lemma exact_compiled:
  assumes "distinct (map fst cfg)" and "compile_path_rules cfg = Inr c"
  shows "exact c = map_of (exact_entries cfg)"
proof -
  have "map_of (rev (exact_entries cfg)) = map_of (exact_entries cfg)"
    using distinct_exact_entries[OF assms(1)]
    by (intro map_of_perm) (simp_all add: rev_map [symmetric])
  then show ?thesis using assms(2) by (simp add: compile_path_rules_eq)
qed

text \<open>
  C23: Trie against reference.  Once a configuration compiles, matching a request path by the
  backtracking trie search of \<open>Match\<close> gives, for every path, the rule the reference gives: the
  exact rule if there is one, and otherwise the rule of the first of all generalisations of the
  path (most specific segment first, left to right) that some configured template has.\<close>

theorem match_path_reference:
  assumes "distinct (map fst cfg)" and "compile_path_rules cfg = Inr c"
  shows "match_path (Some c) path = reference_match cfg path"
  using compiled_template_lookup[OF assms(2)] exact_compiled[OF assms]
  by (auto simp: match_path_def reference_match_def match_template_first_some split: option.splits)

definition sample_rules :: "(string \<times> path_rule) list" where
  "sample_rules =
     [(''/a/static/x'', \<lparr>extractor = ''exact''\<rparr>),
      (''/b/static/{v}'', \<lparr>extractor = ''static''\<rparr>),
      (''/b/{v}/tail'', \<lparr>extractor = ''fallback''\<rparr>)]"

definition sample_compiled :: compiled_rules where
  "sample_compiled =
     (case compile_path_rules sample_rules of
        Inr c \<Rightarrow> c
      | Inl _ \<Rightarrow> \<lparr>exact = Map.empty, templates = empty_node, count = 0\<rparr>)"

lemma sample_well_formed: "well_formed_rules sample_rules"
  by code_simp

lemma sample_distinct: "distinct (map fst sample_rules)"
  by (simp add: sample_rules_def)

lemma sample_compiles: "compile_path_rules sample_rules = Inr sample_compiled"
  using compile_ok_iff[of sample_rules] sample_well_formed
  by (auto simp: is_ok_iff sample_compiled_def)

theorem match_path_reference_witness:
  "match_path (Some sample_compiled) ''/b/static/tail'' = Some \<lparr>extractor = ''static''\<rparr>
   \<and> match_path (Some sample_compiled) ''/b/other/tail'' = Some \<lparr>extractor = ''fallback''\<rparr>
   \<and> match_path (Some sample_compiled) ''/b//tail'' = None"
proof -
  have "reference_match sample_rules ''/b/static/tail'' = Some \<lparr>extractor = ''static''\<rparr>"
    "reference_match sample_rules ''/b/other/tail'' = Some \<lparr>extractor = ''fallback''\<rparr>"
    "reference_match sample_rules ''/b//tail'' = None"
    by code_simp+
  then show ?thesis
    by (simp add: match_path_reference[OF sample_distinct sample_compiles])
qed

lemma match_covers:
  assumes "distinct (map fst cfg)" and "compile_path_rules cfg = Inr c"
    and "path \<noteq> []" and "hd path = CHR ''/''"
  shows "(match_path (Some c) path = Some r \<longrightarrow> (\<exists>pat. (pat, r) \<in> set cfg \<and> pattern_covers pat path))
     \<and> (match_path (Some c) path = None \<longleftrightarrow> (\<forall>pr \<in> set cfg. \<not> pattern_covers (fst pr) path))"
proof -
  have wf: "well_formed_rules cfg"
    using compile_ok_iff[of cfg] assms(2) by simp
  have m: "match_path (Some c) path =
      (case map_of (exact_entries cfg) path of
         Some r \<Rightarrow> Some r
       | None \<Rightarrow> first_some (template_rule cfg) (generalisations (split_path path)))"
    using exact_compiled[OF assms(1,2)] compiled_template_lookup[OF assms(2)] assms(3,4)
    by (auto simp: match_path_def match_template_first_some split: option.splits)
  have ex: "map_of (exact_entries cfg) path = Some q \<longleftrightarrow> (path, q) \<in> set cfg \<and> is_exact path" for q
    by (rule exact_entries_eq_Some[OF assms(1)])
  have tm: "(\<exists>sh \<in> set (generalisations (split_path path)). template_rule cfg sh = Some q) \<longleftrightarrow>
      (\<exists>pat. (pat, q) \<in> set cfg \<and> is_template pat
         \<and> list_all2 segment_matches (shape (split_path pat)) (split_path path))" for q
    by (auto simp: set_generalisations template_rule_eq_Some[OF wf])
  have sound: "\<exists>pat. (pat, q) \<in> set cfg \<and> pattern_covers pat path"
    if "match_path (Some c) path = Some q" for q
  proof (cases "map_of (exact_entries cfg) path")
    case None
    with that m have "\<exists>sh \<in> set (generalisations (split_path path)). template_rule cfg sh = Some q"
      by (auto dest: first_some_SomeD)
    then show ?thesis by (auto simp: tm list_all2_shape pattern_covers_def)
  next
    case (Some q')
    with that m ex show ?thesis by (auto simp: pattern_covers_def)
  qed
  have complete: "match_path (Some c) path \<noteq> None"
    if "(pat, q) \<in> set cfg" and "pattern_covers pat path" for pat q
  proof (cases "is_exact pat \<and> path = pat")
    case True
    with that ex[of q] m show ?thesis by simp
  next
    case False
    with that tm[of q] have "\<exists>sh \<in> set (generalisations (split_path path)). template_rule cfg sh = Some q"
      by (auto simp: pattern_covers_def list_all2_shape)
    then have "first_some (template_rule cfg) (generalisations (split_path path)) \<noteq> None"
      by (auto simp: first_some_None_iff)
    with m show ?thesis by (auto split: option.splits)
  qed
  show ?thesis
  proof
    show "match_path (Some c) path = Some r \<longrightarrow> (\<exists>pat. (pat, r) \<in> set cfg \<and> pattern_covers pat path)"
      using sound by blast
    show "match_path (Some c) path = None \<longleftrightarrow> (\<forall>pr \<in> set cfg. \<not> pattern_covers (fst pr) path)"
    proof (cases "match_path (Some c) path")
      case None
      then show ?thesis using complete by (metis prod.collapse)
    next
      case (Some q)
      then obtain pat where "(pat, q) \<in> set cfg" "pattern_covers pat path" using sound by blast
      with Some show ?thesis by (metis fst_conv option.distinct(1))
    qed
  qed
qed

text \<open>
  C24: Soundness and completeness of matching.  A returned rule is the rule of a configured
  pattern that covers the path, and no rule is returned only when no configured pattern covers
  it: the backtracking search misses nothing.\<close>

theorem match_path_covers:
  assumes "distinct (map fst cfg)" and "compile_path_rules cfg = Inr c"
    and "path \<noteq> []" and "hd path = CHR ''/''"
  shows "(match_path (Some c) path = Some r \<longrightarrow> (\<exists>pat. (pat, r) \<in> set cfg \<and> pattern_covers pat path))
     \<and> (match_path (Some c) path = None \<longleftrightarrow> (\<forall>pr \<in> set cfg. \<not> pattern_covers (fst pr) path))"
  using assms by (rule match_covers)

theorem match_path_covers_witness:
  "match_path (Some sample_compiled) ''/b/other/tail'' \<noteq> None
   \<and> match_path (Some sample_compiled) ''/b//tail'' = None"
proof -
  have "pattern_covers ''/b/{v}/tail'' ''/b/other/tail''"
    "list_all (\<lambda>pr. \<not> pattern_covers (fst pr) ''/b//tail'') sample_rules"
    by code_simp+
  moreover have "(''/b/{v}/tail'', \<lparr>extractor = ''fallback''\<rparr>) \<in> set sample_rules"
    by (simp add: sample_rules_def)
  ultimately show ?thesis
    using match_path_covers[OF sample_distinct sample_compiles, of "''/b/other/tail''"]
      match_path_covers[OF sample_distinct sample_compiles, of "''/b//tail''"]
    by (fastforce simp: list_all_iff)
qed

text \<open>
  C25: Ambiguity is rejected.  A configuration compiles exactly when every pattern is well
  formed and no two of its templates have the same shape, that is, differ in parameter names
  only.\<close>

theorem compile_accepts_iff:
  assumes "distinct (map fst cfg)"
  shows "is_ok (compile_path_rules cfg) \<longleftrightarrow>
     (\<forall>pr \<in> set cfg. is_exact (fst pr) \<or> is_template (fst pr))
     \<and> (\<forall>p \<in> set cfg. \<forall>q \<in> set cfg.
          is_template (fst p) \<longrightarrow> is_template (fst q)
          \<longrightarrow> shape (split_path (fst p)) = shape (split_path (fst q)) \<longrightarrow> fst p = fst q)"
proof -
  have parse: "is_ok (parse_path_pattern pat) \<longleftrightarrow> is_exact pat \<or> is_template pat" for pat
    by (cases rule: parse_path_pattern_cases[of pat]) simp_all
  have names: "map (\<lambda>(p, _). shape p) (template_entries cfg)
      = map (shape \<circ> split_path) (filter is_template (map fst cfg))"
    by (simp add: template_entries_def filter_map comp_def case_prod_unfold)
  have "distinct (map (\<lambda>(p, _). shape p) (template_entries cfg)) \<longleftrightarrow>
      inj_on (shape \<circ> split_path) (set (filter is_template (map fst cfg)))"
    unfolding names using assms by (simp add: distinct_map)
  then show ?thesis
    by (simp add: compile_ok_iff well_formed_rules_def list_all_iff case_prod_unfold parse inj_on_def)
       blast
qed

theorem compile_accepts_iff_witness:
  "is_ok (compile_path_rules sample_rules)
   \<and> \<not> is_ok (compile_path_rules
          [(''/users/{user_id}/m'', \<lparr>extractor = ''1''\<rparr>), (''/users/{name}/m'', \<lparr>extractor = ''2''\<rparr>)])"
proof -
  let ?bad = "[(''/users/{user_id}/m'', \<lparr>extractor = ''1''\<rparr>), (''/users/{name}/m'', \<lparr>extractor = ''2''\<rparr>)]"
  have "is_template ''/users/{user_id}/m''" "is_template ''/users/{name}/m''"
    "shape (split_path ''/users/{user_id}/m'') = shape (split_path ''/users/{name}/m'')"
    by code_simp+
  moreover have "distinct (map fst ?bad)" by simp
  ultimately have "\<not> is_ok (compile_path_rules ?bad)"
    by (subst compile_accepts_iff) auto
  then show ?thesis using sample_compiles by simp
qed

text \<open>
  Independence of Go's map iteration order.  Whatever order the configured map is iterated
  in, compilation accepts or rejects alike, and the compiled rules have the same number of rules
  and match every path alike.\<close>

theorem compile_order_independent:
  assumes "distinct (map fst cfg)" and "distinct (map fst cfg')" and "set cfg = set cfg'"
  shows "is_ok (compile_path_rules cfg) = is_ok (compile_path_rules cfg')
     \<and> (\<forall>c c' path. compile_path_rules cfg = Inr c \<longrightarrow> compile_path_rules cfg' = Inr c'
          \<longrightarrow> match_path (Some c) path = match_path (Some c') path
            \<and> rules_len (Some c) = rules_len (Some c'))"
proof (intro conjI allI impI)
  show "is_ok (compile_path_rules cfg) = is_ok (compile_path_rules cfg')"
    by (simp add: compile_ok_iff well_formed_rules_perm[OF assms])
next
  fix c c' path
  assume c: "compile_path_rules cfg = Inr c" and c': "compile_path_rules cfg' = Inr c'"
  have "well_formed_rules cfg" "well_formed_rules cfg'"
    using compile_ok_iff c c' by (metis is_ok_simps(2))+
  then have t: "template_rule cfg = template_rule cfg'"
    using assms(3) by (rule template_rule_perm)
  have "exact c = exact c'"
    by (simp add: exact_compiled[OF assms(1) c] exact_compiled[OF assms(2) c'] exact_entries_perm[OF assms])
  then show "match_path (Some c) path = match_path (Some c') path"
    using compiled_template_lookup[OF c] compiled_template_lookup[OF c'] t
    by (simp add: match_path_def match_template_first_some split: option.splits)
  have "length cfg = length cfg'"
    using assms by (metis distinct_card distinct_map length_map set_map)
  then show "rules_len (Some c) = rules_len (Some c')"
    using c c' by (simp add: rules_len_def compile_path_rules_eq)
qed

theorem compile_order_independent_witness:
  "is_ok (compile_path_rules (rev sample_rules))"
  using compile_order_independent[of "rev sample_rules" sample_rules] sample_distinct sample_compiles
  by (simp add: rev_map [symmetric])

end
