(* ===== verification/Proxy.thy ===== *)
theory Proxy
  imports GoNet Attestation Extractors PathRules
begin

section \<open>The proxy handlers (internal/mitmproxy/proxy.go)\<close>

text \<open>
  The two handlers \<open>New\<close> installs: the one on a request, which strips the challenge and remembers
  what the response handler needs, and the one on a response, which strips every attestation field
  the upstream sent and signs what it can.  A handler takes the message and returns what goes on to
  the other side; \<open>ctx.UserData\<close> is the optional \<open>request_state\<close> that travels between the two.
  The routing of connections and messages to the handlers (goproxy) is not modelled.
\<close>

subsection \<open>Bodies\<close>

text \<open>
  A body is what a reader of it will see: the bytes still to come, whether a read error follows them
  in place of the end of the stream, whether closing fails, and the trailer fields that reaching the
  end adds to the message (for a response body of \<open>net/http\<close>).
\<close>

record http_body =
  pending :: bytes
  fails :: bool
  close_fails :: bool
  late_trailer :: header

datatype body_error = ReadFailed | CloseFailed

text \<open>
  \<open>readAndRestore\<close>: the new body, the trailer fields reading has delivered, and the result;
  \<open>Inr None\<close> is an incomplete read.  The limit plus one is a 64-bit addition, and a \<open>LimitReader\<close>
  whose count is not positive is at its end.
\<close>

definition read_and_restore ::
  "http_body \<Rightarrow> int \<Rightarrow> http_body \<times> header \<times> (body_error, bytes option) result" where
  "read_and_restore original limit =
     (let n = nat (wrap64 (limit + 1));
          data = take n (pending original);
          restored = original\<lparr>pending := data @ drop n (pending original)\<rparr>;
          at_end = length (pending original) < n;
          trailer = (if at_end \<and> \<not> fails original then late_trailer original else (\<lambda>_. None)) in
      if at_end \<and> fails original then (restored, trailer, Inl ReadFailed)
      else if limit < int (length data) then (restored, trailer, Inr None)
      else (\<lparr>pending = data, fails = False, close_fails = False, late_trailer = \<lambda>_. None\<rparr>, trailer,
            if close_fails original then Inl CloseFailed else Inr (Some data)))"

subsection \<open>Content types and attestation fields\<close>

definition is_json :: "('u) unicode_tables_scheme \<Rightarrow> string \<Rightarrow> bool" where
  "is_json u content_type =
     (case parse_media_type u content_type of
        None \<Rightarrow> False
      | Some m \<Rightarrow> m = ''application/json'' \<or> has_suffix m ''+json'')"

definition streaming_content_type :: "('u) unicode_tables_scheme \<Rightarrow> string \<Rightarrow> string option" where
  "streaming_content_type u content_type =
     (case parse_media_type u content_type of
        None \<Rightarrow> None
      | Some m \<Rightarrow>
          (if m = ''text/event-stream'' \<or> m = ''application/vnd.amazon.eventstream'' then Some m
           else None))"

text \<open>The header without the challenge, and the challenge when there is exactly one valid one.\<close>

definition take_challenge :: "header \<Rightarrow> header \<times> string option" where
  "take_challenge h =
     (header_del h HeaderChallenge,
      case header_values h HeaderChallenge of
        [c] \<Rightarrow> if validate_challenge c = Inr () then Some c else None
      | _ \<Rightarrow> None)"

definition attestation_names :: "string list" where
  "attestation_names =
     [HeaderAlgorithm, HeaderProfile, HeaderKeyID, HeaderDomain, HeaderRequestPath, HeaderModel,
      HeaderCertificateFingerprint, HeaderTimestamp, HeaderNonce, HeaderSignedFields,
      HeaderSignature, HeaderProofReference, HeaderChallenge, HeaderResponseStatus,
      HeaderResponseContentType]"

definition clear_attestation_headers :: "header \<Rightarrow> header" where
  "clear_attestation_headers h = header_del_all attestation_names h"

definition forwarding_target :: "url \<Rightarrow> string" where
  "forwarding_target u =
     url_string (u\<lparr>url_user := None, url_raw_query := [], url_force_query := False, url_fragment := []\<rparr>)"

subsection \<open>Configuration and messages\<close>

definition DefaultMaxJSONBytes :: int where "DefaultMaxJSONBytes = 2 * 2 ^ 20"

record config =
  cfg_signer :: signer
  cfg_rules :: "compiled_rules option"
  max_json_bytes :: int
  proof_reference :: string

text \<open>The configuration \<open>New\<close> works with: a limit that is not positive is the default one.\<close>

definition new_config :: "config \<Rightarrow> config" where
  "new_config c = (if max_json_bytes c \<le> 0 then c\<lparr>max_json_bytes := DefaultMaxJSONBytes\<rparr> else c)"

record request_state =
  st_domain :: string
  st_path :: string
  st_request_fields :: "att_field list"
  st_streaming_fields :: "att_field list"
  st_challenge :: string
  st_extractor :: text_extractor

record http_request =
  rq_url :: url
  rq_header :: header
  rq_body :: "http_body option"

record tls_state =
  peer_certificates :: "bytes list"
  verified_chains :: "bytes list list"

record http_response =
  rp_status :: int
  rp_header :: header
  rp_trailer :: header
  rp_body :: "http_body option"
  rp_tls :: "tls_state option"

subsection \<open>The request handler\<close>

text \<open>The end of the handler: the state for a body that was read completely.\<close>

definition request_state_of ::
  "('r) runtime_scheme \<Rightarrow> path_rule \<Rightarrow> string \<Rightarrow> string \<Rightarrow> string option \<Rightarrow> bytes \<Rightarrow> request_state option"
  where
  "request_state_of rt ru dmn path ch body =
     (case lookup_text_extractor rt (extractor ru) of
        None \<Rightarrow> None
      | Some ex \<Rightarrow>
          (case extract_request ex body path of
             Inl _ \<Rightarrow> None
           | Inr fs \<Rightarrow>
               (let state = \<lparr>st_domain = dmn, st_path = path, st_request_fields = fs,
                              st_streaming_fields = [], st_challenge = [], st_extractor = ex\<rparr> in
                Some (case ch of
                        None \<Rightarrow> state
                      | Some c \<Rightarrow>
                          (case append_streaming_request_field rt body fs of
                             Inl _ \<Rightarrow> state
                           | Inr sfs \<Rightarrow> state\<lparr>st_streaming_fields := sfs, st_challenge := c\<rparr>)))))"

definition on_request ::
  "('r) runtime_scheme \<Rightarrow> config \<Rightarrow> http_request \<Rightarrow> http_request \<times> request_state option" where
  "on_request rt cfg r =
     (let dmn = to_lower rt (host_name (url_host (rq_url r)));
          path = url_path (rq_url r) in
      case take_challenge (rq_header r) of (h, ch) \<Rightarrow>
      (let r1 = r\<lparr>rq_header := h\<rparr> in
       case match_path (cfg_rules cfg) path of
         None \<Rightarrow> (r1, None)
       | Some ru \<Rightarrow>
           (if \<not> is_json rt (header_get h ''Content-Type'') then (r1, None)
            else (case rq_body r1 of
               None \<Rightarrow> (r1, None)
             | Some b \<Rightarrow>
                 (case read_and_restore b (max_json_bytes cfg) of (b', _, res) \<Rightarrow>
                  (r1\<lparr>rq_body := Some b'\<rparr>,
                   case res of
                     Inr (Some body) \<Rightarrow> request_state_of rt ru dmn path ch body
                   | _ \<Rightarrow> None))))))"

subsection \<open>The response handler\<close>

definition add_proof_reference :: "config \<Rightarrow> header \<Rightarrow> header" where
  "add_proof_reference cfg h =
     (if proof_reference cfg \<noteq> [] then header_set h HeaderProofReference (proof_reference cfg) else h)"

text \<open>The branch for a streaming response: its body is not touched.\<close>

definition sign_streaming ::
  "('r) runtime_scheme \<Rightarrow> config \<Rightarrow> int \<Rightarrow> bytes option \<Rightarrow> request_state \<Rightarrow> string \<Rightarrow> string
     \<Rightarrow> http_response \<Rightarrow> http_response" where
  "sign_streaming rt cfg now random s fingerprint content_type r =
     (if st_challenge s = [] \<or> st_streaming_fields s = [] then r
      else (case sign_request_upstream rt (cfg_signer cfg) now random (rp_header r)
              \<lparr>obs_domain = st_domain s, obs_fingerprint = fingerprint, obs_path = st_path s,
               obs_fields = st_streaming_fields s, obs_challenge = st_challenge s,
               obs_status = rp_status r, obs_content_type = content_type\<rparr> of
              Inl _ \<Rightarrow> r
            | Inr h \<Rightarrow> r\<lparr>rp_header := add_proof_reference cfg h\<rparr>))"

text \<open>The branch for a JSON response: the body is read, restored, and signed when it is complete.\<close>

definition sign_json ::
  "('r) runtime_scheme \<Rightarrow> config \<Rightarrow> int \<Rightarrow> bytes option \<Rightarrow> request_state \<Rightarrow> string \<Rightarrow> http_body
     \<Rightarrow> http_response \<Rightarrow> http_response" where
  "sign_json rt cfg now random s fingerprint b r =
     (case read_and_restore b (max_json_bytes cfg) of (b', trailer, res) \<Rightarrow>
      (let r1 = r\<lparr>rp_body := Some b', rp_trailer := rp_trailer r ++ trailer\<rparr> in
       case res of
         Inr (Some body) \<Rightarrow>
           (case extract_response (st_extractor s) body of
              Inl _ \<Rightarrow> r1
            | Inr fs \<Rightarrow>
                (case sign rt (cfg_signer cfg) now random (rp_header r1) (st_domain s) fingerprint
                        (st_path s) (st_request_fields s) fs of
                   Inl _ \<Rightarrow> r1
                 | Inr h \<Rightarrow> r1\<lparr>rp_header := add_proof_reference cfg h\<rparr>))
       | _ \<Rightarrow> r1))"

text \<open>The chain must have been verified, and the fingerprint is that of the leaf certificate.\<close>

definition verified_leaf :: "tls_state option \<Rightarrow> bytes option" where
  "verified_leaf t =
     (case t of
        None \<Rightarrow> None
      | Some ts \<Rightarrow>
          (case peer_certificates ts of
             [] \<Rightarrow> None
           | c # _ \<Rightarrow> if verified_chains ts = [] then None else Some c))"

definition on_response ::
  "('r) runtime_scheme \<Rightarrow> config \<Rightarrow> int \<Rightarrow> bytes option \<Rightarrow> request_state option \<Rightarrow> http_response option
     \<Rightarrow> http_response option" where
  "on_response rt cfg now random st response =
     (case response of
        None \<Rightarrow> None
      | Some r \<Rightarrow>
          (let r1 = r\<lparr>rp_header := clear_attestation_headers (rp_header r),
                      rp_trailer := clear_attestation_headers (rp_trailer r)\<rparr> in
           case (st, rp_body r1, verified_leaf (rp_tls r1)) of
             (Some s, Some b, Some leaf) \<Rightarrow>
               (let fingerprint = hex_encode (sha256 rt leaf);
                    content_type = header_get (rp_header r1) ''Content-Type'' in
                Some (case streaming_content_type rt content_type of
                        Some media \<Rightarrow> sign_streaming rt cfg now random s fingerprint media r1
                      | None \<Rightarrow>
                          (if is_json rt content_type then sign_json rt cfg now random s fingerprint b r1
                           else r1)))
           | _ \<Rightarrow> Some r1))"

subsection \<open>The certificate store\<close>

text \<open>
  \<open>memoryCertStore.Fetch\<close>.  The generator is what the call would return; the flag says whether it
  was called.  The mutex makes a call one step.
\<close>

definition fetch ::
  "(string \<rightharpoonup> 'c) \<Rightarrow> string \<Rightarrow> ('e, 'c) result \<Rightarrow> (string \<rightharpoonup> 'c) \<times> bool \<times> ('e, 'c) result" where
  "fetch certs hostname generate =
     (case certs hostname of
        Some c \<Rightarrow> (certs, False, Inr c)
      | None \<Rightarrow>
          (case generate of
             Inl e \<Rightarrow> (certs, True, Inl e)
           | Inr c \<Rightarrow> (certs(hostname \<mapsto> c), True, Inr c)))"

text \<open>A run of calls, each a host and what its generator would return; the results in order.\<close>

fun fetch_all ::
  "(string \<rightharpoonup> 'c) \<Rightarrow> (string \<times> ('e, 'c) result) list \<Rightarrow> (string \<times> bool \<times> ('e, 'c) result) list" where
  "fetch_all certs [] = []"
| "fetch_all certs ((hostname, g) # calls) =
     (case fetch certs hostname g of
        (certs', called, res) \<Rightarrow> (hostname, called, res) # fetch_all certs' calls)"

end
