(* ===== verification/AttestationProps.thy ===== *)
theory AttestationProps
  imports Attestation
begin

section \<open>What signing and verification guarantee\<close>

text \<open>
  The facts about the headers a signature writes, the exact acceptance conditions of the two
  verifiers, the round trips of the two profiles, what a payload binds, and what acceptance means
  when signatures cannot be forged.
\<close>

subsection \<open>The header fields\<close>

lemma header_keys:
  "canonical_key HeaderAlgorithm = ''X-Attestation-Algorithm''"
  "canonical_key HeaderProfile = ''X-Attestation-Profile''"
  "canonical_key HeaderKeyID = ''X-Attestation-Key-Id''"
  "canonical_key HeaderDomain = ''X-Attestation-Domain''"
  "canonical_key HeaderRequestPath = ''X-Attestation-Path''"
  "canonical_key HeaderModel = ''X-Attestation-Model''"
  "canonical_key HeaderCertificateFingerprint = ''X-Attestation-Certificate-Sha256''"
  "canonical_key HeaderTimestamp = ''X-Attestation-Timestamp''"
  "canonical_key HeaderNonce = ''X-Attestation-Nonce''"
  "canonical_key HeaderSignedFields = ''X-Attestation-Signed-Fields''"
  "canonical_key HeaderSignature = ''X-Attestation-Signature''"
  "canonical_key HeaderProofReference = ''X-Attestation-Proof-Ref''"
  "canonical_key HeaderChallenge = ''X-Attestation-Challenge''"
  "canonical_key HeaderResponseStatus = ''X-Attestation-Response-Status''"
  "canonical_key HeaderResponseContentType = ''X-Attestation-Response-Content-Type''"
  by code_simp+

definition signed_header :: "claims \<Rightarrow> string option \<Rightarrow> string \<Rightarrow> bytes \<Rightarrow> header \<Rightarrow> header" where
  "signed_header c m sf sig h =
     header_del_all [HeaderChallenge, HeaderResponseStatus, HeaderResponseContentType]
       (header_set_all (claim_headers c
            @ [(HeaderSignedFields, sf), (HeaderSignature, b64_encode sig)])
         (set_model m (header_set_all (common_headers c) h)))"

definition upstream_header :: "claims \<Rightarrow> string option \<Rightarrow> string \<Rightarrow> bytes \<Rightarrow> header \<Rightarrow> header" where
  "upstream_header c m sf sig h =
     header_set_all (claim_headers c
         @ [(HeaderChallenge, challenge c), (HeaderResponseStatus, format_int (response_status c)),
            (HeaderResponseContentType, response_content_type c),
            (HeaderSignedFields, sf), (HeaderSignature, b64_encode sig)])
       (set_model m (header_set_all (common_headers c) h))"

lemmas signed_header_unfold =
  signed_header_def upstream_header_def claim_headers_def common_headers_def set_model_def
  header_del_all_def header_at_set header_at_del header_keys

text \<open>The fields both profiles write, and the model field.\<close>

lemma signed_header_at:
  assumes "H = signed_header c m sf sig h \<or> H = upstream_header c m sf sig h"
  shows "H (canonical_key HeaderAlgorithm) = Some [Algorithm]"
    and "H (canonical_key HeaderProfile) = Some [profile c]"
    and "H (canonical_key HeaderKeyID) = Some [key_id c]"
    and "H (canonical_key HeaderDomain) = Some [domain c]"
    and "H (canonical_key HeaderRequestPath) = Some [request_path c]"
    and "H (canonical_key HeaderModel) = map_option (\<lambda>v. [v]) m"
    and "H (canonical_key HeaderCertificateFingerprint) = Some [tls_certificate_sha256 c]"
    and "H (canonical_key HeaderTimestamp) = Some [format_int (timestamp c)]"
    and "H (canonical_key HeaderNonce) = Some [nonce c]"
    and "H (canonical_key HeaderSignedFields) = Some [sf]"
    and "H (canonical_key HeaderSignature) = Some [b64_encode sig]"
  using assms by (auto simp: signed_header_unfold Let_def split: option.split)

lemma upstream_header_at:
  assumes "H = upstream_header c m sf sig h"
  shows "H (canonical_key HeaderChallenge) = Some [challenge c]"
    and "H (canonical_key HeaderResponseStatus) = Some [format_int (response_status c)]"
    and "H (canonical_key HeaderResponseContentType) = Some [response_content_type c]"
  using assms by (auto simp: signed_header_unfold Let_def split: option.split)

lemma signed_header_absent:
  "signed_header c m sf sig h (canonical_key HeaderChallenge) = None"
  "signed_header c m sf sig h (canonical_key HeaderResponseStatus) = None"
  "signed_header c m sf sig h (canonical_key HeaderResponseContentType) = None"
  by (auto simp: signed_header_unfold Let_def split: option.split)

lemma header_get_at: "h (canonical_key k) = Some [v] \<Longrightarrow> header_get h k = v"
  by (simp add: header_get_def header_values_def)

lemma single_header_at: "h (canonical_key k) = Some [v] \<Longrightarrow> single_header h k = (v, True)"
  by (simp add: single_header_def)

lemma single_header_iff: "single_header h k = (v, True) \<longleftrightarrow> h (canonical_key k) = Some [v]"
  by (auto simp: single_header_def split: option.splits list.splits)

lemma signed_header_get:
  assumes "H = signed_header c m sf sig h \<or> H = upstream_header c m sf sig h"
  shows "header_get H HeaderAlgorithm = Algorithm"
    and "header_get H HeaderProfile = profile c"
    and "header_get H HeaderKeyID = key_id c"
    and "header_get H HeaderDomain = domain c"
    and "header_get H HeaderCertificateFingerprint = tls_certificate_sha256 c"
    and "header_get H HeaderTimestamp = format_int (timestamp c)"
    and "header_get H HeaderNonce = nonce c"
    and "header_get H HeaderSignedFields = sf"
    and "header_get H HeaderSignature = b64_encode sig"
  using signed_header_at[OF assms] by (simp_all add: header_get_at)

text \<open>The names of the fields a signature may change.\<close>

definition attestation_keys :: "string list" where
  "attestation_keys = map canonical_key
     [HeaderAlgorithm, HeaderProfile, HeaderKeyID, HeaderDomain, HeaderRequestPath, HeaderModel,
      HeaderCertificateFingerprint, HeaderTimestamp, HeaderNonce, HeaderSignedFields,
      HeaderSignature, HeaderChallenge, HeaderResponseStatus, HeaderResponseContentType]"

lemma signed_header_frame:
  assumes "H = signed_header c m sf sig h \<or> H = upstream_header c m sf sig h"
    and "\<not> List.member attestation_keys k"
  shows "H k = h k"
  using assms
  by (auto simp: attestation_keys_def signed_header_unfold Let_def split: option.split)

subsection \<open>What a successful call has done\<close>

lemma sign_Inr_iff:
  "sign rt s now random h dmn fp path req resp = Inr H \<longleftrightarrow>
     (\<exists>m nb payload.
        let c = conversation_claims rt (signer_key_id s) dmn fp path req resp
                  (unix_seconds now) (b64_encode nb) in
        validate_fields rt req resp True = Inr () \<and> valid_header_value path
        \<and> model_header req = Inr m \<and> random = Some nb \<and> canonical_payload rt c = Inr payload
        \<and> length (private_key s) = 64
        \<and> H = signed_header c m (signed_fields req resp) (ed_sign rt (private_key s) payload) h)"
  by (auto simp: sign_def and_then_Inr_iff require_Inr_iff sign_payload_def signed_header_def Let_def
      split: option.splits)

lemma sign_request_upstream_Inr_iff:
  "sign_request_upstream rt s now random h obs = Inr H \<longleftrightarrow>
     (\<exists>m nb payload.
        let c = upstream_claims rt (signer_key_id s) (obs_fingerprint obs) obs
                  (unix_seconds now) (b64_encode nb) in
        validate_fields rt (obs_fields obs) [] False = Inr ()
        \<and> validate_challenge (obs_challenge obs) = Inr () \<and> status_in_range (obs_status obs)
        \<and> valid_header_value (obs_content_type obs) \<and> obs_content_type obs \<noteq> []
        \<and> valid_header_value (obs_path obs)
        \<and> model_header (obs_fields obs) = Inr m \<and> random = Some nb
        \<and> canonical_payload rt c = Inr payload \<and> length (private_key s) = 64
        \<and> H = upstream_header c m (request_upstream_signed_fields (obs_fields obs))
                (ed_sign rt (private_key s) payload) h)"
  by (auto simp: sign_request_upstream_def and_then_Inr_iff require_Inr_iff sign_payload_def
      upstream_header_def Let_def split: option.splits)

lemma check_time_Inr_iff:
  "check_time h now max_age = Inr ts \<longleftrightarrow>
     parse_int64 (header_get h HeaderTimestamp) = Some ts
     \<and> - 30 * second \<le> time_sub now (time_unix ts) \<and> time_sub now (time_unix ts) \<le> max_age"
  by (auto simp: check_time_def Let_def require_Inr_iff split: option.splits)

lemma check_signature_Inr_iff:
  "check_signature rt pk h c = Inr () \<longleftrightarrow>
     (\<exists>payload sig. canonical_payload rt c = Inr payload
        \<and> b64_decode (header_get h HeaderSignature) = Some sig \<and> length pk = 32
        \<and> ed_verify rt pk payload sig)"
  by (auto simp: check_signature_def verify_payload_def and_then_Inr_iff require_Inr_iff
      split: option.splits)

lemma check_model_Inr_iff:
  "check_model h req = Inr () \<longleftrightarrow>
     (\<exists>m. model_header req = Inr m \<and> h (canonical_key HeaderModel) = map_option (\<lambda>v. [v]) m)"
proof (cases "model_header req")
  case (Inr m)
  have one: "(case single_header h HeaderModel of (v, ok) \<Rightarrow>
      require (ok \<and> v = e) ModelMismatch (Inr ())) = Inr () \<longleftrightarrow> single_header h HeaderModel = (e, True)" for e
    by (cases "single_header h HeaderModel") (auto simp: require_def)
  show ?thesis
  proof (cases m)
    case None
    then show ?thesis by (simp add: Inr check_model_def require_Inr_iff has_header_def)
  next
    case (Some e)
    then show ?thesis by (simp add: Inr check_model_def one) (simp add: single_header_iff)
  qed
qed (simp add: check_model_def)

lemma canonical_payload_timestamp:
  "canonical_payload rt c = Inr p \<Longrightarrow> \<bar>timestamp c\<bar> \<le> max_safe_integer"
  by (auto simp: canonical_payload_def require_Inr_iff split: option.splits)

text \<open>Inside the safe range a timestamp survives the header and the 64-bit clock.\<close>

lemma safe_in_int64: "\<bar>n\<bar> \<le> max_safe_integer \<Longrightarrow> in_int64 n"
  by (auto simp: max_safe_integer_def in_int64_def int64_min_def int64_max_def)

lemma time_unix_safe: "\<bar>n\<bar> \<le> max_safe_integer \<Longrightarrow> time_unix n = n * second"
  by (auto simp: time_unix_def wrap64_def unix_to_internal_def max_safe_integer_def second_def)

lemma check_time_ok:
  assumes "header_get h HeaderTimestamp = format_int ts" and "\<bar>ts\<bar> \<le> max_safe_integer"
    and "- 30 * second \<le> now - ts * second" and "now - ts * second \<le> max_age"
    and "max_age \<le> int64_max"
  shows "check_time h now max_age = Inr ts"
proof -
  have "time_sub now (ts * second) = now - ts * second"
    using assms(3-5) by (simp add: time_sub_def int64_min_def second_def int64_max_def)
  with assms show ?thesis
    by (simp add: check_time_Inr_iff parse_format_int safe_in_int64 time_unix_safe)
qed

lemma claims_selectors [simp]:
  "profile (conversation_claims rt kid dmn fp path req resp ts n) = Profile"
  "key_id (conversation_claims rt kid dmn fp path req resp ts n) = kid"
  "domain (conversation_claims rt kid dmn fp path req resp ts n) = to_lower rt dmn"
  "request_path (conversation_claims rt kid dmn fp path req resp ts n) = path"
  "tls_certificate_sha256 (conversation_claims rt kid dmn fp path req resp ts n) = to_lower rt fp"
  "timestamp (conversation_claims rt kid dmn fp path req resp ts n) = ts"
  "nonce (conversation_claims rt kid dmn fp path req resp ts n) = n"
  "request_fields (conversation_claims rt kid dmn fp path req resp ts n) = req"
  "response_fields (conversation_claims rt kid dmn fp path req resp ts n) = resp"
  "profile (upstream_claims rt kid fp obs ts n) = RequestUpstreamProfile"
  "key_id (upstream_claims rt kid fp obs ts n) = kid"
  "domain (upstream_claims rt kid fp obs ts n) = to_lower rt (obs_domain obs)"
  "request_path (upstream_claims rt kid fp obs ts n) = obs_path obs"
  "tls_certificate_sha256 (upstream_claims rt kid fp obs ts n) = to_lower rt fp"
  "timestamp (upstream_claims rt kid fp obs ts n) = ts"
  "nonce (upstream_claims rt kid fp obs ts n) = n"
  "challenge (upstream_claims rt kid fp obs ts n) = obs_challenge obs"
  "response_status (upstream_claims rt kid fp obs ts n) = obs_status obs"
  "response_content_type (upstream_claims rt kid fp obs ts n) = obs_content_type obs"
  "request_fields (upstream_claims rt kid fp obs ts n) = obs_fields obs"
  by (simp_all add: conversation_claims_def upstream_claims_def)

lemma verify_Inr_iff:
  "verify rt pk h dmn fp path req resp now max_age = Inr () \<longleftrightarrow>
     validate_fields rt req resp True = Inr ()
     \<and> header_get h HeaderAlgorithm = Algorithm \<and> header_get h HeaderProfile = Profile
     \<and> header_get h HeaderSignedFields = signed_fields req resp
     \<and> dmn \<noteq> [] \<and> equal_fold rt (header_get h HeaderDomain) dmn
     \<and> h (canonical_key HeaderRequestPath) = Some [path]
     \<and> (\<exists>m. model_header req = Inr m \<and> h (canonical_key HeaderModel) = map_option (\<lambda>v. [v]) m)
     \<and> (fp = [] \<or> equal_fold rt (header_get h HeaderCertificateFingerprint) fp)
     \<and> (\<exists>ts payload sig.
          parse_int64 (header_get h HeaderTimestamp) = Some ts
          \<and> - 30 * second \<le> time_sub now (time_unix ts) \<and> time_sub now (time_unix ts) \<le> max_age
          \<and> canonical_payload rt (conversation_claims rt (header_get h HeaderKeyID) dmn
              (header_get h HeaderCertificateFingerprint) path req resp ts
              (header_get h HeaderNonce)) = Inr payload
          \<and> b64_decode (header_get h HeaderSignature) = Some sig \<and> length pk = 32
          \<and> ed_verify rt pk payload sig)"
  by (auto simp: verify_def and_then_Inr_iff require_Inr_iff check_time_Inr_iff
      check_signature_Inr_iff check_model_Inr_iff single_header_iff)

lemma status_field_iff:
  "(case single_header h HeaderResponseStatus of (t, ok) \<Rightarrow>
      require (ok \<and> parse_int64 t = Some st) StatusMismatch k) = Inr x \<longleftrightarrow>
     (\<exists>t. h (canonical_key HeaderResponseStatus) = Some [t] \<and> parse_int64 t = Some st) \<and> k = Inr x"
proof (cases "single_header h HeaderResponseStatus")
  case (Pair t ok)
  have "(single_header h HeaderResponseStatus = (w, True)) = (t = w \<and> ok)" for w
    using Pair by auto
  then show ?thesis
    unfolding single_header_iff by (auto simp: Pair require_Inr_iff)
qed

lemma verify_request_upstream_Inr_iff:
  "verify_request_upstream rt pk h obs now max_age = Inr () \<longleftrightarrow>
     validate_fields rt (obs_fields obs) [] False = Inr ()
     \<and> validate_challenge (obs_challenge obs) = Inr ()
     \<and> header_get h HeaderAlgorithm = Algorithm
     \<and> header_get h HeaderProfile = RequestUpstreamProfile
     \<and> header_get h HeaderSignedFields = request_upstream_signed_fields (obs_fields obs)
     \<and> obs_domain obs \<noteq> [] \<and> equal_fold rt (header_get h HeaderDomain) (obs_domain obs)
     \<and> h (canonical_key HeaderRequestPath) = Some [obs_path obs]
     \<and> (\<exists>m. model_header (obs_fields obs) = Inr m
           \<and> h (canonical_key HeaderModel) = map_option (\<lambda>v. [v]) m)
     \<and> (obs_fingerprint obs = []
           \<or> equal_fold rt (header_get h HeaderCertificateFingerprint) (obs_fingerprint obs))
     \<and> h (canonical_key HeaderChallenge) = Some [obs_challenge obs]
     \<and> (\<exists>t. h (canonical_key HeaderResponseStatus) = Some [t] \<and> parse_int64 t = Some (obs_status obs))
     \<and> h (canonical_key HeaderResponseContentType) = Some [obs_content_type obs]
     \<and> (\<exists>ts payload sig.
          parse_int64 (header_get h HeaderTimestamp) = Some ts
          \<and> - 30 * second \<le> time_sub now (time_unix ts) \<and> time_sub now (time_unix ts) \<le> max_age
          \<and> canonical_payload rt (upstream_claims rt (header_get h HeaderKeyID)
              (header_get h HeaderCertificateFingerprint) obs ts (header_get h HeaderNonce)) = Inr payload
          \<and> b64_decode (header_get h HeaderSignature) = Some sig \<and> length pk = 32
          \<and> ed_verify rt pk payload sig)"
  unfolding verify_request_upstream_def and_then_Inr_iff require_Inr_iff check_time_Inr_iff
    check_signature_Inr_iff single_header_iff status_field_iff
  by (auto simp: check_model_Inr_iff)

subsection \<open>Sample data for the witnesses\<close>

definition sample_runtime :: runtime where
  "sample_runtime =
     \<lparr>table_lower = (\<lambda>s. s), table_equal_fold = (=), jcs = Some,
      ed_sign = (\<lambda>sk m. drop 32 sk @ m), ed_verify = (\<lambda>pk m sig. sig = pk @ m),
      sha256 = (\<lambda>m. take 32 (m @ replicate 32 CHR ''.'')),
      f64 = (\<lambda>t. case parse_int64 t of None \<Rightarrow> 0 | Some n \<Rightarrow> n)\<rparr>"

definition sample_signer :: signer where
  "sample_signer = \<lparr>private_key = replicate 64 CHR ''k'', signer_key_id = ''key-1''\<rparr>"

definition sample_public_key :: bytes where
  "sample_public_key = replicate 32 CHR ''k''"

definition no_header :: header where
  "no_header = Map.empty"

definition sample_request :: "att_field list" where
  "sample_request = [\<lparr>fname = ''model'', fvalue = [quote] @ ''m1'' @ [quote]\<rparr>,
     \<lparr>fname = ''messages'', fvalue = ''[1]''\<rparr>]"

definition sample_response :: "att_field list" where
  "sample_response = [\<lparr>fname = ''messages'', fvalue = ''[2]''\<rparr>]"

definition sample_observation :: observation where
  "sample_observation =
     \<lparr>obs_domain = ''Api.example'', obs_fingerprint = ''AB12'', obs_path = ''/v1/chat'',
      obs_fields = sample_request, obs_challenge = ''challenge_1'', obs_status = 200,
      obs_content_type = ''text/event-stream''\<rparr>"

definition sample_nonce :: bytes where
  "sample_nonce = ''0123456789abcdef''"

lemma sample_keys:
  "length sample_public_key = 32" "length (private_key sample_signer) = 64"
  "ed_verify sample_runtime sample_public_key m (ed_sign sample_runtime (private_key sample_signer) m)"
  by (simp_all add: sample_public_key_def sample_signer_def sample_runtime_def)

definition sample_signed :: "(att_error, header) result" where
  "sample_signed = sign sample_runtime sample_signer (1700000000 * second) (Some sample_nonce) no_header
     ''Api.example'' ''AB12'' ''/v1/chat'' sample_request sample_response"

definition sample_upstream_signed :: "(att_error, header) result" where
  "sample_upstream_signed = sign_request_upstream sample_runtime sample_signer (1700000000 * second)
     (Some sample_nonce) no_header sample_observation"

lemma sample_signed_ok: "is_ok sample_signed"
  by code_simp

lemma sample_upstream_signed_ok: "is_ok sample_upstream_signed"
  by code_simp

subsection \<open>Round trips\<close>

lemma sign_verifies:
  assumes "sign rt s t0 random h dmn fp path req resp = Inr H"
    and "\<And>nb p. random = Some nb \<Longrightarrow>
           canonical_payload rt (conversation_claims rt (signer_key_id s) dmn fp path req resp
             (unix_seconds t0) (b64_encode nb)) = Inr p \<Longrightarrow>
           ed_verify rt pk p (ed_sign rt (private_key s) p)"
    and "length pk = 32"
    and "dmn \<noteq> []" and "is_ascii dmn" and "is_ascii fp"
    and "- 30 * second \<le> now - unix_seconds t0 * second"
    and "now - unix_seconds t0 * second \<le> max_age" and "max_age \<le> int64_max"
  shows "verify rt pk H dmn fp path req resp now max_age = Inr ()"
proof -
  let ?c = "\<lambda>f n. conversation_claims rt (signer_key_id s) dmn f path req resp (unix_seconds t0) n"
  obtain m nb payload where v: "validate_fields rt req resp True = Inr ()" "model_header req = Inr m"
    and p: "canonical_payload rt (?c fp (b64_encode nb)) = Inr payload"
    and nb: "random = Some nb"
    and H: "H = signed_header (?c fp (b64_encode nb)) m (signed_fields req resp)
        (ed_sign rt (private_key s) payload) h"
    using assms(1) by (auto simp: sign_Inr_iff Let_def)
  note at = signed_header_at[OF disjI1[OF H], unfolded claims_selectors]
  note get = signed_header_get[OF disjI1[OF H], unfolded claims_selectors]
  have low: "?c (to_lower rt fp) n = ?c fp n" for n
    using assms(6) by (simp add: conversation_claims_def to_lower_idem_ascii)
  have "check_time H now max_age = Inr (unix_seconds t0)"
    using get(6) canonical_payload_timestamp[OF p] assms(7-9) by (intro check_time_ok) simp_all
  then show ?thesis
    using v p at assms(2)[OF nb p] assms(3-6)
    by (simp add: verify_Inr_iff check_time_Inr_iff get equal_fold_to_lower low b64_round_trip)
qed

lemma sample_verified:
  "\<exists>H. sample_signed = Inr H
     \<and> verify sample_runtime sample_public_key H ''Api.example'' ''AB12'' ''/v1/chat''
         sample_request sample_response (1700000100 * second) (300 * second) = Inr ()"
proof -
  obtain H where H: "sample_signed = Inr H" using sample_signed_ok by (auto simp: is_ok_iff)
  have "verify sample_runtime sample_public_key H ''Api.example'' ''AB12'' ''/v1/chat''
         sample_request sample_response (1700000100 * second) (300 * second) = Inr ()"
    using H sample_keys
    by (intro sign_verifies[OF H[unfolded sample_signed_def]])
      (simp_all add: byte_def unix_seconds_def wrap64_def second_def int64_max_def)
  with H show ?thesis by blast
qed

text \<open>
  C12: Sign then verify.  Whatever \<open>Sign\<close> has signed, \<open>Verify\<close> accepts with the public key of the
  signer and the same domain, fingerprint, path and fields, as long as the clock of the verifier is
  at most 30 seconds behind and at most \<open>max_age\<close> ahead.  Domain and fingerprint are ASCII, as
  host names and hexadecimal digests are.\<close>

theorem sign_then_verify:
  assumes "sign rt s t0 random h dmn fp path req resp = Inr H"
    and "\<And>m. ed_verify rt pk m (ed_sign rt (private_key s) m)" and "length pk = 32"
    and "dmn \<noteq> []" and "is_ascii dmn" and "is_ascii fp"
    and "- 30 * second \<le> now - unix_seconds t0 * second"
    and "now - unix_seconds t0 * second \<le> max_age" and "max_age \<le> int64_max"
  shows "verify rt pk H dmn fp path req resp now max_age = Inr ()"
  using assms by (rule sign_verifies)

theorem sign_then_verify_witness:
  "\<exists>H. sample_signed = Inr H
     \<and> verify sample_runtime sample_public_key H ''Api.example'' ''AB12'' ''/v1/chat''
         sample_request sample_response (1700000100 * second) (300 * second) = Inr ()"
proof -
  obtain H where H: "sample_signed = Inr H" using sample_signed_ok by (auto simp: is_ok_iff)
  have "verify sample_runtime sample_public_key H ''Api.example'' ''AB12'' ''/v1/chat''
         sample_request sample_response (1700000100 * second) (300 * second) = Inr ()"
    using H sample_keys
    by (intro sign_then_verify[OF H[unfolded sample_signed_def]])
      (simp_all add: byte_def unix_seconds_def wrap64_def second_def int64_max_def)
  with H show ?thesis by blast
qed

lemma sign_upstream_verifies:
  assumes "sign_request_upstream rt s t0 random h obs = Inr H"
    and "\<And>m. ed_verify rt pk m (ed_sign rt (private_key s) m)" and "length pk = 32"
    and "obs_domain obs \<noteq> []" and "is_ascii (obs_domain obs)" and "is_ascii (obs_fingerprint obs)"
    and "- 30 * second \<le> now - unix_seconds t0 * second"
    and "now - unix_seconds t0 * second \<le> max_age" and "max_age \<le> int64_max"
  shows "verify_request_upstream rt pk H obs now max_age = Inr ()"
proof -
  let ?c = "\<lambda>f n. upstream_claims rt (signer_key_id s) f obs (unix_seconds t0) n"
  obtain m nb payload where v: "validate_fields rt (obs_fields obs) [] False = Inr ()"
      "model_header (obs_fields obs) = Inr m" "validate_challenge (obs_challenge obs) = Inr ()"
      "status_in_range (obs_status obs)"
    and p: "canonical_payload rt (?c (obs_fingerprint obs) (b64_encode nb)) = Inr payload"
    and H: "H = upstream_header (?c (obs_fingerprint obs) (b64_encode nb)) m
        (request_upstream_signed_fields (obs_fields obs)) (ed_sign rt (private_key s) payload) h"
    using assms(1) by (auto simp: sign_request_upstream_Inr_iff Let_def)
  note at = signed_header_at[OF disjI2[OF H], unfolded claims_selectors]
    upstream_header_at[OF H, unfolded claims_selectors]
  note get = signed_header_get[OF disjI2[OF H], unfolded claims_selectors]
  have low: "?c (to_lower rt (obs_fingerprint obs)) n = ?c (obs_fingerprint obs) n" for n
    using assms(6) by (simp add: upstream_claims_def to_lower_idem_ascii)
  have "check_time H now max_age = Inr (unix_seconds t0)"
    using get(6) canonical_payload_timestamp[OF p] assms(7-9) by (intro check_time_ok) simp_all
  moreover have "in_int64 (obs_status obs)"
    using v(4) by (simp add: status_in_range_def in_int64_def int64_min_def int64_max_def)
  ultimately show ?thesis
    using v p at assms(2-6)
    by (simp add: verify_request_upstream_Inr_iff check_time_Inr_iff get equal_fold_to_lower low
        b64_round_trip parse_format_int)
qed

text \<open>
  Sign then verify, streaming profile.  The same for \<open>SignRequestUpstream\<close> and
  \<open>VerifyRequestUpstream\<close>: the observation that was signed is accepted, with its challenge,
  response status and content type.\<close>

theorem sign_then_verify_upstream:
  assumes "sign_request_upstream rt s t0 random h obs = Inr H"
    and "\<And>m. ed_verify rt pk m (ed_sign rt (private_key s) m)" and "length pk = 32"
    and "obs_domain obs \<noteq> []" and "is_ascii (obs_domain obs)" and "is_ascii (obs_fingerprint obs)"
    and "- 30 * second \<le> now - unix_seconds t0 * second"
    and "now - unix_seconds t0 * second \<le> max_age" and "max_age \<le> int64_max"
  shows "verify_request_upstream rt pk H obs now max_age = Inr ()"
  using assms by (rule sign_upstream_verifies)

theorem sign_then_verify_upstream_witness:
  "\<exists>H. sample_upstream_signed = Inr H
     \<and> verify_request_upstream sample_runtime sample_public_key H sample_observation
         (1700000100 * second) (300 * second) = Inr ()"
proof -
  obtain H where H: "sample_upstream_signed = Inr H"
    using sample_upstream_signed_ok by (auto simp: is_ok_iff)
  have "verify_request_upstream sample_runtime sample_public_key H sample_observation
         (1700000100 * second) (300 * second) = Inr ()"
    using H sample_keys
    by (intro sign_then_verify_upstream[OF H[unfolded sample_upstream_signed_def]])
      (simp_all add: sample_observation_def byte_def unix_seconds_def wrap64_def second_def int64_max_def)
  with H show ?thesis by blast
qed

subsection \<open>Acceptance\<close>

text \<open>
  C20: The two profiles are separate.  A header one verifier accepts is rejected by the other one,
  whatever key, data and clock it is given.\<close>

theorem profiles_separate:
  assumes "verify rt pk h dmn fp path req resp now max_age = Inr ()"
  shows "\<not> is_ok (verify_request_upstream rt' pk' h obs now' max_age')"
  using assms
  by (auto simp: verify_Inr_iff is_ok_iff verify_request_upstream_Inr_iff Profile_def
      RequestUpstreamProfile_def)

theorem profiles_separate_witness:
  "\<exists>H. sample_signed = Inr H
     \<and> \<not> is_ok (verify_request_upstream sample_runtime sample_public_key H sample_observation
                   (1700000100 * second) (300 * second))"
proof -
  obtain H where H: "sample_signed = Inr H"
      "verify sample_runtime sample_public_key H ''Api.example'' ''AB12'' ''/v1/chat''
         sample_request sample_response (1700000100 * second) (300 * second) = Inr ()"
    using sample_verified by blast
  from profiles_separate[OF H(2)] H(1) show ?thesis by blast
qed

end
