(* ===== verification/AttestationBinding.thy ===== *)
theory AttestationBinding
  imports AttestationProps
begin

section \<open>What a signature binds\<close>

text \<open>
  Under the documented behaviour of the JCS library (texts with the same canonical form denote the
  same JSON value) a payload determines the claims it was made of; with signatures that cannot be
  forged, acceptance then means that the signer signed just these claims.  Further: the header
  frame and the safety of the values written, the challenge syntax and the list of signed fields.
\<close>

subsection \<open>The payload determines the claims\<close>

definition jcs_faithful :: "('r) runtime_scheme \<Rightarrow> bool" where
  "jcs_faithful rt \<longleftrightarrow>
     (\<forall>a b p. wf_json a \<longrightarrow> wf_json b \<longrightarrow> jcs rt (render a) = Some p \<longrightarrow> jcs rt (render b) = Some p
        \<longrightarrow> sem_of (f64 rt) a = sem_of (f64 rt) b)"

text \<open>Distinct integers in the safe range are distinct doubles.\<close>

definition f64_exact :: "('r) runtime_scheme \<Rightarrow> bool" where
  "f64_exact rt \<longleftrightarrow>
     (\<forall>m n. \<bar>m\<bar> \<le> max_safe_integer \<longrightarrow> \<bar>n\<bar> \<le> max_safe_integer
        \<longrightarrow> f64 rt (format_int m) = f64 rt (format_int n) \<longrightarrow> m = n)"

definition field_sem :: "('r) runtime_scheme \<Rightarrow> att_field \<Rightarrow> string \<times> json_sem option" where
  "field_sem rt f = (fname f, map_option (sem_of (f64 rt)) (marshal_raw (fvalue f)))"

text \<open>Two claims objects say the same: equal but for the spelling of the field values.\<close>

definition same_claims :: "('r) runtime_scheme \<Rightarrow> claims \<Rightarrow> claims \<Rightarrow> bool" where
  "same_claims rt c c' \<longleftrightarrow>
     version c = version c' \<and> profile c = profile c' \<and> key_id c = key_id c'
     \<and> tls_certificate_sha256 c = tls_certificate_sha256 c' \<and> domain c = domain c'
     \<and> request_path c = request_path c'
     \<and> map (field_sem rt) (request_fields c) = map (field_sem rt) (request_fields c')
     \<and> map (field_sem rt) (response_fields c) = map (field_sem rt) (response_fields c')
     \<and> timestamp c = timestamp c' \<and> nonce c = nonce c' \<and> challenge c = challenge c'
     \<and> response_status c = response_status c' \<and> response_content_type c = response_content_type c'"

definition texts_valid :: "claims \<Rightarrow> bool" where
  "texts_valid c \<longleftrightarrow>
     list_all (valid_utf8 \<circ> fname) (request_fields c) \<and> list_all (valid_utf8 \<circ> fname) (response_fields c)
     \<and> valid_utf8 (response_content_type c)"

lemma wf_fields_json: "fields_json fs = Some js \<Longrightarrow> list_all wf_json js"
proof (induction fs arbitrary: js)
  case (Cons f fs)
  then show ?case
    by (auto simp: field_json_def wf_jstr wf_marshal_raw intro!: wf_jobj split: option.splits)
qed simp

lemma ascii_valid: "\<forall>c \<in> set s. byte c < 128 \<Longrightarrow> valid_utf8 s"
  by (rule valid_utf8_ascii) (simp add: is_ascii_def)

lemma sem_field_json:
  assumes "valid_utf8 (fname f)" and "field_json f = Some j"
  shows "\<exists>v. marshal_raw (fvalue f) = Some v
     \<and> sem_of g j = SObj (map_of [(''name'', SStr (fname f)), (''value'', sem_of g v)])"
proof -
  from assms(2) obtain v where v: "marshal_raw (fvalue f) = Some v"
    and j: "j = jobj [(''name'', jstr (fname f)), (''value'', v)]"
    by (auto simp: field_json_def)
  have "valid_utf8 ''name''" "valid_utf8 ''value''" by (rule ascii_valid, simp add: byte_def)+
  then show ?thesis
    using v assms(1) by (simp add: j sem_jobj sem_jstr)
qed

lemma fields_sem:
  assumes "fields_json fs = Some js" and "fields_json fs' = Some js'"
    and "list_all (valid_utf8 \<circ> fname) fs" and "list_all (valid_utf8 \<circ> fname) fs'"
    and "map (sem_of (f64 rt)) js = map (sem_of (f64 rt)) js'"
  shows "map (field_sem rt) fs = map (field_sem rt) fs'"
  using assms
proof (induction fs arbitrary: js fs' js')
  case Nil
  then show ?case by (cases fs') (auto split: option.splits)
next
  case (Cons f fs)
  from Cons.prems(1) obtain j js0 where j: "field_json f = Some j" "fields_json fs = Some js0" "js = j # js0"
    by (auto split: option.splits)
  with Cons.prems(2,5) obtain f' fs0' j' js0' where fs': "fs' = f' # fs0'" "field_json f' = Some j'"
    "fields_json fs0' = Some js0'" "js' = j' # js0'"
    by (cases fs') (auto split: option.splits)
  obtain v where v: "marshal_raw (fvalue f) = Some v"
    "sem_of (f64 rt) j = SObj (map_of [(''name'', SStr (fname f)), (''value'', sem_of (f64 rt) v)])"
    using sem_field_json[OF _ j(1)] Cons.prems(3) by auto
  obtain v' where v': "marshal_raw (fvalue f') = Some v'"
    "sem_of (f64 rt) j' = SObj (map_of [(''name'', SStr (fname f')), (''value'', sem_of (f64 rt) v')])"
    using sem_field_json[OF _ fs'(2)] Cons.prems(4) fs'(1) by auto
  have eq: "map_of [(''name'', SStr (fname f)), (''value'', sem_of (f64 rt) v)]
      = map_of [(''name'', SStr (fname f')), (''value'', sem_of (f64 rt) v')]"
    using Cons.prems(5) j(3) fs'(4) v(2) v'(2) by simp
  have "fname f = fname f'" "sem_of (f64 rt) v = sem_of (f64 rt) v'"
    using fun_cong[OF eq, of "''name''"] fun_cong[OF eq, of "''value''"] by simp_all
  moreover have "map (field_sem rt) fs = map (field_sem rt) fs0'"
    using Cons.prems(3-5) j(2,3) fs' by (intro Cons.IH[of js0 fs0' js0']) simp_all
  moreover have "field_sem rt f = field_sem rt f'"
    using calculation(1,2) v(1) v'(1) by (simp add: field_sem_def)
  ultimately show ?case using fs'(1) by simp
qed

lemma canonical_payload_Inr:
  assumes "canonical_payload rt c = Inr p"
  shows "list_all (valid_utf8 \<circ> snd) (checked_claims c)"
    and "\<bar>timestamp c\<bar> \<le> max_safe_integer"
    and "challenge c = [] \<or> validate_challenge (challenge c) = Inr ()"
    and "response_status c = 0 \<or> status_in_range (response_status c)"
    and "\<exists>req resp j. fields_json (request_fields c) = Some req
        \<and> fields_json (response_fields c) = Some resp \<and> claims_json c = Some j \<and> jcs rt (render j) = Some p"
proof -
  have f: "find (\<lambda>(_, v). \<not> valid_utf8 v) (checked_claims c) = None"
    using assms by (auto simp: canonical_payload_def split: option.splits)
  then show "list_all (valid_utf8 \<circ> snd) (checked_claims c)"
    by (auto simp: find_None_iff list_all_iff)
  from f assms show "\<bar>timestamp c\<bar> \<le> max_safe_integer"
    and "challenge c = [] \<or> validate_challenge (challenge c) = Inr ()"
    and "response_status c = 0 \<or> status_in_range (response_status c)"
    by (auto simp: canonical_payload_def require_Inr_iff and_then_Inr_iff split: if_splits)
  from f assms have "\<exists>j. claims_json c = Some j \<and> jcs rt (render j) = Some p"
    by (auto simp: canonical_payload_def require_Inr_iff and_then_Inr_iff split: option.splits)
  moreover have "\<exists>req resp. fields_json (request_fields c) = Some req
        \<and> fields_json (response_fields c) = Some resp" if "claims_json c = Some j" for j
    using that by (auto simp: claims_json_def split: option.splits)
  ultimately show "\<exists>req resp j. fields_json (request_fields c) = Some req
        \<and> fields_json (response_fields c) = Some resp \<and> claims_json c = Some j \<and> jcs rt (render j) = Some p"
    by blast
qed

definition claims_members :: "claims \<Rightarrow> json list \<Rightarrow> json list \<Rightarrow> (string \<times> json) list" where
  "claims_members c req resp =
     [(''version'', jstr (version c)), (''profile'', jstr (profile c)),
      (''key_id'', jstr (key_id c)),
      (''tls_certificate_sha256'', jstr (tls_certificate_sha256 c)),
      (''domain'', jstr (domain c)), (''request_path'', jstr (request_path c)),
      (''request_fields'', jarr req), (''response_fields'', jarr resp),
      (''timestamp'', jint (timestamp c)), (''nonce'', jstr (nonce c))]
     @ (if challenge c = [] then [] else [(''challenge'', jstr (challenge c))])
     @ (if response_status c = 0 then [] else [(''response_status'', jint (response_status c))])
     @ (if response_content_type c = [] then []
        else [(''response_content_type'', jstr (response_content_type c))])"

lemma claims_json_members:
  "fields_json (request_fields c) = Some req \<Longrightarrow> fields_json (response_fields c) = Some resp \<Longrightarrow>
     claims_json c = Some (jobj (claims_members c req resp))"
  by (simp add: claims_json_def claims_members_def)

lemma claims_members_keys:
  "distinct (map fst (claims_members c req resp))"
  "list_all (valid_utf8 \<circ> fst) (claims_members c req resp)"
proof -
  let ?ks = "[''version'', ''profile'', ''key_id'', ''tls_certificate_sha256'', ''domain'',
    ''request_path'', ''request_fields'', ''response_fields'', ''timestamp'', ''nonce'']"
  let ?os = "(if challenge c = [] then [] else [''challenge''])
    @ (if response_status c = 0 then [] else [''response_status''])
    @ (if response_content_type c = [] then [] else [''response_content_type''])"
  have keys: "map fst (claims_members c req resp) = ?ks @ ?os"
    by (simp add: claims_members_def)
  show "distinct (map fst (claims_members c req resp))"
    unfolding keys by simp
  have "list_all is_ascii (map fst (claims_members c req resp))"
    unfolding keys by (simp add: byte_def)
  then show "list_all (valid_utf8 \<circ> fst) (claims_members c req resp)"
    by (auto simp: list_all_iff intro: valid_utf8_ascii)
qed

lemma claims_members_optional:
  "(''challenge'', v) \<in> set (claims_members c req resp) \<longleftrightarrow> challenge c \<noteq> [] \<and> v = jstr (challenge c)"
  "(''response_status'', v) \<in> set (claims_members c req resp)
     \<longleftrightarrow> response_status c \<noteq> 0 \<and> v = jint (response_status c)"
  "(''response_content_type'', v) \<in> set (claims_members c req resp)
     \<longleftrightarrow> response_content_type c \<noteq> [] \<and> v = jstr (response_content_type c)"
  by (auto simp: claims_members_def)

lemma wf_claims:
  assumes "fields_json (request_fields c) = Some req" and "fields_json (response_fields c) = Some resp"
  shows "wf_json (jobj (claims_members c req resp))"
  using wf_fields_json[OF assms(1)] wf_fields_json[OF assms(2)]
  by (intro wf_jobj) (simp add: claims_members_def wf_jstr wf_jint wf_jarr)

lemma challenge_ascii: "validate_challenge ch = Inr () \<Longrightarrow> is_ascii ch"
proof -
  assume "validate_challenge ch = Inr ()"
  then have "\<forall>r \<in> set (runes ch). challenge_rune r"
    by (auto simp: validate_challenge_def list_all_iff split: if_splits)
  then have "\<forall>c \<in> set ch. challenge_rune (byte c)"
    by (subst (asm) all_runes_ascii) (auto simp: challenge_rune_def)
  then show ?thesis by (auto simp: is_ascii_def challenge_rune_def)
qed

lemma payload_binds_claims:
  assumes "jcs_faithful rt" and "f64_exact rt"
    and c: "canonical_payload rt c = Inr p" "texts_valid c"
    and c': "canonical_payload rt c' = Inr p" "texts_valid c'"
  shows "same_claims rt c c'"
proof -
  obtain req resp j where r: "fields_json (request_fields c) = Some req"
    "fields_json (response_fields c) = Some resp" "claims_json c = Some j" "jcs rt (render j) = Some p"
    using canonical_payload_Inr(5)[OF c(1)] by blast
  obtain req' resp' j' where r': "fields_json (request_fields c') = Some req'"
    "fields_json (response_fields c') = Some resp'" "claims_json c' = Some j'" "jcs rt (render j') = Some p"
    using canonical_payload_Inr(5)[OF c'(1)] by blast
  let ?m = "claims_members c req resp" and ?m' = "claims_members c' req' resp'"
  let ?sem = "sem_of (f64 rt)"
  have j: "j = jobj ?m" "j' = jobj ?m'"
    using r(3) r'(3) claims_json_members[OF r(1,2)] claims_json_members[OF r'(1,2)] by simp_all
  have "?sem j = ?sem j'"
    using assms(1) r(4) r'(4) wf_claims[OF r(1,2)] wf_claims[OF r'(1,2)] j
    unfolding jcs_faithful_def by blast
  then have eq: "map_option ?sem (map_of ?m k) = map_option ?sem (map_of ?m' k)" for k
    unfolding j by (simp add: sem_jobj claims_members_keys map_of_map fun_eq_iff)
  have mem: "map_of ?m k = Some v" if "(k, v) \<in> set ?m" for k v
    using that claims_members_keys(1)[of c req resp] by (rule map_of_is_SomeI[rotated])
  have mem': "map_of ?m' k = Some v" if "(k, v) \<in> set ?m'" for k v
    using that claims_members_keys(1)[of c' req' resp'] by (rule map_of_is_SomeI[rotated])
  have both: "?sem v = ?sem v'" if "(k, v) \<in> set ?m" "(k, v') \<in> set ?m'" for k v v'
    using eq[of k] mem[OF that(1)] mem'[OF that(2)] by simp
  have chk: "valid_utf8 (version c)" "valid_utf8 (profile c)" "valid_utf8 (key_id c)"
      "valid_utf8 (tls_certificate_sha256 c)" "valid_utf8 (domain c)" "valid_utf8 (request_path c)"
      "valid_utf8 (nonce c)"
    using canonical_payload_Inr(1)[OF c(1)] by (simp_all add: checked_claims_def)
  have chk': "valid_utf8 (version c')" "valid_utf8 (profile c')" "valid_utf8 (key_id c')"
      "valid_utf8 (tls_certificate_sha256 c')" "valid_utf8 (domain c')" "valid_utf8 (request_path c')"
      "valid_utf8 (nonce c')"
    using canonical_payload_Inr(1)[OF c'(1)] by (simp_all add: checked_claims_def)
  have str: "s = s'" if "(k, jstr s) \<in> set ?m" "(k, jstr s') \<in> set ?m'" "valid_utf8 s" "valid_utf8 s'"
    for k s s' using both[OF that(1,2)] that(3,4) by (simp add: sem_jstr)
  have int: "n = n'" if "(k, jint n) \<in> set ?m" "(k, jint n') \<in> set ?m'"
      "\<bar>n\<bar> \<le> max_safe_integer" "\<bar>n'\<bar> \<le> max_safe_integer" for k n n'
    using both[OF that(1,2)] that(3,4) assms(2) by (simp add: jint_def f64_exact_def)
  have opt: "(\<exists>v. (k, v) \<in> set ?m) \<longleftrightarrow> (\<exists>v. (k, v) \<in> set ?m')" for k
    using eq[of k] mem mem' by (metis map_of_SomeD map_option_is_None not_None_eq)
  have st: "\<bar>response_status c\<bar> \<le> max_safe_integer" "\<bar>response_status c'\<bar> \<le> max_safe_integer"
    using canonical_payload_Inr(4)[OF c(1)] canonical_payload_Inr(4)[OF c'(1)]
    by (auto simp: status_in_range_def max_safe_integer_def)
  have ch: "valid_utf8 (challenge c)" "valid_utf8 (challenge c')"
    using canonical_payload_Inr(3)[OF c(1)] canonical_payload_Inr(3)[OF c'(1)]
    by (auto intro: valid_utf8_ascii challenge_ascii)
  have ct: "valid_utf8 (response_content_type c)" "valid_utf8 (response_content_type c')"
    using c(2) c'(2) by (simp_all add: texts_valid_def)
  have "challenge c = challenge c'"
    using opt[of "''challenge''"] str[OF _ _ ch, of "''challenge''"]
    by (cases "challenge c = []"; cases "challenge c' = []") (simp_all add: claims_members_optional)
  moreover have "response_status c = response_status c'"
    using opt[of "''response_status''"] int[OF _ _ st, of "''response_status''"]
    by (cases "response_status c = 0"; cases "response_status c' = 0")
      (simp_all add: claims_members_optional)
  moreover have "response_content_type c = response_content_type c'"
    using opt[of "''response_content_type''"] str[OF _ _ ct, of "''response_content_type''"]
    by (cases "response_content_type c = []"; cases "response_content_type c' = []")
      (simp_all add: claims_members_optional)
  moreover have "version c = version c'"
    by (rule str[of "''version''"]) (simp_all add: claims_members_def chk chk')
  moreover have "profile c = profile c'"
    by (rule str[of "''profile''"]) (simp_all add: claims_members_def chk chk')
  moreover have "key_id c = key_id c'"
    by (rule str[of "''key_id''"]) (simp_all add: claims_members_def chk chk')
  moreover have "tls_certificate_sha256 c = tls_certificate_sha256 c'"
    by (rule str[of "''tls_certificate_sha256''"]) (simp_all add: claims_members_def chk chk')
  moreover have "domain c = domain c'"
    by (rule str[of "''domain''"]) (simp_all add: claims_members_def chk chk')
  moreover have "request_path c = request_path c'"
    by (rule str[of "''request_path''"]) (simp_all add: claims_members_def chk chk')
  moreover have "nonce c = nonce c'"
    by (rule str[of "''nonce''"]) (simp_all add: claims_members_def chk chk')
  moreover have "timestamp c = timestamp c'"
    by (rule int[of "''timestamp''"])
      (simp_all add: claims_members_def canonical_payload_Inr(2)[OF c(1)] canonical_payload_Inr(2)[OF c'(1)])
  moreover have "map ?sem req = map ?sem req'" "map ?sem resp = map ?sem resp'"
    using both[of "''request_fields''" "jarr req" "jarr req'"]
      both[of "''response_fields''" "jarr resp" "jarr resp'"]
    by (simp_all add: claims_members_def sem_jarr)
  then have "map (field_sem rt) (request_fields c) = map (field_sem rt) (request_fields c')"
    "map (field_sem rt) (response_fields c) = map (field_sem rt) (response_fields c')"
    using c(2) c'(2) r r'
    by (auto simp: texts_valid_def intro: fields_sem[OF r(1) r'(1)] fields_sem[OF r(2) r'(2)])
  ultimately show ?thesis by (simp add: same_claims_def)
qed

lemma sample_faithful: "jcs_faithful sample_runtime"
  unfolding jcs_faithful_def sample_runtime_def using render_inject by auto

lemma sample_exact: "f64_exact sample_runtime"
proof -
  have "parse_int64 (format_int n) = Some n" if "\<bar>n\<bar> \<le> max_safe_integer" for n
    using that by (intro parse_format_int safe_in_int64)
  then show ?thesis by (simp add: f64_exact_def sample_runtime_def)
qed


definition sample_claims :: "string \<Rightarrow> claims" where
  "sample_claims n = conversation_claims sample_runtime ''key-1'' ''Api.example'' ''AB12'' ''/v1/chat''
     sample_request sample_response 1700000000 n"

definition spaced_claims :: "string \<Rightarrow> claims" where
  "spaced_claims n = (sample_claims n)\<lparr>response_fields := [\<lparr>fname = ''messages'', fvalue = ''[ 2 ]''\<rparr>]\<rparr>"


subsection \<open>Validated fields\<close>

lemma validate_group_Inr:
  "validate_group rt g fs seen = Inr seen' \<Longrightarrow>
     list_all (valid_utf8 \<circ> fname) fs
     \<and> list_all (\<lambda>f. \<not> contains_any (fname f) [CHR '','', CHR 13, CHR 10] \<and> trim_space (fname f) \<noteq> []) fs
     \<and> list_all (\<lambda>f. is_ok (canonicalize_json_value rt (fvalue f))) fs
     \<and> distinct (map fname fs)
     \<and> (\<forall>f \<in> set fs. g @ [CHR 0x00] @ fname f \<notin> set seen)"
proof (induction rt g fs seen rule: validate_group.induct)
  case (2 rt g f fs seen)
  obtain c where c: "canonicalize_json_value rt (fvalue f) = Inr c"
    "validate_group rt g fs ((g @ [CHR 0x00] @ fname f) # seen) = Inr seen'"
    and f: "valid_utf8 (fname f)" "\<not> contains_any (fname f) [CHR '','', CHR 13, CHR 10]"
      "trim_space (fname f) \<noteq> []" "g @ [CHR 0x00] @ fname f \<notin> set seen"
    using "2.prems" by (auto split: if_splits sum.splits)
  have ih: "list_all (valid_utf8 \<circ> fname) fs"
    "list_all (\<lambda>f. \<not> contains_any (fname f) [CHR '','', CHR 13, CHR 10] \<and> trim_space (fname f) \<noteq> []) fs"
    "list_all (\<lambda>f. is_ok (canonicalize_json_value rt (fvalue f))) fs"
    "distinct (map fname fs)"
    "\<forall>f' \<in> set fs. g @ [CHR 0x00] @ fname f' \<notin> set ((g @ [CHR 0x00] @ fname f) # seen)"
    using "2.IH"[OF _ _ c(1,2)] f by (simp_all add: comp_def)
  have "fname f \<notin> fname ` set fs" using ih(5) by auto
  with ih f c(1) show ?case by (simp add: list_all_iff)
qed simp

lemma validate_fields_Inr:
  assumes "validate_fields rt req resp b = Inr ()"
  shows "req \<noteq> []" and "b \<Longrightarrow> resp \<noteq> []"
    and "list_all (valid_utf8 \<circ> fname) req" and "list_all (valid_utf8 \<circ> fname) resp"
    and "distinct (map fname req)" and "distinct (map fname resp)"
    and "\<And>f. f \<in> set req \<union> set resp \<Longrightarrow>
          \<not> contains_any (fname f) [CHR '','', CHR 13, CHR 10] \<and> is_ok (canonicalize_json_value rt (fvalue f))"
proof -
  from assms obtain seen seen' where g: "validate_group rt ''request'' req [] = Inr seen"
    "validate_group rt ''response'' resp seen = Inr seen'" and ne: "req \<noteq> []" "b \<longrightarrow> resp \<noteq> []"
    by (auto simp: validate_fields_def and_then_Inr_iff split: if_splits)
  show "req \<noteq> []" "b \<Longrightarrow> resp \<noteq> []" using ne by simp_all
  note v = validate_group_Inr[OF g(1)] validate_group_Inr[OF g(2)]
  show "list_all (valid_utf8 \<circ> fname) req" "list_all (valid_utf8 \<circ> fname) resp"
    "distinct (map fname req)" "distinct (map fname resp)" using v by blast+
  show "\<not> contains_any (fname f) [CHR '','', CHR 13, CHR 10] \<and> is_ok (canonicalize_json_value rt (fvalue f))"
    if "f \<in> set req \<union> set resp" for f
    using v that unfolding list_all_iff by blast
qed

subsection \<open>Authenticity\<close>

text \<open>\<open>signed_only rt pk S\<close>: signatures under the key verify for payloads of the claims in \<open>S\<close> only.\<close>

definition signed_only :: "('r) runtime_scheme \<Rightarrow> bytes \<Rightarrow> claims set \<Rightarrow> bool" where
  "signed_only rt pk S \<longleftrightarrow>
     (\<forall>m sig. ed_verify rt pk m sig \<longrightarrow> (\<exists>c \<in> S. canonical_payload rt c = Inr m \<and> texts_valid c))"

text \<open>
  C4: Authenticity.  Where signatures cannot be forged, a response that \<open>Verify\<close> accepts was signed:
  the signer issued claims of the conversation profile for this domain, certificate header, path
  and these request and response fields, with the key id, nonce and timestamp in the header, and the
  timestamp is in the window.\<close>

theorem verify_authentic:
  assumes "jcs_faithful rt" and "f64_exact rt" and "signed_only rt pk S"
    and v: "verify rt pk h dmn fp path req resp now max_age = Inr ()"
  shows "\<exists>c \<in> S. profile c = Profile \<and> domain c = to_lower rt dmn \<and> request_path c = path
     \<and> map (field_sem rt) (request_fields c) = map (field_sem rt) req
     \<and> map (field_sem rt) (response_fields c) = map (field_sem rt) resp
     \<and> tls_certificate_sha256 c = to_lower rt (header_get h HeaderCertificateFingerprint)
     \<and> key_id c = header_get h HeaderKeyID \<and> nonce c = header_get h HeaderNonce
     \<and> challenge c = [] \<and> response_status c = 0
     \<and> - 30 * second \<le> time_sub now (time_unix (timestamp c))
     \<and> time_sub now (time_unix (timestamp c)) \<le> max_age"
proof -
  let ?c = "conversation_claims rt (header_get h HeaderKeyID) dmn
              (header_get h HeaderCertificateFingerprint) path req resp"
  from v obtain ts payload sig where p: "canonical_payload rt (?c ts (header_get h HeaderNonce)) = Inr payload"
    and sig: "ed_verify rt pk payload sig" and f: "validate_fields rt req resp True = Inr ()"
    and age: "- 30 * second \<le> time_sub now (time_unix ts)" "time_sub now (time_unix ts) \<le> max_age"
    unfolding verify_Inr_iff by blast
  obtain c where c: "c \<in> S" "canonical_payload rt c = Inr payload" "texts_valid c"
    using assms(3) sig unfolding signed_only_def by blast
  have "texts_valid (?c ts (header_get h HeaderNonce))"
    using validate_fields_Inr(3,4)[OF f] by (simp add: texts_valid_def conversation_claims_def)
  from payload_binds_claims[OF assms(1,2) c(2,3) p this] c(1) age show ?thesis
    by (intro bexI[of _ c]) (simp_all add: same_claims_def conversation_claims_def)
qed

definition strict_runtime :: runtime where
  "strict_runtime = sample_runtime\<lparr>ed_verify := (\<lambda>pk m sig. sig = pk @ m
     \<and> canonical_payload sample_runtime (sample_claims (b64_encode sample_nonce)) = Inr m)\<rparr>"

lemma strict_selectors:
  "jcs strict_runtime = jcs sample_runtime" "f64 strict_runtime = f64 sample_runtime"
  "ed_verify strict_runtime pk m sig \<longleftrightarrow> sig = pk @ m
     \<and> canonical_payload sample_runtime (sample_claims (b64_encode sample_nonce)) = Inr m"
  by (simp_all add: strict_runtime_def)

lemma strict_claims:
  "conversation_claims strict_runtime = conversation_claims sample_runtime"
  "ed_sign strict_runtime (private_key sample_signer) m = sample_public_key @ m"
  by (simp_all add: conversation_claims_def to_lower_def strict_runtime_def sample_runtime_def
      sample_signer_def sample_public_key_def fun_eq_iff)

lemma strict_canonical: "canonical_payload strict_runtime c = canonical_payload sample_runtime c"
  by (simp only: canonical_payload_def strict_selectors)

lemma strict_laws: "jcs_faithful strict_runtime" "f64_exact strict_runtime"
  using sample_faithful sample_exact
  unfolding jcs_faithful_def f64_exact_def strict_selectors(1,2) by - assumption+

lemma strict_signed_only:
  "signed_only strict_runtime sample_public_key {sample_claims (b64_encode sample_nonce)}"
proof -
  have "texts_valid (sample_claims (b64_encode sample_nonce))" by code_simp
  then show ?thesis
    unfolding signed_only_def strict_canonical strict_selectors by blast
qed

theorem verify_authentic_witness:
  "\<exists>c \<in> {sample_claims (b64_encode sample_nonce)}. domain c = ''api.example''
     \<and> map (field_sem strict_runtime) (response_fields c) = map (field_sem strict_runtime) sample_response"
proof -
  have "is_ok (sign strict_runtime sample_signer (1700000000 * second) (Some sample_nonce) no_header
     ''Api.example'' ''AB12'' ''/v1/chat'' sample_request sample_response)"
    by code_simp
  then obtain H where H: "sign strict_runtime sample_signer (1700000000 * second) (Some sample_nonce)
     no_header ''Api.example'' ''AB12'' ''/v1/chat'' sample_request sample_response = Inr H"
    by (auto simp: is_ok_iff)
  have v: "verify strict_runtime sample_public_key H ''Api.example'' ''AB12'' ''/v1/chat''
      sample_request sample_response (1700000100 * second) (300 * second) = Inr ()"
  proof (rule sign_verifies[OF H])
    fix nb p
    assume "Some sample_nonce = Some nb"
      "canonical_payload strict_runtime (conversation_claims strict_runtime (signer_key_id sample_signer)
         ''Api.example'' ''AB12'' ''/v1/chat'' sample_request sample_response
         (unix_seconds (1700000000 * second)) (b64_encode nb)) = Inr p"
    then show "ed_verify strict_runtime sample_public_key p (ed_sign strict_runtime (private_key sample_signer) p)"
      unfolding strict_canonical strict_selectors strict_claims
      by (simp add: sample_claims_def sample_signer_def unix_seconds_def wrap64_def second_def)
  qed (simp_all add: sample_keys byte_def unix_seconds_def wrap64_def second_def int64_max_def)
  have "to_lower strict_runtime ''Api.example'' = ''api.example''" by code_simp
  with verify_authentic[OF strict_laws strict_signed_only v] show ?thesis by auto
qed

definition odd_content_type :: "nat \<Rightarrow> string" where
  "odd_content_type b = ''text/event-stream;x='' @ [char_of b] @ ''y''"


subsection \<open>The header a signature leaves behind\<close>

definition no_break :: "string \<Rightarrow> bool" where
  "no_break v \<longleftrightarrow> \<not> contains_any v [CHR 13, CHR 10]"

lemma no_break_simps [simp]: "no_break []" "no_break (v @ w) \<longleftrightarrow> no_break v \<and> no_break w"
  "no_break (c # v) \<longleftrightarrow> c \<noteq> CHR 13 \<and> c \<noteq> CHR 10 \<and> no_break v"
  by (auto simp: no_break_def contains_any_iff)

lemma no_break_join: "\<forall>p \<in> set ps. no_break p \<Longrightarrow> no_break (join_with '','' ps)"
  by (induction "'',''" ps rule: join_with.induct) simp_all

lemma no_break_valid: "valid_header_value v \<Longrightarrow> no_break v"
  using valid_header_value_no_break[of v] by (auto simp: no_break_def contains_any_iff)

lemma no_break_bytes: "\<forall>c \<in> set v. 33 \<le> byte c \<Longrightarrow> no_break v"
  by (auto simp: no_break_def contains_any_iff byte_def)

lemma no_break_b64: "no_break (b64_encode s)"
  by (rule no_break_bytes)
    (auto dest!: b64_encode_url_safe simp: url_safe_def byte_in_def byte_def)

lemma no_break_int: "no_break (format_int n)"
  by (rule no_break_bytes) (auto dest!: format_int_ascii simp: byte_in_def)

lemma no_break_names:
  "(\<And>f. f \<in> set fs \<Longrightarrow> \<not> contains_any (fname f) [CHR '','', CHR 13, CHR 10]) \<Longrightarrow>
     \<forall>f \<in> set fs. no_break (fname f)"
  by (auto simp: no_break_def contains_any_iff)

lemma model_header_valid: "model_header req = Inr (Some m) \<Longrightarrow> valid_header_value m"
  by (induction req rule: model_header.induct)
    (auto simp: require_Inr_iff split: if_splits sum.splits)

text \<open>
  C21: What \<open>Sign\<close> writes.  A successful call changes no header field but its own, removes the
  three fields of the streaming profile, leaves every one of its fields with at most one value, and
  no value it writes has a line break in it when key id, domain and fingerprint have none: neither
  the request path nor the model name nor a field name can inject a header.\<close>

theorem sign_header_safe:
  assumes "sign rt s now random h dmn fp path req resp = Inr H"
  shows "(\<forall>k. List.member attestation_keys k \<or> H k = h k)
    \<and> H (canonical_key HeaderChallenge) = None \<and> H (canonical_key HeaderResponseStatus) = None
    \<and> H (canonical_key HeaderResponseContentType) = None
    \<and> (no_break (signer_key_id s) \<and> no_break (to_lower rt dmn) \<and> no_break (to_lower rt fp) \<longrightarrow>
        list_all (\<lambda>k. case H k of None \<Rightarrow> True | Some vs \<Rightarrow> length vs = 1 \<and> list_all no_break vs)
          attestation_keys)"
proof -
  obtain m nb payload c where f: "validate_fields rt req resp True = Inr ()" "valid_header_value path"
      "model_header req = Inr m"
    and c: "c = conversation_claims rt (signer_key_id s) dmn fp path req resp (unix_seconds now) (b64_encode nb)"
    and H: "H = signed_header c m (signed_fields req resp) (ed_sign rt (private_key s) payload) h"
    using assms by (auto simp: sign_Inr_iff Let_def)
  note at = signed_header_at[OF disjI1[OF H]] signed_header_absent
  have "no_break (signed_fields req resp)"
    unfolding signed_fields_def
    using no_break_names[of req] no_break_names[of resp] validate_fields_Inr(7)[OF f(1)]
    by (intro no_break_join) (auto simp: base_fields_def)
  moreover have "no_break v" if "m = Some v" for v
    using model_header_valid f(3) that no_break_valid by blast
  ultimately have "list_all (\<lambda>k. case H k of None \<Rightarrow> True | Some vs \<Rightarrow> length vs = 1 \<and> list_all no_break vs)
          attestation_keys"
    if "no_break (signer_key_id s) \<and> no_break (to_lower rt dmn) \<and> no_break (to_lower rt fp)"
    using at that no_break_valid[OF f(2)]
    by (cases m) (simp_all add: attestation_keys_def H c Algorithm_def Profile_def no_break_b64 no_break_int)
  then show ?thesis
    using signed_header_frame[OF disjI1[OF H]] at(12-14)[of c m _ _ h] H by auto
qed

theorem sign_header_safe_witness:
  "\<exists>H. sample_signed = Inr H \<and> H ''Content-Type'' = no_header ''Content-Type''
     \<and> H (canonical_key HeaderChallenge) = None"
proof -
  obtain H where H: "sample_signed = Inr H" using sample_signed_ok by (auto simp: is_ok_iff)
  have "\<not> List.member attestation_keys ''Content-Type''" by code_simp
  with sign_header_safe[OF H[unfolded sample_signed_def]] H show ?thesis by blast
qed

subsection \<open>Challenges, signed fields and key labels\<close>

lemma validate_challenge_iff:
  "validate_challenge ch = Inr () \<longleftrightarrow> 10 \<le> length ch \<and> length ch \<le> 74 \<and> list_all url_safe ch"
proof -
  have u: "challenge_rune (byte c) \<longleftrightarrow> url_safe c" for c
  proof -
    have "byte c = 45 \<longleftrightarrow> c = CHR ''-''" "byte c = 95 \<longleftrightarrow> c = CHR ''_''"
      using byte_inject[of c "CHR ''-''"] byte_inject[of c "CHR ''_''"]
      by (simp_all add: byte_def del: byte_inject)
    then show ?thesis by (auto simp: challenge_rune_def url_safe_def byte_in_def)
  qed
  have "list_all challenge_rune (runes ch) \<longleftrightarrow> (\<forall>c \<in> set ch. challenge_rune (byte c))"
    unfolding list_all_iff by (rule all_runes_ascii) (auto simp: challenge_rune_def)
  then show ?thesis by (auto simp: validate_challenge_def u list_all_iff)
qed

text \<open>
  Challenge syntax.  The rune loop of \<open>ValidateChallenge\<close> accepts exactly the strings of 10 to
  74 bytes all of which are URL-safe; in particular no invalid or multi-byte encoding passes.\<close>

theorem validate_challenge_exact:
  "validate_challenge ch = Inr () \<longleftrightarrow> 10 \<le> length ch \<and> length ch \<le> 74 \<and> list_all url_safe ch"
  by (rule validate_challenge_iff)

lemma join_names_inject:
  assumes "\<forall>p \<in> set ps \<union> set qs. CHR '','' \<notin> set p" and "ps \<noteq> []" and "qs \<noteq> []"
    and "join_with '','' ps = join_with '','' qs"
  shows "ps = qs"
proof -
  have "split_on CHR '','' (join_with '','' ps) = ps"
    by (rule split_join_on[OF assms(2)]) (use assms(1) in blast)
  moreover have "split_on CHR '','' (join_with '','' qs) = qs"
    by (rule split_join_on[OF assms(3)]) (use assms(1) in blast)
  ultimately show ?thesis using assms(4) by metis
qed

lemma prefixed_lists_inject:
  assumes "map (\<lambda>f. ''request.body.'' @ fname f) req @ map (\<lambda>f. ''response.body.'' @ fname f) resp
     = map (\<lambda>f. ''request.body.'' @ fname f) req' @ map (\<lambda>f. ''response.body.'' @ fname f) resp'"
  shows "map fname req = map fname req' \<and> map fname resp = map fname resp'"
  using assms
proof (induction req arbitrary: req')
  case Nil
  show ?case
  proof (cases req')
    case Nil
    with Nil.prems have "map (append ''response.body.'') (map fname resp)
        = map (append ''response.body.'') (map fname resp')" by (simp add: comp_def)
    then show ?thesis using Nil by (simp add: inj_map_eq_map inj_def del: map_map)
  next
    case (Cons g gs)
    with Nil.prems show ?thesis by (cases resp) auto
  qed
next
  case (Cons f fs)
  show ?case
  proof (cases req')
    case Nil
    with Cons.prems show ?thesis by (cases resp') auto
  next
    case (Cons g gs)
    with Cons.prems Cons.IH[of gs] show ?thesis by auto
  qed
qed

text \<open>
  The signed-fields header names the fields.  For fields that passed \<open>validateFields\<close>, equal
  header values mean equal field names in equal order, split alike into request and response.\<close>

theorem signed_fields_inject:
  assumes "validate_fields rt req resp b = Inr ()" and "validate_fields rt req' resp' b' = Inr ()"
    and "signed_fields req resp = signed_fields req' resp'"
  shows "map fname req = map fname req' \<and> map fname resp = map fname resp'"
proof -
  let ?names = "\<lambda>req resp. base_fields @ map (\<lambda>f. ''request.body.'' @ fname f) req
                        @ map (\<lambda>f. ''response.body.'' @ fname f) resp"
  have "?names req resp = ?names req' resp'"
  proof (rule join_names_inject)
    show "\<forall>p \<in> set (?names req resp) \<union> set (?names req' resp'). CHR '','' \<notin> set p"
    proof -
      have n: "CHR '','' \<notin> set (fname f)" if "f \<in> set req \<union> set resp \<union> set req' \<union> set resp'" for f
        using that validate_fields_Inr(7)[OF assms(1), of f] validate_fields_Inr(7)[OF assms(2), of f]
        by (auto simp: contains_any_iff)
      show ?thesis using n by (auto simp: base_fields_def)
    qed
  qed (use assms(3) in \<open>simp_all add: signed_fields_def base_fields_def\<close>)
  then show ?thesis by (intro prefixed_lists_inject) simp
qed

theorem signed_fields_inject_witness:
  "signed_fields sample_request sample_response \<noteq> signed_fields sample_response sample_request"
proof -
  have v: "validate_fields sample_runtime sample_request sample_response True = Inr ()"
    "validate_fields sample_runtime sample_response sample_request True = Inr ()"
    by code_simp+
  show ?thesis
    using signed_fields_inject[OF v] by (auto simp: sample_request_def sample_response_def)
qed

text \<open>
  Key labels.  For a hash of at least 18 bytes the label of a public key has 32 characters, all of
  them URL-safe, and two keys have the same label only if their hashes agree in the first 18 bytes.\<close>

theorem public_key_id_label:
  assumes "\<And>m. 18 \<le> length (sha256 rt m)"
  shows "length (public_key_id rt pk) = 32 \<and> list_all url_safe (public_key_id rt pk)
    \<and> (public_key_id rt pk = public_key_id rt pk' \<longleftrightarrow> take 18 (sha256 rt pk) = take 18 (sha256 rt pk'))"
  using assms[of pk]
  by (auto simp: public_key_id_def length_b64_encode b64_encode_inject list_all_iff url_safe_def
      byte_in_def byte_def dest: b64_encode_url_safe)

theorem public_key_id_label_witness:
  "length (public_key_id sample_runtime sample_public_key) = 32"
  by (rule conjunct1[OF public_key_id_label]) (simp add: sample_runtime_def)

end
