(* ===== verification/ExtractorProps.thy ===== *)
theory ExtractorProps
  imports Extractors AttestationBinding
begin

section \<open>What the extractors guarantee\<close>

text \<open>
  The duplicate-key scan decides uniqueness of the decoded keys; the text of accepted content is
  the concatenation of its blocks, with no block dropped on the request side; the messages that are
  signed are exactly the extracted roles and texts; and only the supported roles get through.
\<close>

subsection \<open>Unique keys\<close>

fun unique_keys :: "json \<Rightarrow> bool" where
  "unique_keys (JArr items) \<longleftrightarrow> list_all (\<lambda>(_, j). unique_keys j) items"
| "unique_keys (JObj ms) \<longleftrightarrow>
     distinct (map (\<lambda>m. unquote (fst m)) ms) \<and> list_all (\<lambda>(_, _, j). unique_keys j) ms"
| "unique_keys (JStr b) \<longleftrightarrow> True"
| "unique_keys JNull \<longleftrightarrow> True"
| "unique_keys (JBool b) \<longleftrightarrow> True"
| "unique_keys (JNum t) \<longleftrightarrow> True"

text \<open>\<open>scans_as ok ts r\<close>: the scan has read what it should and left \<open>ts\<close>, or found a duplicate.\<close>

definition scans_as :: "bool \<Rightarrow> token list \<Rightarrow> (json_error, token list) result \<Rightarrow> bool" where
  "scans_as ok ts r \<longleftrightarrow> (if ok then r = Inr ts else \<exists>k. r = Inl (DuplicateKey k))"

lemma scan_items_tokens:
  assumes "\<And>raw j n ts. (raw, j) \<in> set items \<Longrightarrow> length (tokens_of j) < n
      \<Longrightarrow> scans_as (unique_keys j) ts (scan_json_value n (tokens_of j @ ts))"
    and "Suc (length (concat (map (\<lambda>(_, j). tokens_of j) items))) < n"
  shows "scans_as (list_all (\<lambda>(_, j). unique_keys j) items) (Delim CHR '']'' # ts)
      (scan_items n (concat (map (\<lambda>(_, j). tokens_of j) items) @ Delim CHR '']'' # ts))"
  using assms
proof (induction items arbitrary: n)
  case Nil
  then show ?case by (cases n) (simp_all add: scans_as_def)
next
  case (Cons it items)
  obtain raw j where it: "it = (raw, j)" by (cases it)
  let ?rest = "concat (map (\<lambda>(_, j). tokens_of j) items) @ Delim CHR '']'' # ts"
  obtain m where n: "n = Suc m" using Cons.prems(2) by (cases n) auto
  have pos: "0 < length (tokens_of j)" by (rule tokens_of_Cons[of j]) simp
  have "scans_as (unique_keys j) ?rest (scan_json_value m (tokens_of j @ ?rest))"
    using Cons.prems(2) pos
    by (intro Cons.prems(1)[of raw j]) (simp_all add: it n)
  moreover have "scans_as (list_all (\<lambda>(_, j). unique_keys j) items) (Delim CHR '']'' # ts) (scan_items m ?rest)"
  proof (rule Cons.IH)
    show "scans_as (unique_keys j') ts' (scan_json_value k (tokens_of j' @ ts'))"
      if "(raw', j') \<in> set items" "length (tokens_of j') < k" for raw' j' k ts'
      using that by (intro Cons.prems(1)[of raw' j']) simp_all
    show "Suc (length (concat (map (\<lambda>(_, j). tokens_of j) items))) < m"
      using Cons.prems(2) pos by (cases "tokens_of j") (simp_all add: it n)
  qed
  ultimately show ?case
    by (cases "scan_json_value m (tokens_of j @ ?rest)") (auto simp: n it scans_as_def split: if_splits)
qed

lemma scan_members_tokens:
  assumes "\<And>k raw j n ts. (k, raw, j) \<in> set ms \<Longrightarrow> length (tokens_of j) < n
      \<Longrightarrow> scans_as (unique_keys j) ts (scan_json_value n (tokens_of j @ ts))"
    and "length (concat (map (\<lambda>(k, _, j). Key (unquote k) # tokens_of j) ms)) < n"
  shows "scans_as (distinct (map (\<lambda>m. unquote (fst m)) ms)
        \<and> set (map (\<lambda>m. unquote (fst m)) ms) \<inter> set seen = {} \<and> list_all (\<lambda>(_, _, j). unique_keys j) ms)
      (Delim CHR ''}'' # ts)
      (scan_members n seen (concat (map (\<lambda>(k, _, j). Key (unquote k) # tokens_of j) ms) @ Delim CHR ''}'' # ts))"
  using assms
proof (induction ms arbitrary: n seen)
  case Nil
  then show ?case by (cases n) (simp_all add: scans_as_def)
next
  case (Cons m ms)
  obtain k raw j where m: "m = (k, raw, j)" by (cases m)
  let ?rest = "concat (map (\<lambda>(k, _, j). Key (unquote k) # tokens_of j) ms) @ Delim CHR ''}'' # ts"
  obtain q where n: "n = Suc q" using Cons.prems(2) by (cases n) auto
  have v: "scans_as (unique_keys j) ?rest (scan_json_value q (tokens_of j @ ?rest))"
    using Cons.prems(2) by (intro Cons.prems(1)[of k raw j]) (auto simp: m n)
  have r: "scans_as (distinct (map (\<lambda>m. unquote (fst m)) ms)
        \<and> set (map (\<lambda>m. unquote (fst m)) ms) \<inter> set (unquote k # seen) = {}
        \<and> list_all (\<lambda>(_, _, j). unique_keys j) ms)
      (Delim CHR ''}'' # ts) (scan_members q (unquote k # seen) ?rest)"
  proof (rule Cons.IH)
    show "scans_as (unique_keys j') ts' (scan_json_value i (tokens_of j' @ ts'))"
      if "(k', raw', j') \<in> set ms" "length (tokens_of j') < i" for k' raw' j' i ts'
      using that by (intro Cons.prems(1)[of k' raw' j']) simp_all
    show "length (concat (map (\<lambda>(k, _, j). Key (unquote k) # tokens_of j) ms)) < q"
      using Cons.prems(2) by (simp add: m n)
  qed
  show ?case
  proof (cases "unquote k \<in> set seen")
    case True
    then show ?thesis by (simp add: n m scans_as_def)
  next
    case False
    with v r show ?thesis
      by (cases "scan_json_value q (tokens_of j @ ?rest)") (auto simp: n m scans_as_def split: if_splits)
  qed
qed

text \<open>The scan of the tokens of a value; any fuel above their number is enough.\<close>

lemma scan_tokens:
  "length (tokens_of j) < n \<Longrightarrow> scans_as (unique_keys j) ts (scan_json_value n (tokens_of j @ ts))"
proof (induction j arbitrary: n ts rule: tokens_of.induct)
  case (2 items)
  obtain m where n: "n = Suc m" using 2(2) by (cases n) auto
  have "scans_as (list_all (\<lambda>(_, j). unique_keys j) items) (Delim CHR '']'' # ts)
      (scan_items m (concat (map (\<lambda>(_, j). tokens_of j) items) @ Delim CHR '']'' # ts))"
    using 2(2) by (intro scan_items_tokens 2(1)) (auto simp: n)
  then show ?case by (auto simp: n scans_as_def split: if_splits)
next
  case (3 ms)
  obtain m where n: "n = Suc m" using 3(2) by (cases n) auto
  have "scans_as (distinct (map (\<lambda>m. unquote (fst m)) ms)
        \<and> set (map (\<lambda>m. unquote (fst m)) ms) \<inter> set [] = {} \<and> list_all (\<lambda>(_, _, j). unique_keys j) ms)
      (Delim CHR ''}'' # ts)
      (scan_members m [] (concat (map (\<lambda>(k, _, j). Key (unquote k) # tokens_of j) ms) @ Delim CHR ''}'' # ts))"
    using 3(2) by (intro scan_members_tokens 3(1)) (auto simp: n)
  then show ?case by (auto simp: n scans_as_def split: if_splits)
next
  case (1 b)
  then show ?case by (cases n) (simp_all add: scans_as_def)
next
  case 4
  then show ?case by (cases n) (simp_all add: scans_as_def)
next
  case (5 b)
  then show ?case by (cases n) (simp_all add: scans_as_def)
next
  case (6 t)
  then show ?case by (cases n) (simp_all add: scans_as_def)
qed

lemma validate_unique_json_Inr_iff:
  "validate_unique_json data = Inr () \<longleftrightarrow>
     valid_utf8 data \<and> (\<exists>v. json_parse data = Some v \<and> unique_keys v)"
proof -
  have "and_then (scan_json_value (Suc (length (tokens_of v))) (tokens_of v))
      (\<lambda>ts. require (ts = []) TrailingData (Inr ())) = Inr () \<longleftrightarrow> unique_keys v" for v
    using scan_tokens[of v "Suc (length (tokens_of v))" "[]"] by (auto simp: scans_as_def split: if_splits)
  then show ?thesis
    by (auto simp: validate_unique_json_def require_Inr_iff split: option.splits)
qed


subsection \<open>Content\<close>

definition block_of :: "string \<Rightarrow> content_block \<Rightarrow> bool" where
  "block_of raw b \<longleftrightarrow> decode_json_object decode_block raw zero_block = Inr b"

text \<open>What the block loop returns: all blocks decode, and the texts of the text blocks are joined.\<close>

lemma content_blocks_Inr_iff:
  "content_blocks reject raws acc found = Inr (t, f) \<longleftrightarrow>
     (\<exists>bs. list_all2 block_of raws bs
        \<and> (reject \<longrightarrow> list_all is_text_block bs)
        \<and> list_all (\<lambda>b. block_value b \<noteq> None) (filter is_text_block bs)
        \<and> t = acc @ concat (map (the \<circ> block_value) (filter is_text_block bs))
        \<and> f = (found \<or> filter is_text_block bs \<noteq> []))"
proof (induction raws arbitrary: acc found)
  case Nil
  then show ?case by auto
next
  case (Cons raw raws)
  show ?case
  proof (cases "decode_json_object decode_block raw zero_block")
    case (Inl e)
    then show ?thesis by (simp add: list_all2_Cons1 block_of_def)
  next
    case (Inr b)
    have u: "block_of raw b' \<longleftrightarrow> b' = b" for b' using Inr by (auto simp: block_of_def)
    have ex: "(\<exists>bs. list_all2 block_of (raw # raws) bs \<and> P bs)
        \<longleftrightarrow> (\<exists>bs. list_all2 block_of raws bs \<and> P (b # bs))" for P
      by (auto simp: list_all2_Cons1 u)
    show ?thesis
    proof (cases "is_text_block b")
      case False
      show ?thesis unfolding ex using Cons.IH[of acc found]
        by (cases reject) (simp_all add: Inr False comp_def)
    next
      case True
      show ?thesis unfolding ex
        by (cases "block_value b") (simp_all add: Inr True Cons.IH comp_def)
    qed
  qed
qed

lemma json_parse_head:
  "json_parse (quote # cs) = Some v \<Longrightarrow> \<exists>b. v = JStr b"
  "json_parse (CHR ''['' # cs) = Some v \<Longrightarrow> \<exists>items. v = JArr items"
  by (auto simp: json_parse_def json_decode_def skip_ws_def json_ws_def quote_def
      split: option.splits if_splits list.splits)

lemma canonical_request_message_Inr:
  assumes "canonical_request_message m = Inr tm"
  shows "is_request_role (tm_role tm)" and "tm_role tm = msg_role m"
    and "\<not> raw_json_present (msg_tool_calls m)" and "\<not> raw_json_present (msg_function_call m)"
    and "extract_content_text (msg_content m) True = Inr (tm_text tm, True)"
  using assms
  by (auto simp: canonical_request_message_def require_Inr_iff and_then_Inr_iff split: prod.splits)

lemma canonical_response_message_Inr:
  assumes "canonical_response_message m = Inr tm"
  shows "tm_role tm = ''assistant''" and "msg_role m = ''assistant''"
    and "(msg_refusal m = None \<and> extract_content_text (msg_content m) False = Inr (tm_text tm, True))
      \<or> (msg_refusal m = Some (tm_text tm) \<and> (\<exists>t. extract_content_text (msg_content m) False = Inr (t, False)))"
  using assms
  by (auto simp: canonical_response_message_def require_Inr_iff and_then_Inr_iff
      split: prod.splits option.splits)

text \<open>
  C34: Nothing of a request message is dropped.  If a request message is accepted, it has a
  supported role and no tool or function call, and its text is the string content itself, or the
  concatenation of the texts of all content blocks in order, every one of them being a text block.\<close>

theorem request_message_complete:
  assumes "request_message raw = Inr tm"
  shows "\<exists>m. decode_json_object decode_message raw zero_message = Inr m
    \<and> tm_role tm = msg_role m \<and> is_request_role (msg_role m)
    \<and> \<not> raw_json_present (msg_tool_calls m) \<and> \<not> raw_json_present (msg_function_call m)
    \<and> (case json_parse (trim_space (msg_content m)) of
         Some (JStr b) \<Rightarrow> tm_text tm = unquote b
       | Some (JArr items) \<Rightarrow>
           (\<exists>bs. list_all2 block_of (map fst items) bs \<and> bs \<noteq> [] \<and> list_all is_text_block bs
              \<and> map block_value bs = map (Some \<circ> the \<circ> block_value) bs
              \<and> tm_text tm = concat (map (the \<circ> block_value) bs))
       | _ \<Rightarrow> False)"
proof -
  from assms obtain m where m: "decode_json_object decode_message raw zero_message = Inr m"
    and c: "canonical_request_message m = Inr tm"
    by (auto simp: request_message_def and_then_Inr_iff lift_json_Inr_iff)
  note r = canonical_request_message_Inr[OF c]
  let ?t = "trim_space (msg_content m)"
  have ne: "?t \<noteq> []" "?t \<noteq> ''null''"
    using r(5) by (auto simp: extract_content_text_def Let_def)
  have "case json_parse ?t of
         Some (JStr b) \<Rightarrow> tm_text tm = unquote b
       | Some (JArr items) \<Rightarrow>
           (\<exists>bs. list_all2 block_of (map fst items) bs \<and> bs \<noteq> [] \<and> list_all is_text_block bs
              \<and> map block_value bs = map (Some \<circ> the \<circ> block_value) bs
              \<and> tm_text tm = concat (map (the \<circ> block_value) bs))
       | _ \<Rightarrow> False"
  proof (cases "hd ?t = quote")
    case True
    with r(5) ne have "unmarshal (\<lambda>v. decode_string v []) ?t = Inr (tm_text tm)"
      by (auto simp: extract_content_text_def Let_def and_then_Inr_iff lift_json_Inr_iff)
    moreover obtain cs where "?t = quote # cs" using True ne(1) by (cases ?t) auto
    ultimately show ?thesis
      using json_parse_head(1)[of cs]
      by (auto simp: unmarshal_def decode_string_def split: option.splits)
  next
    case False
    have "hd ?t = CHR ''[''" using r(5) ne False
      by (auto simp: extract_content_text_def Let_def split: if_splits)
    then obtain cs where t: "?t = CHR ''['' # cs" using ne(1) by (cases ?t) auto
    from r(5) ne False obtain raws where raws: "unmarshal decode_raw_slice ?t = Inr raws"
      "content_blocks True raws [] False = Inr (tm_text tm, True)"
      by (auto simp: extract_content_text_def Let_def and_then_Inr_iff lift_json_Inr_iff split: if_splits)
    from raws(2) obtain bs where bs: "list_all2 block_of raws bs" "list_all is_text_block bs"
      "list_all (\<lambda>b. block_value b \<noteq> None) bs" "tm_text tm = concat (map (the \<circ> block_value) bs)" "bs \<noteq> []"
      unfolding content_blocks_Inr_iff by (auto simp: filter_id_conv list_all_iff)
    then have "map block_value bs = map (Some \<circ> the \<circ> block_value) bs" by (auto simp: list_all_iff)
    with bs raws(1) show ?thesis
      using json_parse_head(2)[of cs] unfolding t
      by (auto simp: unmarshal_def decode_raw_slice_def split: option.splits)
  qed
  with m r show ?thesis by auto
qed

definition sample_message :: "string" where
  "sample_message = ''{\"role\":\"user\",\"content\":[{\"type\":\"text\",\"text\":\"a\"},{\"text\":\"b\"}]}''"

theorem request_message_complete_witness:
  "\<exists>m. decode_json_object decode_message sample_message zero_message = Inr m
     \<and> ''user'' = msg_role m \<and> \<not> raw_json_present (msg_tool_calls m)"
proof -
  have "request_message sample_message = Inr \<lparr>tm_role = ''user'', tm_text = ''ab''\<rparr>"
    by code_simp
  from request_message_complete[OF this] show ?thesis by auto
qed

subsection \<open>The signed messages\<close>

text \<open>The JCS library maps an array to an array.\<close>

definition jcs_brackets :: "('r) runtime_scheme \<Rightarrow> bool" where
  "jcs_brackets rt \<longleftrightarrow>
     (\<forall>s w. jcs rt (''['' @ s @ '']'') = Some w \<longrightarrow> (\<exists>c. w = ''['' @ c @ '']''))"

definition texts_utf8 :: "text_message list \<Rightarrow> bool" where
  "texts_utf8 ms \<longleftrightarrow> list_all (\<lambda>m. valid_utf8 (tm_role m) \<and> valid_utf8 (tm_text m)) ms"

lemma wf_messages_json: "wf_json (messages_json ms)"
  by (auto simp: messages_json_def message_json_def list_all_iff wf_jstr intro!: wf_jarr wf_jobj)

lemma sem_message_json:
  assumes "valid_utf8 (tm_role m)" and "valid_utf8 (tm_text m)"
  shows "sem_of g (message_json m)
     = SObj (map_of [(''role'', SStr (tm_role m)), (''text'', SStr (tm_text m))])"
proof -
  have "valid_utf8 ''role''" "valid_utf8 ''text''" by (rule ascii_valid, simp add: byte_def)+
  then show ?thesis using assms by (simp add: message_json_def sem_jobj sem_jstr)
qed

lemma sem_messages_inject:
  assumes "texts_utf8 ms" and "texts_utf8 ms'"
    and "sem_of g (messages_json ms) = sem_of g (messages_json ms')"
  shows "ms = ms'"
proof -
  have "map (\<lambda>m. sem_of g (message_json m)) ms = map (\<lambda>m. sem_of g (message_json m)) ms'"
    using assms(3) by (simp add: messages_json_def sem_jarr comp_def)
  then show ?thesis
    using assms(1,2)
  proof (induction ms arbitrary: ms')
    case (Cons m ms)
    then obtain m' ms0 where ms': "ms' = m' # ms0" by (cases ms') auto
    have eq: "map_of [(''role'', SStr (tm_role m)), (''text'', SStr (tm_text m))]
        = map_of [(''role'', SStr (tm_role m')), (''text'', SStr (tm_text m'))]"
      using Cons.prems sem_message_json[of m g] sem_message_json[of m' g]
      by (simp add: ms' texts_utf8_def)
    have "m = m'"
      using fun_cong[OF eq, of "''role''"] fun_cong[OF eq, of "''text''"]
      by (cases m; cases m') simp
    moreover have "ms = ms0" using Cons ms' by (intro Cons.IH) (simp_all add: texts_utf8_def)
    ultimately show ?case by (simp add: ms')
  qed simp
qed

text \<open>The value of a field made from a tree determines what the tree means.\<close>

lemma new_field_sem:
  assumes "jcs_faithful rt" and "jcs_brackets rt" and "wf_json v" and "wf_json v'"
    and f: "new_field rt name (render v) = Inr f" and f': "new_field rt name' (render v') = Inr f'"
    and eq: "fvalue f = fvalue f'"
  shows "sem_of (f64 rt) v = sem_of (f64 rt) v'"
proof -
  have r: "''['' @ render u @ '']'' = render (jarr [u])" for u by (simp add: jarr_def)
  obtain w where w: "jcs rt (render (jarr [v])) = Some w" "fvalue f = butlast (tl w)"
    using f by (auto simp: new_field_def require_Inr_iff and_then_Inr_iff canonicalize_Inr_iff r [symmetric])
  obtain w' where w': "jcs rt (render (jarr [v'])) = Some w'" "fvalue f' = butlast (tl w')"
    using f' by (auto simp: new_field_def require_Inr_iff and_then_Inr_iff canonicalize_Inr_iff r [symmetric])
  obtain c where c: "w = ''['' @ c @ '']''"
    using assms(2) w(1) unfolding jcs_brackets_def r [symmetric] by blast
  obtain c' where c': "w' = ''['' @ c' @ '']''"
    using assms(2) w'(1) unfolding jcs_brackets_def r [symmetric] by blast
  have "w = w'" using eq w(2) w'(2) by (simp add: c c' butlast_append)
  moreover have "wf_json (jarr [v])" "wf_json (jarr [v'])" using assms(3,4) by (simp_all add: wf_jarr)
  ultimately have "sem_of (f64 rt) (jarr [v]) = sem_of (f64 rt) (jarr [v'])"
    using assms(1) w(1) w'(1) unfolding jcs_faithful_def by blast
  then show ?thesis by (simp add: sem_jarr)
qed


lemma sample_brackets: "jcs_brackets sample_runtime"
  by (simp add: jcs_brackets_def sample_runtime_def)

definition sample_ms :: "string \<Rightarrow> text_message list" where
  "sample_ms t = [\<lparr>tm_role = ''user'', tm_text = t\<rparr>]"


subsection \<open>Member names that differ in case\<close>

definition two_faced_body :: string where
  "two_faced_body = ''{\"model\":\"a\",\"messages\":[{\"role\":\"user\",\"content\":\"x\"}],\"Messages\":[{\"role\":\"user\",\"content\":\"y\"}]}''"

definition exact_member :: "string \<Rightarrow> json option \<Rightarrow> string option" where
  "exact_member k v =
     (case v of
        Some (JObj ms) \<Rightarrow> map_of (map (\<lambda>(k', raw, _). (unquote k', raw)) ms) k
      | _ \<Rightarrow> None)"

text \<open>
  C37: A body with two readings.  The duplicate-key scan compares member names exactly, but the
  struct decoder matches them up to case and the last one wins: for this body it passes the scan,
  the extractor signs the message \<open>y\<close>, and a reader that takes names literally finds \<open>x\<close> under
  \<open>messages\<close>.\<close>

theorem case_variant_members:
  "validate_unique_json two_faced_body = Inr ()
   \<and> extract_openai_chat_request rt two_faced_body path
      = conversation_request_fields rt ''a'' [\<lparr>tm_role = ''user'', tm_text = ''y''\<rparr>]
   \<and> exact_member ''messages'' (json_parse two_faced_body)
      = Some ''[{\"role\":\"user\",\"content\":\"x\"}]''"
proof -
  have scan: "validate_unique_json two_faced_body = Inr ()"
    and mem: "exact_member ''messages'' (json_parse two_faced_body)
      = Some ''[{\"role\":\"user\",\"content\":\"x\"}]''"
    and dec: "decode_json_object decode_request two_faced_body zero_request
      = Inr (zero_request\<lparr>req_model := ''a'',
          req_messages := [''{\"role\":\"user\",\"content\":\"y\"}'']\<rparr>)"
    and msg: "request_message ''{\"role\":\"user\",\"content\":\"y\"}''
      = Inr \<lparr>tm_role = ''user'', tm_text = ''y''\<rparr>"
    by code_simp+
  have "extract_openai_chat_request rt two_faced_body path
      = conversation_request_fields rt ''a'' [\<lparr>tm_role = ''user'', tm_text = ''y''\<rparr>]"
    by (simp add: extract_openai_chat_request_def dec extract_request_messages_def msg request_model_def)
  with scan mem show ?thesis by blast
qed

end
