(* ===== verification/ProxyProps.thy ===== *)
theory ProxyProps
  imports Proxy AttestationBinding ExtractorProps
begin

section \<open>What the proxy handlers guarantee\<close>

text \<open>
  Transparency of the two handlers, the fate of the attestation fields, the acceptance of what the
  proxy signs by the verifiers, and the certificate store.
\<close>

subsection \<open>Bodies\<close>

text \<open>What a reader sees of a body: its bytes and whether a read error ends them.\<close>

definition stream :: "http_body \<Rightarrow> bytes \<times> bool" where
  "stream b = (pending b, fails b)"

text \<open>The limits that leave room for the one byte more the code reads.\<close>

definition limit_ok :: "int \<Rightarrow> bool" where
  "limit_ok n \<longleftrightarrow> 0 < n \<and> n < int64_max"

lemma limit_ok_wrap: "limit_ok n \<Longrightarrow> wrap64 (n + 1) = n + 1"
  by (simp add: limit_ok_def wrap64_def int64_max_def)

lemma read_and_restore_stream:
  assumes "read_and_restore b n = (b', tr, res)" and "limit_ok n"
  shows "stream b' = stream b"
    and "res = Inr (Some d) \<Longrightarrow> pending b' = d \<and> \<not> fails b' \<and> pending b = d \<and> int (length d) \<le> n"
proof -
  have n: "wrap64 (n + 1) = n + 1" "0 < n" using assms(2) by (simp_all add: limit_ok_wrap limit_ok_def)
  have short: "length (pending b) < nat (n + 1)" if "int (length (take (nat (n + 1)) (pending b))) \<le> n"
    using that n(2) by (simp add: min_def split: if_splits)
  show "stream b' = stream b"
    using assms(1) short
    by (auto simp: read_and_restore_def n(1) Let_def stream_def not_less split: if_splits)
  show "pending b' = d \<and> \<not> fails b' \<and> pending b = d \<and> int (length d) \<le> n" if "res = Inr (Some d)"
    using assms(1) short that
    by (auto simp: read_and_restore_def n(1) Let_def not_less split: if_splits)
qed

subsection \<open>The attestation fields of a header\<close>

definition all_attestation_keys :: "string list" where
  "all_attestation_keys = map canonical_key attestation_names"

lemma header_del_all_at:
  "header_del_all ks h k = (if k \<in> canonical_key ` set ks then None else h k)"
  unfolding header_del_all_def by (induction ks arbitrary: h) (auto simp: header_at_del)

lemma cleared_at:
  "clear_attestation_headers h k = (if List.member all_attestation_keys k then None else h k)"
  by (simp add: clear_attestation_headers_def header_del_all_at all_attestation_keys_def)

lemma cleared_content_type:
  "header_get (clear_attestation_headers h) ''Content-Type'' = header_get h ''Content-Type''"
proof -
  have "\<not> List.member all_attestation_keys (canonical_key ''Content-Type'')" by code_simp
  then show ?thesis by (simp add: header_get_def header_values_def cleared_at)
qed

lemma attestation_keys_subset:
  "List.member attestation_keys k \<Longrightarrow> List.member all_attestation_keys k"
  by (auto simp: attestation_keys_def all_attestation_keys_def attestation_names_def)

lemma proof_reference_key: "List.member all_attestation_keys (canonical_key HeaderProofReference)"
  by (simp add: all_attestation_keys_def attestation_names_def)

lemma proof_reference_new: "\<not> List.member attestation_keys (canonical_key HeaderProofReference)"
  by (simp add: attestation_keys_def header_keys)

lemma add_proof_reference_at:
  "k \<noteq> canonical_key HeaderProofReference \<Longrightarrow> add_proof_reference cfg h k = h k"
  by (simp add: add_proof_reference_def header_at_set)

text \<open>The two verifiers read the fields of \<open>attestation_keys\<close> only.\<close>

lemma keys_eq:
  assumes "\<forall>k \<in> set attestation_keys. h k = h' k"
    and "canonical_key n \<in> set attestation_keys"
  shows "header_get h n = header_get h' n" "single_header h n = single_header h' n"
    "has_header h n = has_header h' n"
  using assms by (simp_all add: header_get_def header_values_def single_header_def has_header_def)

lemma attestation_keys_members:
  "canonical_key HeaderAlgorithm \<in> set attestation_keys"
  "canonical_key HeaderProfile \<in> set attestation_keys"
  "canonical_key HeaderKeyID \<in> set attestation_keys"
  "canonical_key HeaderDomain \<in> set attestation_keys"
  "canonical_key HeaderRequestPath \<in> set attestation_keys"
  "canonical_key HeaderModel \<in> set attestation_keys"
  "canonical_key HeaderCertificateFingerprint \<in> set attestation_keys"
  "canonical_key HeaderTimestamp \<in> set attestation_keys"
  "canonical_key HeaderNonce \<in> set attestation_keys"
  "canonical_key HeaderSignedFields \<in> set attestation_keys"
  "canonical_key HeaderSignature \<in> set attestation_keys"
  "canonical_key HeaderChallenge \<in> set attestation_keys"
  "canonical_key HeaderResponseStatus \<in> set attestation_keys"
  "canonical_key HeaderResponseContentType \<in> set attestation_keys"
  by (simp_all add: attestation_keys_def)

lemma verify_reads:
  assumes "\<forall>k \<in> set attestation_keys. h k = h' k"
  shows "verify rt pk h dmn fp p req resp now age = verify rt pk h' dmn fp p req resp now age"
    and "verify_request_upstream rt pk h obs now age = verify_request_upstream rt pk h' obs now age"
proof -
  note get = keys_eq(1)[OF assms] and single = keys_eq(2)[OF assms] and has = keys_eq(3)[OF assms]
  note eqs = attestation_keys_members[THEN get] attestation_keys_members[THEN single]
    attestation_keys_members[THEN has]
  show "verify rt pk h dmn fp p req resp now age = verify rt pk h' dmn fp p req resp now age"
    "verify_request_upstream rt pk h obs now age = verify_request_upstream rt pk h' obs now age"
    unfolding verify_def verify_request_upstream_def check_model_def check_time_def
      check_signature_def eqs by (rule refl)+
qed

text \<open>What both signing profiles leave alone.\<close>

lemma sign_frame:
  assumes "sign rt s now random h dmn fp p req resp = Inr H" and "\<not> List.member attestation_keys k"
  shows "H k = h k"
  using assms signed_header_frame by (fastforce simp: sign_Inr_iff Let_def)

lemma sign_request_upstream_frame:
  assumes "sign_request_upstream rt s now random h obs = Inr H" and "\<not> List.member attestation_keys k"
  shows "H k = h k"
  using assms signed_header_frame by (fastforce simp: sign_request_upstream_Inr_iff Let_def)

lemma sign_profile:
  "sign rt s now random h dmn fp p req resp = Inr H \<Longrightarrow> header_get H HeaderProfile = Profile"
  by (auto simp: sign_Inr_iff Let_def signed_header_get(2)[OF disjI1[OF refl]] conversation_claims_def)

lemma sign_request_upstream_profile:
  "sign_request_upstream rt s now random h obs = Inr H \<Longrightarrow>
     header_get H HeaderProfile = RequestUpstreamProfile"
  by (auto simp: sign_request_upstream_Inr_iff Let_def signed_header_get(2)[OF disjI2[OF refl]]
      upstream_claims_def)

subsection \<open>The request handler\<close>

lemma on_request_message:
  assumes "on_request rt cfg r = (r', st)"
  shows "rq_url r' = rq_url r" and "rq_header r' = header_del (rq_header r) HeaderChallenge"
    and "rq_body r' = rq_body r
      \<or> (\<exists>b. rq_body r = Some b \<and> rq_body r' = Some (fst (read_and_restore b (max_json_bytes cfg))))"
  using assms
  by (auto simp: on_request_def take_challenge_def Let_def
      split: option.splits if_splits prod.splits)

lemma request_state_of_Some:
  assumes "request_state_of rt ru dmn p ch body = Some s"
  obtains ex where "lookup_text_extractor rt (extractor ru) = Some ex"
    and "extract_request ex body p = Inr (st_request_fields s)" and "st_extractor s = ex"
    and "st_domain s = dmn" and "st_path s = p"
    and "st_streaming_fields s = [] \<or> ch = Some (st_challenge s)
      \<and> append_streaming_request_field rt body (st_request_fields s) = Inr (st_streaming_fields s)"
  using assms
  by (auto simp: request_state_of_def Let_def split: option.splits sum.splits)

lemma on_request_Some:
  assumes "on_request rt cfg r = (r', Some s)"
  obtains ru b b' tr body where "match_path (cfg_rules cfg) (url_path (rq_url r)) = Some ru"
    and "rq_body r = Some b" and "read_and_restore b (max_json_bytes cfg) = (b', tr, Inr (Some body))"
    and "rq_body r' = Some b'"
    and "request_state_of rt ru (to_lower rt (host_name (url_host (rq_url r)))) (url_path (rq_url r))
           (snd (take_challenge (rq_header r))) body = Some s"
  using assms
  by (auto simp: on_request_def take_challenge_def Let_def
      split: option.splits if_splits prod.splits sum.splits)

text \<open>
  C17: The request handler is transparent.  Whatever it decides about signing, the request goes on
  with the same URL and the same header but for the challenge, which is always removed; and the
  upstream reads the same bytes, and meets the same read error, as if the proxy had not looked at
  the body.  The limit must leave room for the byte the code reads beyond it.\<close>

theorem request_transparent:
  assumes "limit_ok (max_json_bytes cfg)" and "on_request rt cfg r = (r', st)"
  shows "rq_url r' = rq_url r \<and> header_values (rq_header r') HeaderChallenge = []
    \<and> (\<forall>k. k = canonical_key HeaderChallenge \<or> rq_header r' k = rq_header r k)
    \<and> map_option stream (rq_body r') = map_option stream (rq_body r)"
proof -
  note m = on_request_message[OF assms(2)]
  have "stream (fst (read_and_restore b (max_json_bytes cfg))) = stream b" for b
    using read_and_restore_stream(1)[OF _ assms(1)] by (metis prod_cases3 fst_conv)
  then have "map_option stream (rq_body r') = map_option stream (rq_body r)" using m(3) by auto
  then show ?thesis by (auto simp: m(1,2) hdr.field_del header_at_del)
qed

subsection \<open>The response handler\<close>

text \<open>The two ways a response is changed behind the clearing of its fields.\<close>

lemma sign_streaming_cases:
  assumes "sign_streaming rt cfg now random s fp media r = r'"
  shows "r' = r \<or> (\<exists>h. sign_request_upstream rt (cfg_signer cfg) now random (rp_header r)
           \<lparr>obs_domain = st_domain s, obs_fingerprint = fp, obs_path = st_path s,
            obs_fields = st_streaming_fields s, obs_challenge = st_challenge s,
            obs_status = rp_status r, obs_content_type = media\<rparr> = Inr h
         \<and> st_challenge s \<noteq> [] \<and> st_streaming_fields s \<noteq> []
         \<and> r' = r\<lparr>rp_header := add_proof_reference cfg h\<rparr>)"
  using assms by (auto simp: sign_streaming_def split: if_splits sum.splits)

lemma sign_json_cases:
  assumes "sign_json rt cfg now random s fp b r = r'"
    and "read_and_restore b (max_json_bytes cfg) = (b', tr, res)"
  shows "r' = r\<lparr>rp_body := Some b', rp_trailer := rp_trailer r ++ tr\<rparr>
    \<or> (\<exists>body fs h. res = Inr (Some body) \<and> extract_response (st_extractor s) body = Inr fs
         \<and> sign rt (cfg_signer cfg) now random (rp_header r) (st_domain s) fp (st_path s)
             (st_request_fields s) fs = Inr h
         \<and> r' = r\<lparr>rp_body := Some b', rp_trailer := rp_trailer r ++ tr,
                 rp_header := add_proof_reference cfg h\<rparr>)"
  using assms
  by (auto simp: sign_json_def Let_def split: sum.splits option.splits)

text \<open>What the handler signed, if it signed anything: the whole case analysis of \<open>on_response\<close>.\<close>

definition signed_json ::
  "('r) runtime_scheme \<Rightarrow> config \<Rightarrow> int \<Rightarrow> bytes option \<Rightarrow> request_state \<Rightarrow> bytes \<Rightarrow> bytes
     \<Rightarrow> header \<Rightarrow> header \<Rightarrow> att_field list \<Rightarrow> bool" where
  "signed_json rt cfg now random s leaf body h H fs \<longleftrightarrow>
     extract_response (st_extractor s) body = Inr fs
     \<and> (\<exists>h1. sign rt (cfg_signer cfg) now random (clear_attestation_headers h) (st_domain s)
               (hex_encode (sha256 rt leaf)) (st_path s) (st_request_fields s) fs = Inr h1
            \<and> H = add_proof_reference cfg h1)"

definition upstream_observation ::
  "('r) runtime_scheme \<Rightarrow> request_state \<Rightarrow> bytes \<Rightarrow> int \<Rightarrow> string \<Rightarrow> observation" where
  "upstream_observation rt s leaf status media =
     \<lparr>obs_domain = st_domain s, obs_fingerprint = hex_encode (sha256 rt leaf), obs_path = st_path s,
      obs_fields = st_streaming_fields s, obs_challenge = st_challenge s, obs_status = status,
      obs_content_type = media\<rparr>"

definition signed_upstream ::
  "('r) runtime_scheme \<Rightarrow> config \<Rightarrow> int \<Rightarrow> bytes option \<Rightarrow> observation \<Rightarrow> header \<Rightarrow> header \<Rightarrow> bool" where
  "signed_upstream rt cfg now random obs h H \<longleftrightarrow>
     obs_challenge obs \<noteq> [] \<and> obs_fields obs \<noteq> []
     \<and> (\<exists>h1. sign_request_upstream rt (cfg_signer cfg) now random (clear_attestation_headers h) obs
               = Inr h1
            \<and> H = add_proof_reference cfg h1)"

definition signed_by_proxy ::
  "('r) runtime_scheme \<Rightarrow> config \<Rightarrow> int \<Rightarrow> bytes option \<Rightarrow> request_state \<Rightarrow> bytes \<Rightarrow> http_body
     \<Rightarrow> http_response \<Rightarrow> header \<Rightarrow> bool" where
  "signed_by_proxy rt cfg now random s leaf b r H \<longleftrightarrow>
     (\<exists>fs. \<not> fails b \<and> signed_json rt cfg now random s leaf (pending b) (rp_header r) H fs)
     \<or> (\<exists>media. streaming_content_type rt (header_get (rp_header r) ''Content-Type'') = Some media
          \<and> signed_upstream rt cfg now random (upstream_observation rt s leaf (rp_status r) media)
              (rp_header r) H)"

lemma on_response_cases:
  assumes "on_response rt cfg now random st (Some r) = Some r'" and "limit_ok (max_json_bytes cfg)"
  shows "rp_status r' = rp_status r \<and> rp_tls r' = rp_tls r
    \<and> map_option stream (rp_body r') = map_option stream (rp_body r)
    \<and> (rp_header r' = clear_attestation_headers (rp_header r)
       \<or> (\<exists>s leaf b'. st = Some s \<and> verified_leaf (rp_tls r) = Some leaf \<and> rp_body r' = Some b'
            \<and> signed_by_proxy rt cfg now random s leaf b' r (rp_header r')))"
proof -
  let ?r1 = "r\<lparr>rp_header := clear_attestation_headers (rp_header r),
               rp_trailer := clear_attestation_headers (rp_trailer r)\<rparr>"
  consider (plain) "r' = ?r1"
    | (streaming) s b leaf media where "st = Some s" "rp_body r = Some b"
        "verified_leaf (rp_tls r) = Some leaf"
        "streaming_content_type rt (header_get (rp_header r) ''Content-Type'') = Some media"
        "sign_streaming rt cfg now random s (hex_encode (sha256 rt leaf)) media ?r1 = r'"
    | (json) s b leaf where "st = Some s" "rp_body r = Some b"
        "verified_leaf (rp_tls r) = Some leaf"
        "sign_json rt cfg now random s (hex_encode (sha256 rt leaf)) b ?r1 = r'"
    using assms(1)
    by (auto simp: on_response_def Let_def cleared_content_type split: option.splits if_splits)
  then show ?thesis
  proof cases
    case plain
    then show ?thesis by simp
  next
    case streaming
    let ?obs = "upstream_observation rt s leaf (rp_status r) media"
    from sign_streaming_cases[OF streaming(5)] consider "r' = ?r1"
      | h where "sign_request_upstream rt (cfg_signer cfg) now random
            (clear_attestation_headers (rp_header r)) ?obs = Inr h"
          "st_challenge s \<noteq> []" "st_streaming_fields s \<noteq> []"
          "r' = ?r1\<lparr>rp_header := add_proof_reference cfg h\<rparr>"
      by (auto simp: upstream_observation_def)
    then show ?thesis
    proof cases
      case 2
      then have "signed_upstream rt cfg now random ?obs (rp_header r) (rp_header r')"
        by (auto simp: signed_upstream_def upstream_observation_def)
      then have "signed_by_proxy rt cfg now random s leaf b r (rp_header r')"
        using streaming(4) by (auto simp: signed_by_proxy_def)
      moreover have "rp_status r' = rp_status r" "rp_tls r' = rp_tls r" "rp_body r' = rp_body r"
        by (simp_all add: 2(4))
      ultimately show ?thesis
        using streaming(1-3) by (intro conjI disjI2 exI[of _ s] exI[of _ leaf] exI[of _ b]) simp_all
    qed simp
  next
    case json
    obtain b' tr res where rr: "read_and_restore b (max_json_bytes cfg) = (b', tr, res)"
      by (metis prod_cases3)
    note str = read_and_restore_stream[OF rr assms(2)]
    let ?r2 = "?r1\<lparr>rp_body := Some b', rp_trailer := rp_trailer ?r1 ++ tr\<rparr>"
    from sign_json_cases[OF json(4) rr] consider "r' = ?r2"
      | body fs h where "res = Inr (Some body)" "extract_response (st_extractor s) body = Inr fs"
          "sign rt (cfg_signer cfg) now random (clear_attestation_headers (rp_header r)) (st_domain s)
             (hex_encode (sha256 rt leaf)) (st_path s) (st_request_fields s) fs = Inr h"
          "r' = ?r2\<lparr>rp_header := add_proof_reference cfg h\<rparr>"
      by auto
    then show ?thesis
    proof cases
      case 1
      then show ?thesis using str(1) json(2) by simp
    next
      case 2
      have "pending b' = body" "\<not> fails b'" using str(2)[OF 2(1)] by simp_all
      with 2(2-4) have "signed_by_proxy rt cfg now random s leaf b' r (rp_header r')"
        by (auto simp: signed_by_proxy_def signed_json_def)
      moreover have "rp_status r' = rp_status r" "rp_tls r' = rp_tls r" "rp_body r' = Some b'"
        by (simp_all add: 2(4))
      ultimately show ?thesis using json(1-3) str(1)
        by (intro conjI disjI2 exI[of _ s] exI[of _ leaf] exI[of _ b']) simp_all
    qed
  qed
qed

lemma add_proof_reference_reads:
  "\<forall>k \<in> set attestation_keys. add_proof_reference cfg h k = h k"
  using add_proof_reference_at proof_reference_new by (metis List.member_iff)

lemma signed_frame:
  assumes "signed_by_proxy rt cfg now random s leaf b r H" and "\<not> List.member all_attestation_keys k"
  shows "H k = rp_header r k"
proof -
  have k: "\<not> List.member attestation_keys k" "k \<noteq> canonical_key HeaderProofReference"
    using assms(2) attestation_keys_subset proof_reference_key by blast+
  obtain h1 where "H = add_proof_reference cfg h1" and "h1 k = clear_attestation_headers (rp_header r) k"
    using assms(1) k(1) unfolding signed_by_proxy_def signed_json_def signed_upstream_def
    by (blast dest: sign_frame sign_request_upstream_frame)
  then show ?thesis using assms(2) by (simp add: cleared_at add_proof_reference_at[OF k(2)])
qed


subsection \<open>End to end\<close>

lemma profile_of_signed:
  "signed_json rt cfg now random s leaf body h H fs \<Longrightarrow> header_get H HeaderProfile = Profile"
  "signed_upstream rt cfg now random obs h H \<Longrightarrow> header_get H HeaderProfile = RequestUpstreamProfile"
  using keys_eq(1)[OF add_proof_reference_reads attestation_keys_members(2)]
  by (auto simp: signed_json_def signed_upstream_def sign_profile sign_request_upstream_profile)

lemma profile_of_cleared: "header_get (clear_attestation_headers h) HeaderProfile = []"
  using attestation_keys_members(2) attestation_keys_subset[of "canonical_key HeaderProfile"]
  by (simp add: header_get_def header_values_def cleared_at)

lemma profiles_differ: "Profile \<noteq> RequestUpstreamProfile" "Profile \<noteq> []" "RequestUpstreamProfile \<noteq> []"
  by (simp_all add: Profile_def RequestUpstreamProfile_def)

lemma to_lower_ascii: "is_ascii s \<Longrightarrow> is_ascii (to_lower u s)" "to_lower u s = [] \<longleftrightarrow> s = [] \<or> \<not> is_ascii s \<and> table_lower u s = []"
  by (auto simp: to_lower_def)

lemma json_exchange_reference:
  assumes "limit_ok (max_json_bytes cfg)" and "proof_reference cfg \<noteq> []"
    and "on_response rt cfg t0 random (Some s) (Some r) = Some r'"
    and "header_get (rp_header r') HeaderProfile = Profile"
  shows "header_get (rp_header r') HeaderProofReference = proof_reference cfg"
proof -
  from on_response_cases[OF assms(3,1)] obtain leaf fs and received :: http_body where
    "signed_json rt cfg t0 random s leaf (pending received) (rp_header r) (rp_header r') fs"
    using assms(4) profiles_differ
    by (auto simp: signed_by_proxy_def profile_of_cleared dest: profile_of_signed(2))
  then obtain h1 where "rp_header r' = add_proof_reference cfg h1" by (auto simp: signed_json_def)
  then show ?thesis using assms(2) by (simp add: add_proof_reference_def header_get_set)
qed

lemma json_exchange_verifies:
  assumes "limit_ok (max_json_bytes cfg)"
    and "on_request rt cfg rq = (rq', Some s)"
    and "on_response rt cfg t0 random (Some s) (Some r) = Some r'"
    and "header_get (rp_header r') HeaderProfile = Profile"
    and "\<And>m. ed_verify rt pk m (ed_sign rt (private_key (cfg_signer cfg)) m)" and "length pk = 32"
    and "host_name (url_host (rq_url rq)) \<noteq> []" and "is_ascii (host_name (url_host (rq_url rq)))"
    and "- 30 * second \<le> now - unix_seconds t0 * second"
    and "now - unix_seconds t0 * second \<le> max_age" and "max_age \<le> int64_max"
  shows "\<exists>ru ex sent leaf received fs gs.
     match_path (cfg_rules cfg) (url_path (rq_url rq)) = Some ru
     \<and> lookup_text_extractor rt (extractor ru) = Some ex
     \<and> rq_body rq' = Some sent \<and> extract_request ex (pending sent) (url_path (rq_url rq)) = Inr fs
     \<and> verified_leaf (rp_tls r) = Some leaf
     \<and> rp_body r' = Some received \<and> \<not> fails received
     \<and> extract_response ex (pending received) = Inr gs
     \<and> verify rt pk (rp_header r') (to_lower rt (host_name (url_host (rq_url rq))))
         (hex_encode (sha256 rt leaf)) (url_path (rq_url rq)) fs gs now max_age = Inr ()"
proof -
  obtain ru b b' tr body where ru: "match_path (cfg_rules cfg) (url_path (rq_url rq)) = Some ru"
    and rr: "read_and_restore b (max_json_bytes cfg) = (b', tr, Inr (Some body))"
    and sent: "rq_body rq' = Some b'"
    and so: "request_state_of rt ru (to_lower rt (host_name (url_host (rq_url rq)))) (url_path (rq_url rq))
           (snd (take_challenge (rq_header rq))) body = Some s"
    by (rule on_request_Some[OF assms(2)])
  note pend = read_and_restore_stream(2)[OF rr assms(1) refl]
  obtain ex where ex: "lookup_text_extractor rt (extractor ru) = Some ex"
    "extract_request ex body (url_path (rq_url rq)) = Inr (st_request_fields s)" "st_extractor s = ex"
    "st_domain s = to_lower rt (host_name (url_host (rq_url rq)))" "st_path s = url_path (rq_url rq)"
    using so by (rule request_state_of_Some)
  from on_response_cases[OF assms(3,1)] obtain leaf received fs where
    leaf: "verified_leaf (rp_tls r) = Some leaf" and body: "rp_body r' = Some received"
    and sgn: "\<not> fails received" "signed_json rt cfg t0 random s leaf (pending received) (rp_header r) (rp_header r') fs"
    using assms(4) profiles_differ
    by (auto simp: signed_by_proxy_def profile_of_cleared dest: profile_of_signed(2))
  from sgn(2) obtain h1 where h1: "sign rt (cfg_signer cfg) t0 random
      (clear_attestation_headers (rp_header r)) (st_domain s) (hex_encode (sha256 rt leaf)) (st_path s)
      (st_request_fields s) fs = Inr h1" and H: "rp_header r' = add_proof_reference cfg h1"
    and gs: "extract_response ex (pending received) = Inr fs"
    by (auto simp: signed_json_def ex(3))
  have "verify rt pk h1 (st_domain s) (hex_encode (sha256 rt leaf)) (st_path s) (st_request_fields s)
      fs now max_age = Inr ()"
    using assms(7,8) by (intro sign_verifies[OF h1 assms(5,6) _ _ _ assms(9-11)])
      (simp_all add: ex(4) to_lower_ascii hex_encode_ascii)
  then have "verify rt pk (rp_header r') (st_domain s) (hex_encode (sha256 rt leaf)) (st_path s)
      (st_request_fields s) fs now max_age = Inr ()"
    unfolding H by (subst verify_reads(1)[OF add_proof_reference_reads])
  then show ?thesis using ru ex pend sent leaf body sgn(1) gs by auto
qed

text \<open>
  C3: What the proxy signs for a JSON exchange, the client accepts.  When the response carries the
  conversation profile, then the client that extracts the request fields from the body the upstream
  was sent and the response fields from the body it received, with the extractor of the matching
  rule, verifies the header successfully against the requested host, the fingerprint of the verified
  leaf certificate and the request path.  Signature scheme, clocks and an ASCII host are the
  hypotheses.\<close>

theorem proxied_json_verifies:
  assumes "limit_ok (max_json_bytes cfg)"
    and "on_request rt cfg rq = (rq', Some s)"
    and "on_response rt cfg t0 random (Some s) (Some r) = Some r'"
    and "header_get (rp_header r') HeaderProfile = Profile"
    and "\<And>m. ed_verify rt pk m (ed_sign rt (private_key (cfg_signer cfg)) m)" and "length pk = 32"
    and "host_name (url_host (rq_url rq)) \<noteq> []" and "is_ascii (host_name (url_host (rq_url rq)))"
    and "- 30 * second \<le> now - unix_seconds t0 * second"
    and "now - unix_seconds t0 * second \<le> max_age" and "max_age \<le> int64_max"
  shows "\<exists>ru ex sent leaf received fs gs.
     match_path (cfg_rules cfg) (url_path (rq_url rq)) = Some ru
     \<and> lookup_text_extractor rt (extractor ru) = Some ex
     \<and> rq_body rq' = Some sent \<and> extract_request ex (pending sent) (url_path (rq_url rq)) = Inr fs
     \<and> verified_leaf (rp_tls r) = Some leaf
     \<and> rp_body r' = Some received \<and> \<not> fails received
     \<and> extract_response ex (pending received) = Inr gs
     \<and> verify rt pk (rp_header r') (to_lower rt (host_name (url_host (rq_url rq))))
         (hex_encode (sha256 rt leaf)) (url_path (rq_url rq)) fs gs now max_age = Inr ()"
  using assms by (rule json_exchange_verifies)

text \<open>
  C11: What the proxy signs for a streaming exchange, the client accepts.  A response with the
  streaming profile answers a request that carried exactly one challenge, a valid one, and asked
  for a stream; its body goes on unread; and the client that rebuilds the observation from the body
  the upstream was sent, its own challenge, the status and the media type verifies the header.\<close>

theorem proxied_stream_verifies:
  assumes "limit_ok (max_json_bytes cfg)"
    and "on_request rt cfg rq = (rq', Some s)"
    and "on_response rt cfg t0 random (Some s) (Some r) = Some r'"
    and "header_get (rp_header r') HeaderProfile = RequestUpstreamProfile"
    and "\<And>m. ed_verify rt pk m (ed_sign rt (private_key (cfg_signer cfg)) m)" and "length pk = 32"
    and "host_name (url_host (rq_url rq)) \<noteq> []" and "is_ascii (host_name (url_host (rq_url rq)))"
    and "- 30 * second \<le> now - unix_seconds t0 * second"
    and "now - unix_seconds t0 * second \<le> max_age" and "max_age \<le> int64_max"
  shows "\<exists>ru ex sent leaf ch media fs sfs.
     match_path (cfg_rules cfg) (url_path (rq_url rq)) = Some ru
     \<and> lookup_text_extractor rt (extractor ru) = Some ex
     \<and> rq_body rq' = Some sent \<and> extract_request ex (pending sent) (url_path (rq_url rq)) = Inr fs
     \<and> append_streaming_request_field rt (pending sent) fs = Inr sfs
     \<and> header_values (rq_header rq) HeaderChallenge = [ch] \<and> validate_challenge ch = Inr ()
     \<and> verified_leaf (rp_tls r) = Some leaf
     \<and> streaming_content_type rt (header_get (rp_header r) ''Content-Type'') = Some media
     \<and> verify_request_upstream rt pk (rp_header r')
         \<lparr>obs_domain = to_lower rt (host_name (url_host (rq_url rq))),
          obs_fingerprint = hex_encode (sha256 rt leaf), obs_path = url_path (rq_url rq),
          obs_fields = sfs, obs_challenge = ch, obs_status = rp_status r', obs_content_type = media\<rparr>
         now max_age = Inr ()"
proof -
  obtain ru b b' tr body where ru: "match_path (cfg_rules cfg) (url_path (rq_url rq)) = Some ru"
    and rr: "read_and_restore b (max_json_bytes cfg) = (b', tr, Inr (Some body))"
    and sent: "rq_body rq' = Some b'"
    and so: "request_state_of rt ru (to_lower rt (host_name (url_host (rq_url rq)))) (url_path (rq_url rq))
           (snd (take_challenge (rq_header rq))) body = Some s"
    by (rule on_request_Some[OF assms(2)])
  note pend = read_and_restore_stream(2)[OF rr assms(1) refl]
  obtain ex where ex: "lookup_text_extractor rt (extractor ru) = Some ex"
    "extract_request ex body (url_path (rq_url rq)) = Inr (st_request_fields s)"
    "st_domain s = to_lower rt (host_name (url_host (rq_url rq)))" "st_path s = url_path (rq_url rq)"
    and str: "st_streaming_fields s = [] \<or> snd (take_challenge (rq_header rq)) = Some (st_challenge s)
      \<and> append_streaming_request_field rt body (st_request_fields s) = Inr (st_streaming_fields s)"
    using so by (rule request_state_of_Some)
  from on_response_cases[OF assms(3,1)] obtain leaf media where
    leaf: "verified_leaf (rp_tls r) = Some leaf" and status: "rp_status r' = rp_status r"
    and media: "streaming_content_type rt (header_get (rp_header r) ''Content-Type'') = Some media"
    and sgn: "signed_upstream rt cfg t0 random (upstream_observation rt s leaf (rp_status r) media)
      (rp_header r) (rp_header r')"
    using assms(4) profiles_differ
    by (auto simp: signed_by_proxy_def profile_of_cleared dest: profile_of_signed(1))
  let ?obs = "upstream_observation rt s leaf (rp_status r) media"
  from sgn obtain h1 where h1: "sign_request_upstream rt (cfg_signer cfg) t0 random
      (clear_attestation_headers (rp_header r)) ?obs = Inr h1"
    and H: "rp_header r' = add_proof_reference cfg h1" and "obs_fields ?obs \<noteq> []"
    by (auto simp: signed_upstream_def)
  then have ch: "snd (take_challenge (rq_header rq)) = Some (st_challenge s)"
    and app: "append_streaming_request_field rt body (st_request_fields s) = Inr (st_streaming_fields s)"
    using str by (simp_all add: upstream_observation_def)
  from ch have "header_values (rq_header rq) HeaderChallenge = [st_challenge s]"
    "validate_challenge (st_challenge s) = Inr ()"
    by (auto simp: take_challenge_def split: list.splits if_splits)
  moreover have "verify_request_upstream rt pk h1 ?obs now max_age = Inr ()"
    using assms(7,8) by (intro sign_upstream_verifies[OF h1 assms(5,6) _ _ _ assms(9-11)])
      (simp_all add: upstream_observation_def ex(3) to_lower_ascii hex_encode_ascii)
  then have "verify_request_upstream rt pk (rp_header r') ?obs now max_age = Inr ()"
    unfolding H by (subst verify_reads(2)[OF add_proof_reference_reads])
  ultimately show ?thesis
    using ru ex pend sent leaf media app unfolding status upstream_observation_def by auto
qed

subsection \<open>Two defects\<close>

text \<open>
  C38: With the largest limit the request body is lost.  The command line accepts every positive
  limit; at the largest 64-bit integer the sum of the limit and one wraps around, nothing is read,
  and the body that goes on to the upstream is empty.\<close>

theorem largest_limit_drops_body:
  assumes "max_json_bytes cfg = int64_max" and "rq_body r = Some b" and "pending b \<noteq> []"
    and "match_path (cfg_rules cfg) (url_path (rq_url r)) \<noteq> None"
    and "is_json rt (header_get (rq_header r) ''Content-Type'')"
  shows "\<exists>b'. rq_body (fst (on_request rt cfg r)) = Some b' \<and> pending b' = []"
proof -
  have "header_get (header_del (rq_header r) HeaderChallenge) ''Content-Type''
      = header_get (rq_header r) ''Content-Type''"
  proof -
    have "canonical_key HeaderChallenge \<noteq> canonical_key ''Content-Type''" by code_simp
    then show ?thesis by (simp add: header_get_del)
  qed
  moreover have "fst (read_and_restore b int64_max) =
      \<lparr>pending = [], fails = False, close_fails = False, late_trailer = \<lambda>_. None\<rparr>"
    by (simp add: read_and_restore_def wrap64_def int64_max_def Let_def)
  ultimately show ?thesis
    using assms by (auto simp: on_request_def take_challenge_def Let_def split: prod.splits)
qed

text \<open>
  Attestation fields in a trailer survive.  The handler clears the trailer before it reads the
  body, and reading a JSON body to its end is what delivers the upstream's trailer: whatever
  attestation field the upstream sends there goes on.\<close>

theorem late_trailer_survives:
  assumes "limit_ok (max_json_bytes cfg)"
    and "on_response rt cfg now random (Some s) (Some r) = Some r'"
    and "rp_body r = Some b" and "verified_leaf (rp_tls r) = Some leaf"
    and "is_json rt (header_get (rp_header r) ''Content-Type'')"
    and "int (length (pending b)) \<le> max_json_bytes cfg" and "\<not> fails b"
    and "late_trailer b (canonical_key HeaderSignature) = Some forged"
  shows "rp_trailer r' (canonical_key HeaderSignature) = Some forged"
proof -
  have ns: "streaming_content_type rt (header_get (rp_header r) ''Content-Type'') = None"
    using assms(5)
    by (auto simp: streaming_content_type_def is_json_def has_suffix_def split: option.splits)
  have rr: "fst (snd (read_and_restore b (max_json_bytes cfg))) = late_trailer b"
    using assms(6,7) limit_ok_wrap[OF assms(1)]
    by (simp add: read_and_restore_def Let_def nat_less_iff zless_nat_eq_int_zless)
  let ?r1 = "r\<lparr>rp_header := clear_attestation_headers (rp_header r),
               rp_trailer := clear_attestation_headers (rp_trailer r)\<rparr>"
  obtain b' tr res where b': "read_and_restore b (max_json_bytes cfg) = (b', tr, res)"
    by (metis prod_cases3)
  have "r' = sign_json rt cfg now random s (hex_encode (sha256 rt leaf)) b ?r1"
    using assms(2-5) ns by (simp add: on_response_def Let_def cleared_content_type)
  from sign_json_cases[OF this[symmetric] b']
  have "rp_trailer r' = rp_trailer ?r1 ++ tr" by auto
  then show ?thesis using rr b' assms(8) by simp
qed

subsection \<open>The certificate store\<close>

lemma fetch_all_known:
  assumes "certs h = Some c"
  shows "\<exists>n. filter (\<lambda>e. fst e = h) (fetch_all certs calls) = replicate n (h, False, Inr c)"
  using assms
proof (induction certs calls rule: fetch_all.induct)
  case (2 certs hostname g calls)
  obtain certs' called res where f: "fetch certs hostname g = (certs', called, res)"
    by (metis prod_cases3)
  then have known: "certs' h = Some c" and new: "hostname = h \<Longrightarrow> called = False \<and> res = Inr c"
    using 2(2) by (auto simp: fetch_def split: option.splits sum.splits)
  from "2.IH"[OF f[symmetric] refl known] obtain n where
    "filter (\<lambda>e. fst e = h) (fetch_all certs' calls) = replicate n (h, False, Inr c)" by blast
  then show ?case using f new by (auto intro: exI[of _ n] exI[of _ "Suc n"])
qed simp

text \<open>
  One certificate per host.  In any run of \<open>Fetch\<close> calls on an empty store the calls for a host
  are failures of the generator, then at most one call whose generator succeeded, and from then on
  calls that return its certificate without generating again.\<close>

theorem fetch_generates_once:
  "\<exists>errors calls_after. filter (\<lambda>e. fst e = h) (fetch_all Map.empty calls)
     = map (\<lambda>e. (h, True, Inl e)) errors @ calls_after
     \<and> (calls_after = [] \<or> (\<exists>c n. calls_after = (h, True, Inr c) # replicate n (h, False, Inr c)))"
proof -
  have "\<exists>errors calls_after. filter (\<lambda>e. fst e = h) (fetch_all certs calls)
      = map (\<lambda>e. (h, True, Inl e)) errors @ calls_after
      \<and> (calls_after = [] \<or> (\<exists>c n. calls_after = (h, True, Inr c) # replicate n (h, False, Inr c)))"
    if "certs h = None" for certs
    using that
  proof (induction certs calls rule: fetch_all.induct)
    case (2 certs hostname g calls)
    obtain certs' called res where f: "fetch certs hostname g = (certs', called, res)"
      by (metis prod_cases3)
    show ?case
    proof (cases "certs' h")
      case None
      from "2.IH"[OF f[symmetric] refl None] obtain es t where
        ih: "filter (\<lambda>e. fst e = h) (fetch_all certs' calls) = map (\<lambda>e. (h, True, Inl e)) es @ t"
        "t = [] \<or> (\<exists>c n. t = (h, True, Inr c) # replicate n (h, False, Inr c))" by blast
      show ?thesis
      proof (cases "hostname = h")
        case True
        with f 2(2) None obtain e where "res = Inl e" "called"
          by (auto simp: fetch_def split: option.splits sum.splits)
        then show ?thesis using f ih True by (intro exI[of _ "e # es"] exI[of _ t]) simp
      next
        case False
        then show ?thesis using f ih by (intro exI[of _ es] exI[of _ t]) simp
      qed
    next
      case (Some c)
      with f 2(2) have "hostname = h" "called" "res = Inr c"
        by (auto simp: fetch_def split: option.splits sum.splits if_splits)
      moreover obtain n where "filter (\<lambda>e. fst e = h) (fetch_all certs' calls) = replicate n (h, False, Inr c)"
        using fetch_all_known[of certs' h c calls, OF Some] by blast
      ultimately show ?thesis
        using f by (intro exI[of _ "[]"] exI[of _ "(h, True, Inr c) # replicate n (h, False, Inr c)"]) auto
    qed
  qed simp
  then show ?thesis by simp
qed

subsection \<open>The log line\<close>

lemma marks_escaped:
  "should_escape UrlPath CHR ''?''" "should_escape UrlHost CHR ''?''"
  "should_escape UrlPath CHR ''#''" "should_escape UrlHost CHR ''#''"
  "\<not> alnum CHR ''?''" "\<not> alnum CHR ''#''"
  "\<not> valid_encoded UrlPath ''?''" "\<not> valid_encoded UrlHost ''?''"
  "\<not> valid_encoded UrlPath ''#''" "\<not> valid_encoded UrlHost ''#''"
  by code_simp+

lemma no_mark:
  assumes "m = UrlPath \<or> m = UrlHost" and "c = CHR ''?'' \<or> c = CHR ''#''"
  shows "c \<notin> set (url_escape m t)" and "valid_encoded m t \<Longrightarrow> c \<notin> set t"
proof -
  have e: "should_escape m c" "\<not> alnum c" "c \<noteq> CHR ''%''"
    using assms marks_escaped by auto
  show "c \<notin> set (url_escape m t)"
    using url_escape_avoids[of c m t] e assms(1) by auto
  show "c \<notin> set t" if "valid_encoded m t"
  proof
    assume "c \<in> set t"
    then have "valid_encoded m [c]"
      using that unfolding valid_encoded_def list_all_iff by (metis empty_iff empty_set set_ConsD)
    then show False using assms marks_escaped by auto
  qed
qed

text \<open>
  The log line shows no credentials.  What is logged of a request's target does not depend on
  its user information, query or fragment, and for a URL with an authority it has no query or
  fragment part, whatever its host and path hold.\<close>

theorem forwarding_target_clean:
  assumes "url_opaque u = []" and "CHR ''?'' \<notin> set (url_scheme u)" and "CHR ''#'' \<notin> set (url_scheme u)"
  shows "CHR ''?'' \<notin> set (forwarding_target u) \<and> CHR ''#'' \<notin> set (forwarding_target u)
    \<and> forwarding_target (u\<lparr>url_user := ui, url_raw_query := q, url_force_query := fq,
                          url_fragment := f, url_raw_fragment := rf\<rparr>) = forwarding_target u"
proof -
  let ?u = "u\<lparr>url_user := None, url_raw_query := [], url_force_query := False, url_fragment := []\<rparr>"
  have clean: "c \<notin> set (forwarding_target u)" if c: "c = CHR ''?'' \<or> c = CHR ''#''" for c
  proof -
    have "c \<notin> set (escaped_path v)" for v
      using no_mark[OF _ c, of UrlPath] c by (auto simp: escaped_path_def)
    moreover have "c \<notin> set (url_escape UrlHost t)" for t
      using no_mark(1)[OF _ c, of UrlHost] by simp
    moreover have "c \<notin> set (url_scheme u)" using assms c by blast
    moreover have "set (url_authority ?u) \<subseteq> {CHR ''/''} \<union> set (url_escape UrlHost (url_host u))"
      by (auto simp: url_authority_def)
    moreover have "set (url_body ?u) \<subseteq> {CHR ''/'', CHR ''.''} \<union> set (url_authority ?u) \<union> set (escaped_path ?u)"
      using assms(1) by (auto simp: url_body_def Let_def split del: if_split split: if_split_asm)
    moreover have "set (forwarding_target u) \<subseteq> {CHR '':''} \<union> set (url_scheme u) \<union> set (url_body ?u)"
      by (auto simp: forwarding_target_def url_string_def)
    ultimately show ?thesis using c by blast
  qed
  have "forwarding_target (u\<lparr>url_user := ui, url_raw_query := q, url_force_query := fq,
      url_fragment := f, url_raw_fragment := rf\<rparr>) = forwarding_target u"
    by (simp add: forwarding_target_def url_string_def url_body_def url_authority_def escaped_path_def)
  then show ?thesis using clean by blast
qed

subsection \<open>Sample exchanges\<close>

definition sample_url :: url where
  "sample_url = \<lparr>url_scheme = ''https'', url_opaque = [], url_user = Some (''me'', Some ''secret''),
     url_host = ''Api.example:443'', url_path = ''/v1/chat/completions'', url_raw_path = [],
     url_omit_host = False, url_force_query = False, url_raw_query = ''key=1'', url_fragment = [],
     url_raw_fragment = []\<rparr>"

definition sample_proxy_rules :: compiled_rules where
  "sample_proxy_rules = \<lparr>exact = [''/v1/chat/completions'' \<mapsto> \<lparr>extractor = ExtractorOpenAIChatConversation\<rparr>],
     templates = empty_node, count = 1\<rparr>"

definition sample_config :: config where
  "sample_config = new_config \<lparr>cfg_signer = sample_signer, cfg_rules = Some sample_proxy_rules,
     max_json_bytes = 0, proof_reference = ''proof-1''\<rparr>"

definition sample_body :: "bytes \<Rightarrow> http_body" where
  "sample_body d = \<lparr>pending = d, fails = False, close_fails = False, late_trailer = \<lambda>_. None\<rparr>"

definition sample_chat :: bytes where
  "sample_chat = ''{\"model\":\"m1\",\"stream\":true,\"messages\":[{\"role\":\"user\",\"content\":\"hi\"}]}''"

definition sample_answer :: bytes where
  "sample_answer = ''{\"choices\":[{\"message\":{\"role\":\"assistant\",\"content\":\"yo\"}}]}''"

definition content_header :: "string \<Rightarrow> header" where
  "content_header ct = (\<lambda>_. None)(''Content-Type'' := Some [ct])"

definition sample_rq :: http_request where
  "sample_rq = \<lparr>rq_url = sample_url,
     rq_header = (content_header ''application/json'')(''X-Attestation-Challenge'' := Some [''challenge_1'']),
     rq_body = Some (sample_body sample_chat)\<rparr>"

definition sample_chat_fields :: "att_field list" where
  "sample_chat_fields = [\<lparr>fname = ''model'', fvalue = ''\"m1\"''\<rparr>,
     \<lparr>fname = ''messages'', fvalue = ''[{\"role\":\"user\",\"text\":\"hi\"}]''\<rparr>]"

definition sample_answer_fields :: "att_field list" where
  "sample_answer_fields = [\<lparr>fname = ''messages'', fvalue = ''[{\"role\":\"assistant\",\"text\":\"yo\"}]''\<rparr>]"

definition sample_state :: request_state where
  "sample_state = \<lparr>st_domain = ''api.example'', st_path = ''/v1/chat/completions'',
     st_request_fields = sample_chat_fields,
     st_streaming_fields = sample_chat_fields @ [\<lparr>fname = ''stream'', fvalue = ''true''\<rparr>],
     st_challenge = ''challenge_1'',
     st_extractor = \<lparr>extract_request = extract_openai_chat_request sample_runtime,
                     extract_response = extract_openai_chat_response sample_runtime\<rparr>\<rparr>"

definition sample_rp :: "string \<Rightarrow> bytes \<Rightarrow> http_response" where
  "sample_rp ct d = \<lparr>rp_status = 200,
     rp_header = (content_header ct)(''X-Attestation-Signature'' := Some [''forged'']),
     rp_trailer = (\<lambda>_. None), rp_body = Some (sample_body d),
     rp_tls = Some \<lparr>peer_certificates = [''leaf''], verified_chains = [[''leaf'', ''root'']]\<rparr>\<rparr>"

lemma sample_extracts:
  "extract_openai_chat_request sample_runtime sample_chat ''/v1/chat/completions'' = Inr sample_chat_fields"
  "append_streaming_request_field sample_runtime sample_chat sample_chat_fields
     = Inr (sample_chat_fields @ [\<lparr>fname = ''stream'', fvalue = ''true''\<rparr>])"
  "extract_openai_chat_response sample_runtime sample_answer = Inr sample_answer_fields"
  by code_simp+

lemma sample_media:
  "is_json sample_runtime ''application/json''"
  "streaming_content_type sample_runtime ''application/json'' = None"
  "streaming_content_type sample_runtime ''text/event-stream'' = Some ''text/event-stream''"
  by code_simp+

lemma sample_config_fields:
  "max_json_bytes sample_config = 2097152" "cfg_signer sample_config = sample_signer"
  "cfg_rules sample_config = Some sample_proxy_rules" "proof_reference sample_config = ''proof-1''"
  by (simp_all add: sample_config_def new_config_def DefaultMaxJSONBytes_def)

lemma sample_read:
  "d = sample_chat \<or> d = sample_answer \<Longrightarrow> read_and_restore (sample_body d) 2097152
     = (sample_body d, \<lambda>_. None, Inr (Some d))"
  by (auto simp: read_and_restore_def wrap64_def sample_body_def Let_def sample_chat_def sample_answer_def)

lemma sample_on_request: "on_request sample_runtime sample_config sample_rq
    = (sample_rq\<lparr>rq_header := header_del (rq_header sample_rq) HeaderChallenge\<rparr>, Some sample_state)"
proof -
  have h: "header_get (header_del (rq_header sample_rq) HeaderChallenge) ''Content-Type'' = ''application/json''"
    "header_values (rq_header sample_rq) HeaderChallenge = [''challenge_1'']"
    "validate_challenge ''challenge_1'' = Inr ()" by code_simp+
  have u: "to_lower sample_runtime (host_name (url_host (rq_url sample_rq))) = ''api.example''"
    "url_path (rq_url sample_rq) = ''/v1/chat/completions''"
    by code_simp+
  have b: "rq_body sample_rq = Some (sample_body sample_chat)" by (simp add: sample_rq_def)
  have m: "match_path (Some sample_proxy_rules) ''/v1/chat/completions''
      = Some \<lparr>extractor = ExtractorOpenAIChatConversation\<rparr>"
    by (simp add: match_path_def sample_proxy_rules_def)
  have l: "lookup_text_extractor sample_runtime ExtractorOpenAIChatConversation
      = Some (st_extractor sample_state)"
    by (simp add: lookup_text_extractor_def text_extractors_def sample_state_def)
  have rs: "request_state_of sample_runtime \<lparr>extractor = ExtractorOpenAIChatConversation\<rparr> ''api.example''
      ''/v1/chat/completions'' (Some ''challenge_1'') sample_chat = Some sample_state"
    using sample_extracts(1,2) l by (simp add: request_state_of_def sample_state_def)
  show ?thesis
    using sample_read[of sample_chat]
    by (simp add: on_request_def take_challenge_def h u b m rs sample_media(1) sample_config_fields Let_def)
qed

lemma on_response_total: "\<exists>r'. on_response rt cfg now random st (Some r) = Some r'"
  by (simp add: on_response_def Let_def split: option.split)

lemma sample_rp_fields:
  "header_get (rp_header (sample_rp ct d)) ''Content-Type'' = ct"
  "verified_leaf (rp_tls (sample_rp ct d)) = Some ''leaf''"
  "rp_body (sample_rp ct d) = Some (sample_body d)"
proof -
  have "canonical_key ''Content-Type'' = ''Content-Type''" by code_simp
  then show "header_get (rp_header (sample_rp ct d)) ''Content-Type'' = ct"
    by (simp add: sample_rp_def content_header_def header_get_def header_values_def)
qed (simp_all add: sample_rp_def verified_leaf_def)

lemma sign_ok_header:
  "is_ok (sign rt s now random h dmn fp p req resp) \<Longrightarrow> \<exists>H. sign rt s now random h' dmn fp p req resp = Inr H"
  "is_ok (sign_request_upstream rt s now random h obs) \<Longrightarrow> \<exists>H. sign_request_upstream rt s now random h' obs = Inr H"
  by (auto simp: is_ok_iff sign_Inr_iff sign_request_upstream_Inr_iff Let_def)

abbreviation sample_time :: int where "sample_time \<equiv> 1700000000 * second"

lemma sample_signatures:
  "is_ok (sign sample_runtime sample_signer sample_time (Some sample_nonce) no_header ''api.example''
     (hex_encode (sha256 sample_runtime ''leaf'')) ''/v1/chat/completions'' sample_chat_fields
     sample_answer_fields)"
  "is_ok (sign_request_upstream sample_runtime sample_signer sample_time (Some sample_nonce) no_header
     (upstream_observation sample_runtime sample_state ''leaf'' 200 ''text/event-stream''))"
  by code_simp+

lemma sample_json_response:
  "\<exists>r'. on_response sample_runtime sample_config sample_time (Some sample_nonce) (Some sample_state)
       (Some (sample_rp ''application/json'' sample_answer)) = Some r'
     \<and> header_get (rp_header r') HeaderProfile = Profile"
proof -
  let ?r = "sample_rp ''application/json'' sample_answer"
  obtain h where h: "sign sample_runtime sample_signer sample_time (Some sample_nonce)
      (clear_attestation_headers (rp_header ?r)) ''api.example''
      (hex_encode (sha256 sample_runtime ''leaf'')) ''/v1/chat/completions'' sample_chat_fields
      sample_answer_fields = Inr h"
    using sign_ok_header(1)[OF sample_signatures(1)] by blast
  have "header_get (add_proof_reference sample_config h) HeaderProfile = Profile"
    using keys_eq(1)[OF add_proof_reference_reads attestation_keys_members(2)] sign_profile[OF h] by simp
  moreover have "\<exists>r'. on_response sample_runtime sample_config sample_time (Some sample_nonce)
      (Some sample_state) (Some ?r) = Some r' \<and> rp_header r' = add_proof_reference sample_config h"
    using h sample_extracts(3) sample_read[of sample_answer]
    by (simp add: on_response_def Let_def cleared_content_type sample_rp_fields sample_media sign_json_def
        sample_config_fields sample_state_def)
  ultimately show ?thesis by auto
qed

lemma sample_stream_response:
  "\<exists>r'. on_response sample_runtime sample_config sample_time (Some sample_nonce) (Some sample_state)
       (Some (sample_rp ''text/event-stream'' sample_answer)) = Some r'
     \<and> header_get (rp_header r') HeaderProfile = RequestUpstreamProfile"
proof -
  let ?r = "sample_rp ''text/event-stream'' sample_answer"
  obtain h where h: "sign_request_upstream sample_runtime sample_signer sample_time (Some sample_nonce)
      (clear_attestation_headers (rp_header ?r))
      (upstream_observation sample_runtime sample_state ''leaf'' 200 ''text/event-stream'') = Inr h"
    using sign_ok_header(2)[OF sample_signatures(2)] by blast
  have "header_get (add_proof_reference sample_config h) HeaderProfile = RequestUpstreamProfile"
    using keys_eq(1)[OF add_proof_reference_reads attestation_keys_members(2)]
      sign_request_upstream_profile[OF h] by simp
  moreover have "st_challenge sample_state \<noteq> []" "st_streaming_fields sample_state \<noteq> []"
    by (simp_all add: sample_state_def)
  then have "\<exists>r'. on_response sample_runtime sample_config sample_time (Some sample_nonce)
      (Some sample_state) (Some ?r) = Some r' \<and> rp_header r' = add_proof_reference sample_config h"
    using h
    by (simp add: on_response_def Let_def cleared_content_type sample_rp_fields sample_media
        sign_streaming_def sample_config_fields upstream_observation_def) (simp add: sample_rp_def)
  ultimately show ?thesis by auto
qed

lemma sample_limit: "limit_ok (max_json_bytes sample_config)"
  by (simp add: sample_config_fields limit_ok_def int64_max_def)

theorem forwarding_target_clean_witness:
  "CHR ''?'' \<notin> set (forwarding_target sample_url)
   \<and> forwarding_target (sample_url\<lparr>url_user := None, url_raw_query := [], url_force_query := True,
        url_fragment := [], url_raw_fragment := []\<rparr>) = forwarding_target sample_url"
proof -
  have "url_opaque sample_url = []" "CHR ''?'' \<notin> set (url_scheme sample_url)"
    "CHR ''#'' \<notin> set (url_scheme sample_url)" by (simp_all add: sample_url_def)
  from forwarding_target_clean[OF this] show ?thesis by blast
qed

theorem request_transparent_witness:
  "header_values (rq_header (fst (on_request sample_runtime sample_config sample_rq))) HeaderChallenge = []
   \<and> map_option stream (rq_body (fst (on_request sample_runtime sample_config sample_rq)))
       = Some (sample_chat, False)"
  using request_transparent[OF sample_limit sample_on_request] sample_on_request
  by (simp add: sample_rq_def sample_body_def stream_def)


theorem proxied_json_verifies_witness:
  "\<exists>r' fs gs. on_response sample_runtime sample_config sample_time (Some sample_nonce) (Some sample_state)
       (Some (sample_rp ''application/json'' sample_answer)) = Some r'
     \<and> verify sample_runtime sample_public_key (rp_header r') ''api.example''
         (hex_encode (sha256 sample_runtime ''leaf'')) ''/v1/chat/completions'' fs gs
         (1700000100 * second) (300 * second) = Inr ()"
proof -
  obtain r' where r': "on_response sample_runtime sample_config sample_time (Some sample_nonce)
      (Some sample_state) (Some (sample_rp ''application/json'' sample_answer)) = Some r'"
    "header_get (rp_header r') HeaderProfile = Profile"
    using sample_json_response by blast
  have u: "url_path (rq_url sample_rq) = ''/v1/chat/completions''"
    "host_name (url_host (rq_url sample_rq)) = ''Api.example''"
    "to_lower sample_runtime ''Api.example'' = ''api.example''" "is_ascii ''Api.example''" by code_simp+
  show ?thesis
    using proxied_json_verifies[OF sample_limit sample_on_request r', of sample_public_key
        "1700000100 * second" "300 * second"] sample_keys r'(1)
    by (auto simp: u byte_def sample_config_fields sample_rp_fields unix_seconds_def wrap64_def second_def int64_max_def)
qed

theorem proxied_stream_verifies_witness:
  "\<exists>r' sfs. on_response sample_runtime sample_config sample_time (Some sample_nonce) (Some sample_state)
       (Some (sample_rp ''text/event-stream'' sample_answer)) = Some r'
     \<and> verify_request_upstream sample_runtime sample_public_key (rp_header r')
         \<lparr>obs_domain = ''api.example'', obs_fingerprint = hex_encode (sha256 sample_runtime ''leaf''),
          obs_path = ''/v1/chat/completions'', obs_fields = sfs, obs_challenge = ''challenge_1'',
          obs_status = rp_status r', obs_content_type = ''text/event-stream''\<rparr>
         (1700000100 * second) (300 * second) = Inr ()"
proof -
  obtain r' where r': "on_response sample_runtime sample_config sample_time (Some sample_nonce)
      (Some sample_state) (Some (sample_rp ''text/event-stream'' sample_answer)) = Some r'"
    "header_get (rp_header r') HeaderProfile = RequestUpstreamProfile"
    using sample_stream_response by blast
  have u: "url_path (rq_url sample_rq) = ''/v1/chat/completions''"
    "host_name (url_host (rq_url sample_rq)) = ''Api.example''"
    "to_lower sample_runtime ''Api.example'' = ''api.example''" "is_ascii ''Api.example''"
    "header_values (rq_header sample_rq) HeaderChallenge = [''challenge_1'']" by code_simp+
  show ?thesis
    using proxied_stream_verifies[OF sample_limit sample_on_request r', of sample_public_key
        "1700000100 * second" "300 * second"] sample_keys r'(1)
    by (auto simp: u byte_def sample_config_fields sample_rp_fields sample_media unix_seconds_def wrap64_def second_def
        int64_max_def)
qed

theorem largest_limit_drops_body_witness:
  "\<exists>b'. rq_body (fst (on_request sample_runtime (sample_config\<lparr>max_json_bytes := int64_max\<rparr>)
        sample_rq)) = Some b' \<and> pending b' = []"
proof -
  have "header_get (rq_header sample_rq) ''Content-Type'' = ''application/json''" by code_simp
  moreover have "match_path (Some sample_proxy_rules) (url_path (rq_url sample_rq)) \<noteq> None"
    by (simp add: match_path_def sample_proxy_rules_def sample_rq_def sample_url_def)
  ultimately show ?thesis
    by (intro largest_limit_drops_body[where b = "sample_body sample_chat"])
      (simp_all add: sample_media sample_config_fields sample_body_def sample_chat_def sample_rq_def)
qed

theorem late_trailer_survives_witness:
  "\<exists>r'. on_response sample_runtime sample_config sample_time (Some sample_nonce) (Some sample_state)
       (Some ((sample_rp ''application/json'' [])\<lparr>rp_body := Some ((sample_body sample_answer)
          \<lparr>late_trailer := [''X-Attestation-Signature'' \<mapsto> [''forged'']]\<rparr>)\<rparr>)) = Some r'
     \<and> rp_trailer r' ''X-Attestation-Signature'' = Some [''forged'']"
proof -
  let ?r = "(sample_rp ''application/json'' [])\<lparr>rp_body := Some ((sample_body sample_answer)
          \<lparr>late_trailer := [''X-Attestation-Signature'' \<mapsto> [''forged'']]\<rparr>)\<rparr>"
  obtain r' where r': "on_response sample_runtime sample_config sample_time (Some sample_nonce)
      (Some sample_state) (Some ?r) = Some r'"
    using on_response_total by blast
  have "length sample_answer < 100" by code_simp
  then have "rp_trailer r' (canonical_key HeaderSignature) = Some [''forged'']"
    using sample_media(1) sample_rp_fields(1,2)[of "''application/json''" "[]"]
    by (intro late_trailer_survives[OF sample_limit r', where b = "(sample_body sample_answer)
          \<lparr>late_trailer := [''X-Attestation-Signature'' \<mapsto> [''forged'']]\<rparr>"])
      (simp_all add: sample_config_fields sample_body_def header_keys)
  then show ?thesis using r' by (simp add: header_keys)
qed

end
