(* ===== verification/ProofCache.thy ===== *)
theory ProofCache
  imports Attestation
begin

section \<open>The proof cache (internal/proofcache/cache.go)\<close>

text \<open>
  A proof bundle is an attestation token of the platform for a key of this process and a challenge
  of a customer.  The cache asks the token provider for a token, checks its expiry, and keeps the
  bundle in a store when one is configured.  The Go interface \<open>Store\<close> is a record of operations on
  a store state; what an implementation promises is the locale \<open>proof_store\<close>, inside which the facts
  about issuing are proved once.
\<close>

subsection \<open>Errors\<close>

text \<open>
  The error values of the package: the sentinels, any other error with its text (that of a library
  error inside is left out), and an error
  wrapped by \<open>fmt.Errorf("prefix: %w", err)\<close>.  \<open>is_error\<close> is \<open>errors.Is\<close>.
\<close>

datatype go_error =
    ErrProofNotFound
  | ErrReplicaNotFound
  | ErrProofOwnerUnavailable
  | ErrProofRequestFailed
  | ErrProofRequestTimeout
  | Plain string
  | Wrapped string go_error
  | WrappedWith go_error string

fun is_error :: "go_error \<Rightarrow> go_error \<Rightarrow> bool" where
  "is_error target (Wrapped msg e) \<longleftrightarrow> target = Wrapped msg e \<or> is_error target e"
| "is_error target (WrappedWith e msg) \<longleftrightarrow> target = WrappedWith e msg \<or> is_error target e"
| "is_error target e \<longleftrightarrow> target = e"

fun error_text :: "go_error \<Rightarrow> string" where
  "error_text ErrProofNotFound = ''attestation proof not found''"
| "error_text ErrReplicaNotFound = ''attestation replica not found''"
| "error_text ErrProofOwnerUnavailable = ''attestation proof owner is unavailable''"
| "error_text ErrProofRequestFailed = ''attestation proof request failed''"
| "error_text ErrProofRequestTimeout = ''attestation proof request timed out''"
| "error_text (Plain msg) = msg"
| "error_text (Wrapped msg e) = msg @ '': '' @ error_text e"
| "error_text (WrappedWith e msg) = error_text e @ '': '' @ msg"

definition wrap_error :: "string \<Rightarrow> (go_error, 'a) result \<Rightarrow> (go_error, 'a) result" where
  "wrap_error msg r = (case r of Inl e \<Rightarrow> Inl (Wrapped msg e) | Inr x \<Rightarrow> Inr x)"

lemma wrap_error_simps [simp]:
  "wrap_error msg (Inl e) = Inl (Wrapped msg e)" "wrap_error msg (Inr x) = Inr x"
  by (simp_all add: wrap_error_def)

lemma wrap_error_Inr_iff [simp]: "wrap_error msg r = Inr x \<longleftrightarrow> r = Inr x"
  by (cases r) simp_all

subsection \<open>Data\<close>

record proof_bundle =
  token_type :: string
  attestation_token :: string
  audience :: string
  bundle_key_id :: string
  challenge_nonce :: string
  proof_ref :: string
  expires_at :: int
  key_algorithm :: string
  public_key :: string
  binding_nonce :: string

definition bundle_key :: "proof_bundle \<Rightarrow> string \<times> string" where
  "bundle_key b = (proof_ref b, challenge_nonce b)"

text \<open>
  The interface \<open>Store\<close>.  An operation returns the new state with its result, since even a lookup
  may meet a fault of the database behind it.
\<close>

record 's store_ops =
  store_find :: "'s \<Rightarrow> string \<Rightarrow> string \<Rightarrow> 's \<times> (go_error, proof_bundle) result"
  store_put :: "'s \<Rightarrow> proof_bundle \<Rightarrow> 's \<times> (go_error, proof_bundle) result"

text \<open>
  The token provider appears as its audience and, in each operation that calls it, as the function
  from the nonces to the answer of that call.
\<close>

type_synonym provider = "string list \<Rightarrow> (go_error, string) result"

record 's cache =
  cache_audience :: string
  cache_public_key :: bytes
  cache_key_id :: string
  cache_proof_ref :: string
  cache_binding :: string
  cache_store :: "'s store_ops option"

subsection \<open>Construction\<close>

definition bind_nonce :: "('r) runtime_scheme \<Rightarrow> bytes \<Rightarrow> string" where
  "bind_nonce rt pk = b64_encode (sha256 rt (''attestation-ed25519-public-key-v1'' @ [CHR 0x00] @ pk))"

definition proof_reference_of :: "('r) runtime_scheme \<Rightarrow> bytes \<Rightarrow> string" where
  "proof_reference_of rt pk = ''proof-'' @ b64_encode (take 18 (sha256 rt pk))"

text \<open>\<open>New\<close>: the provider is its audience, \<open>None\<close> for nil, and so is a nil store.\<close>

definition new_cache ::
  "('r) runtime_scheme \<Rightarrow> string option \<Rightarrow> bytes \<Rightarrow> string \<Rightarrow> 's store_ops option list
     \<Rightarrow> (go_error, 's cache) result" where
  "new_cache rt prov pk kid stores =
     (case prov of
        None \<Rightarrow> Inl (Plain ''attestation token provider is required'')
      | Some aud \<Rightarrow>
          require (length pk = 32) (Plain ''attestation public key is invalid'') (
          let kid' = (if kid = [] then public_key_id rt pk else kid);
              made = (\<lambda>st. Inr \<lparr>cache_audience = aud, cache_public_key = pk, cache_key_id = kid',
                              cache_proof_ref = proof_reference_of rt pk,
                              cache_binding = bind_nonce rt pk, cache_store = st\<rparr>) in
          (case stores of
             [] \<Rightarrow> made None
           | [None] \<Rightarrow> Inl (Plain ''proof store is nil'')
           | [Some st] \<Rightarrow> made (Some st)
           | _ \<Rightarrow> Inl (Plain ''at most one proof store may be configured''))))"

subsection \<open>Tokens\<close>

text \<open>The claims struct has the one field \<open>exp\<close>, a 64-bit integer.\<close>

definition decode_int64 :: "json \<Rightarrow> int \<Rightarrow> (json_error, int) result" where
  "decode_int64 v old =
     (case v of
        JNum t \<Rightarrow> (case parse_int64 t of None \<Rightarrow> Inl WrongType | Some n \<Rightarrow> Inr n)
      | JNull \<Rightarrow> Inr old
      | _ \<Rightarrow> Inl WrongType)"

definition decode_exp :: "string \<Rightarrow> (json_error, int) result" where
  "decode_exp payload =
     unmarshal (\<lambda>v. decode_struct [''exp''] (\<lambda>f raw v old. decode_int64 v old) v 0) payload"

definition token_expiry :: "string \<Rightarrow> (go_error, int) result" where
  "token_expiry token =
     (case split_on CHR ''.'' token of
        [_, claims_part, _] \<Rightarrow>
          (case b64_decode claims_part of
             None \<Rightarrow> Inl (Plain ''decode attestation token claims'')
           | Some payload \<Rightarrow>
               (case decode_exp payload of
                  Inl _ \<Rightarrow> Inl (Plain ''attestation token has no valid exp claim'')
                | Inr e \<Rightarrow>
                    require (0 < e) (Plain ''attestation token has no valid exp claim'')
                      (Inr (time_unix e))))
      | _ \<Rightarrow> Inl (Plain ''attestation token is not a JWT''))"

definition request_token ::
  "'s cache \<Rightarrow> provider \<Rightarrow> int \<Rightarrow> string \<Rightarrow> (go_error, string \<times> int) result" where
  "request_token c prov now ch =
     and_then (prov [ch, cache_binding c]) (\<lambda>token.
     and_then (token_expiry token) (\<lambda>expires.
     require (now < expires) (Plain ''attestation token is already expired'') (Inr (token, expires))))"

definition make_bundle :: "'s cache \<Rightarrow> string \<Rightarrow> string \<Rightarrow> int \<Rightarrow> proof_bundle" where
  "make_bundle c ch token expires =
     \<lparr>token_type = ''OIDC'', attestation_token = token, audience = cache_audience c,
      bundle_key_id = cache_key_id c, challenge_nonce = ch, proof_ref = cache_proof_ref c,
      expires_at = unix_seconds expires, key_algorithm = Algorithm,
      public_key = b64_encode (cache_public_key c), binding_nonce = cache_binding c\<rparr>"

lemma wrap64_range: "in_int64 (wrap64 n)"
  using pos_mod_bound[of "2 ^ 64 :: int" "n + 2 ^ 63"] pos_mod_sign[of "2 ^ 64 :: int" "n + 2 ^ 63"]
  by (simp add: in_int64_def wrap64_def int64_min_def int64_max_def)

lemma made_in_range: "in_int64 (expires_at (make_bundle c ch token expires))"
  by (simp add: make_bundle_def unix_seconds_def wrap64_range)

subsection \<open>Operations\<close>

text \<open>\<open>random\<close> is the answer of the random source: 24 bytes, or its error.\<close>

definition preflight ::
  "'s cache \<Rightarrow> provider \<Rightarrow> int \<Rightarrow> (go_error, bytes) result \<Rightarrow> (go_error, unit) result" where
  "preflight c prov now random =
     and_then (wrap_error ''generate startup attestation challenge'' random) (\<lambda>r.
     and_then (wrap_error ''obtain startup workload attestation''
         (request_token c prov now (''startup_'' @ b64_encode r))) (\<lambda>_. Inr ()))"

text \<open>The part of \<open>Issue\<close> after the lookup.\<close>

definition issue_fresh ::
  "'s cache \<Rightarrow> 's \<Rightarrow> provider \<Rightarrow> int \<Rightarrow> string \<Rightarrow> 's \<times> (go_error, proof_bundle) result" where
  "issue_fresh c s prov now ch =
     (case request_token c prov now ch of
        Inl e \<Rightarrow> (s, Inl e)
      | Inr (token, expires) \<Rightarrow>
          (let b = make_bundle c ch token expires in
           case cache_store c of
             None \<Rightarrow> (s, Inr b)
           | Some ops \<Rightarrow>
               (case store_put ops s b of
                  (s', res) \<Rightarrow> (s', wrap_error ''persist attestation proof'' res))))"

definition issue ::
  "'s cache \<Rightarrow> 's \<Rightarrow> provider \<Rightarrow> int \<Rightarrow> string \<Rightarrow> 's \<times> (go_error, proof_bundle) result" where
  "issue c s prov now ch =
     (if trim_space ch = [] then (s, Inl (Plain ''challenge is required''))
      else (case cache_store c of
         None \<Rightarrow> issue_fresh c s prov now ch
       | Some ops \<Rightarrow>
           (case store_find ops s (cache_proof_ref c) ch of
              (s', Inr b) \<Rightarrow> (s', Inr b)
            | (s', Inl e) \<Rightarrow>
                (if is_error ErrProofNotFound e then issue_fresh c s' prov now ch
                 else (s', Inl (Wrapped ''load persisted attestation proof'' e))))))"

definition find_proof :: "'s cache \<Rightarrow> 's \<Rightarrow> string \<Rightarrow> string \<Rightarrow> 's \<times> (go_error, proof_bundle) result" where
  "find_proof c s ref ch =
     (if trim_space ref = [] \<or> trim_space ch = [] then (s, Inl ErrProofNotFound)
      else (case cache_store c of
         None \<Rightarrow> (s, Inl ErrProofNotFound)
       | Some ops \<Rightarrow> store_find ops s ref ch))"

definition apply_reference :: "'s cache \<Rightarrow> header \<Rightarrow> header" where
  "apply_reference c h = header_set h HeaderProofReference (cache_proof_ref c)"

subsection \<open>What a store promises\<close>

text \<open>
  The comment on \<open>Store\<close>: the pair of reference and challenge is immutable.  \<open>content\<close> is the
  abstract store, a map from such pairs to bundles; a lookup answers from it, an insertion adds at
  most its own pair, changes no pair that is there, and answers what is there afterwards.
\<close>

locale proof_store =
  fixes ops :: "'s store_ops"
    and content :: "'s \<Rightarrow> (string \<times> string) \<Rightarrow> proof_bundle option"
  assumes find_content: "content (fst (store_find ops s ref ch)) = content s"
    and find_hit: "snd (store_find ops s ref ch) = Inr b \<Longrightarrow> content s (ref, ch) = Some b"
    and find_miss: "snd (store_find ops s ref ch) = Inl e \<Longrightarrow> is_error ErrProofNotFound e
        \<Longrightarrow> content s (ref, ch) = None"
    and put_content: "in_int64 (expires_at b) \<Longrightarrow> content (fst (store_put ops s b)) = content s
        \<or> content s (bundle_key b) = None
            \<and> content (fst (store_put ops s b)) = (content s)(bundle_key b \<mapsto> b)"
    and put_answer: "in_int64 (expires_at b) \<Longrightarrow> snd (store_put ops s b) = Inr b'
        \<Longrightarrow> content (fst (store_put ops s b)) (bundle_key b) = Some b'"
begin

text \<open>What \<open>Issue\<close> may add: nothing, or the fresh bundle of this call under a pair that was free.\<close>

definition fresh_for :: "'s cache \<Rightarrow> provider \<Rightarrow> int \<Rightarrow> string \<Rightarrow> proof_bundle \<Rightarrow> bool" where
  "fresh_for c prov now ch b \<longleftrightarrow>
     (\<exists>token expires. request_token c prov now ch = Inr (token, expires)
        \<and> b = make_bundle c ch token expires)"

lemma issue_fresh_content:
  assumes "cache_store c = Some ops"
  shows "content (fst (issue_fresh c s prov now ch)) = content s
    \<or> (\<exists>b. fresh_for c prov now ch b \<and> content s (cache_proof_ref c, ch) = None
         \<and> content (fst (issue_fresh c s prov now ch)) = (content s)((cache_proof_ref c, ch) \<mapsto> b))"
proof (cases "request_token c prov now ch")
  case (Inr te)
  obtain token expires where te: "te = (token, expires)" by fastforce
  let ?b = "make_bundle c ch token expires"
  have k: "bundle_key ?b = (cache_proof_ref c, ch)" by (simp add: bundle_key_def make_bundle_def)
  have "fst (issue_fresh c s prov now ch) = fst (store_put ops s ?b)"
    using Inr te assms by (simp add: issue_fresh_def split: prod.split)
  moreover have "fresh_for c prov now ch ?b" using Inr te by (auto simp: fresh_for_def)
  ultimately show ?thesis using put_content[OF made_in_range, of s c ch token expires] k by auto
qed (simp add: issue_fresh_def)

lemma issue_content:
  assumes "cache_store c = Some ops"
  shows "content (fst (issue c s prov now ch)) = content s
    \<or> (\<exists>b. fresh_for c prov now ch b \<and> content s (cache_proof_ref c, ch) = None
         \<and> content (fst (issue c s prov now ch)) = (content s)((cache_proof_ref c, ch) \<mapsto> b))"
proof -
  obtain s1 r where f: "store_find ops s (cache_proof_ref c) ch = (s1, r)" by fastforce
  have "content s1 = content s" using find_content[of s "cache_proof_ref c" ch] f by simp
  then show ?thesis
    using issue_fresh_content[OF assms, of s1 prov now ch] f assms
    by (cases r) (auto simp: issue_def)
qed

lemma issue_monotone:
  assumes "cache_store c = Some ops" and "content s k = Some b"
  shows "content (fst (issue c s prov now ch)) k = Some b"
  using issue_content[OF assms(1), of s prov now ch] assms(2) by auto

text \<open>A successful call answers what the store holds afterwards.\<close>

lemma issue_fresh_answer:
  assumes "cache_store c = Some ops" and "snd (issue_fresh c s prov now ch) = Inr b"
  shows "content (fst (issue_fresh c s prov now ch)) (cache_proof_ref c, ch) = Some b"
proof -
  obtain token expires where rt: "request_token c prov now ch = Inr (token, expires)"
    using assms(2) by (auto simp: issue_fresh_def split: sum.splits)
  let ?b = "make_bundle c ch token expires"
  obtain s2 r2 where p: "store_put ops s ?b = (s2, r2)" by fastforce
  have "issue_fresh c s prov now ch = (s2, wrap_error ''persist attestation proof'' r2)"
    using rt assms(1) p by (simp add: issue_fresh_def)
  moreover have "bundle_key ?b = (cache_proof_ref c, ch)" by (simp add: bundle_key_def make_bundle_def)
  ultimately show ?thesis
    using assms(2) p put_answer[OF made_in_range, of s c ch token expires b] by simp
qed

lemma issue_answer:
  assumes "cache_store c = Some ops" and "snd (issue c s prov now ch) = Inr b"
  shows "content (fst (issue c s prov now ch)) (cache_proof_ref c, ch) = Some b"
proof -
  obtain s1 r where f: "store_find ops s (cache_proof_ref c) ch = (s1, r)" by fastforce
  have same: "content s1 = content s" using find_content[of s "cache_proof_ref c" ch] f by simp
  show ?thesis
  proof (cases r)
    case (Inr b1)
    then show ?thesis
      using assms f same find_hit[of s "cache_proof_ref c" ch b1]
      by (auto simp: issue_def split: if_splits)
  next
    case (Inl e)
    then have "issue c s prov now ch = issue_fresh c s1 prov now ch"
      using assms f by (auto simp: issue_def split: if_splits)
    then show ?thesis using assms issue_fresh_answer by simp
  qed
qed

text \<open>Once a pair is there, every successful answer for it is that bundle, whatever the provider says.\<close>

lemma issue_stable:
  assumes "cache_store c = Some ops" and "content s (cache_proof_ref c, ch) = Some b"
    and "snd (issue c s prov now ch) = Inr b'"
  shows "b' = b"
  using issue_answer[OF assms(1,3)] issue_monotone[OF assms(1,2), of prov now ch] by simp

lemma find_proof_hit:
  assumes "cache_store c = Some ops" and "snd (find_proof c s ref ch) = Inr b"
  shows "content s (ref, ch) = Some b"
  using assms find_hit by (auto simp: find_proof_def split: if_splits)

lemma find_proof_content:
  "cache_store c = Some ops \<Longrightarrow> content (fst (find_proof c s ref ch)) = content s"
  by (simp add: find_proof_def find_content)

end

end
