(* ===== verification/Postgres.thy ===== *)
theory Postgres
  imports ProofCache GoNet
begin

section \<open>The PostgreSQL store (internal/proofcache/postgres.go)\<close>

text \<open>
  The three tables as lists of rows in an arbitrary physical order, and one definition per method of
  \<open>PostgresStore\<close>.  A statement acts on the tables as its SQL says; what the database answers is an
  oracle: the list \<open>faults\<close> says of each statement to come whether it succeeds, fails without effect,
  or takes effect and loses its answer.  \<open>db_clock\<close> is what \<open>time.Now\<close> returns.
\<close>

subsection \<open>Rows\<close>

record proof_record =
  pr_ref :: string
  pr_nonce :: string
  pr_token_type :: string
  pr_token :: string
  pr_audience :: string
  pr_key_id :: string
  pr_algorithm :: string
  pr_public_key :: string
  pr_binding :: string
  pr_expires :: int
  pr_created :: int

record replica_record =
  rr_ref :: string
  rr_key_id :: string
  rr_instance :: string
  rr_heartbeat :: int
  rr_draining :: bool
  rr_created :: int
  rr_updated :: int

record request_record =
  qr_ref :: string
  qr_nonce :: string
  qr_status :: string
  qr_error :: string
  qr_requested :: int
  qr_expires :: int
  qr_lease :: "int option"
  qr_attempts :: nat
  qr_completed :: "int option"
  qr_updated :: int

record replica =
  rep_ref :: string
  rep_key_id :: string
  rep_instance :: string
  rep_heartbeat :: int
  rep_draining :: bool

record proof_request =
  req_ref :: string
  req_nonce :: string
  req_status :: string
  req_error :: string
  req_expires :: int

definition RequestPending :: string where "RequestPending = ''pending''"
definition RequestProcessing :: string where "RequestProcessing = ''processing''"
definition RequestComplete :: string where "RequestComplete = ''complete''"
definition RequestFailed :: string where "RequestFailed = ''failed''"

lemmas status_defs =
  RequestPending_def RequestProcessing_def RequestComplete_def RequestFailed_def

definition proof_key :: "proof_record \<Rightarrow> string \<times> string" where
  "proof_key r = (pr_ref r, pr_nonce r)"

definition request_key :: "request_record \<Rightarrow> string \<times> string" where
  "request_key r = (qr_ref r, qr_nonce r)"

text \<open>\<open>recordFromBundle\<close>, with the creation time the ORM fills in, and \<open>proofRecord.bundle\<close>.\<close>

definition record_from_bundle :: "proof_bundle \<Rightarrow> int \<Rightarrow> proof_record" where
  "record_from_bundle b now =
     \<lparr>pr_ref = proof_ref b, pr_nonce = challenge_nonce b, pr_token_type = token_type b,
      pr_token = attestation_token b, pr_audience = audience b, pr_key_id = bundle_key_id b,
      pr_algorithm = key_algorithm b, pr_public_key = public_key b, pr_binding = binding_nonce b,
      pr_expires = time_unix (expires_at b), pr_created = now\<rparr>"

definition bundle_of_record :: "proof_record \<Rightarrow> proof_bundle" where
  "bundle_of_record r =
     \<lparr>token_type = pr_token_type r, attestation_token = pr_token r, audience = pr_audience r,
      bundle_key_id = pr_key_id r, challenge_nonce = pr_nonce r, proof_ref = pr_ref r,
      expires_at = unix_seconds (pr_expires r), key_algorithm = pr_algorithm r,
      public_key = pr_public_key r, binding_nonce = pr_binding r\<rparr>"

definition proof_request_from_record :: "request_record \<Rightarrow> proof_request" where
  "proof_request_from_record r =
     \<lparr>req_ref = qr_ref r, req_nonce = qr_nonce r, req_status = qr_status r, req_error = qr_error r,
      req_expires = qr_expires r\<rparr>"

subsection \<open>Statements\<close>

datatype outcome = Succeeds | FailsBefore string | FailsAfter string

record db =
  proof_table :: "proof_record list"
  replica_table :: "replica_record list"
  request_table :: "request_record list"
  db_clock :: int
  faults :: "outcome list"

text \<open>A statement or a transaction \<open>f\<close>, run against the next answer of the database.\<close>

definition run_statement :: "(db \<Rightarrow> db \<times> 'a) \<Rightarrow> db \<Rightarrow> db \<times> (go_error, 'a) result" where
  "run_statement f s =
     (let s1 = s\<lparr>faults := tl (faults s)\<rparr> in
      case (case faults s of [] \<Rightarrow> Succeeds | o1 # _ \<Rightarrow> o1) of
        Succeeds \<Rightarrow> (case f s1 of (s2, x) \<Rightarrow> (s2, Inr x))
      | FailsBefore msg \<Rightarrow> (s1, Inl (Plain msg))
      | FailsAfter msg \<Rightarrow> (fst (f s1), Inl (Plain msg)))"

text \<open>A lookup by primary key, an insertion that does nothing on a conflict, and an update.\<close>

definition lookup_row :: "('r \<Rightarrow> 'k) \<Rightarrow> 'r list \<Rightarrow> 'k \<Rightarrow> 'r option" where
  "lookup_row row_key t k = find (\<lambda>r. row_key r = k) t"

definition insert_row :: "('r \<Rightarrow> 'k) \<Rightarrow> 'r \<Rightarrow> 'r list \<Rightarrow> 'r list" where
  "insert_row row_key r t = (if lookup_row row_key t (row_key r) = None then t @ [r] else t)"

definition update_rows :: "('r \<Rightarrow> bool) \<Rightarrow> ('r \<Rightarrow> 'r) \<Rightarrow> 'r list \<Rightarrow> 'r list" where
  "update_rows P f t = map (\<lambda>r. if P r then f r else r) t"

definition affected :: "('r \<Rightarrow> bool) \<Rightarrow> 'r list \<Rightarrow> nat" where
  "affected P t = length (filter P t)"

subsection \<open>Proofs\<close>

definition pg_find :: "db \<Rightarrow> string \<Rightarrow> string \<Rightarrow> db \<times> (go_error, proof_bundle) result" where
  "pg_find s ref ch =
     (case run_statement (\<lambda>s. (s, lookup_row proof_key (proof_table s) (ref, ch))) s of
        (s', res) \<Rightarrow>
          (s', and_then res (\<lambda>row. case row of
                 None \<Rightarrow> Inl ErrProofNotFound
               | Some r \<Rightarrow> Inr (bundle_of_record r))))"

definition pg_put :: "db \<Rightarrow> proof_bundle \<Rightarrow> db \<times> (go_error, proof_bundle) result" where
  "pg_put s b =
     (case run_statement (\<lambda>s. (s\<lparr>proof_table :=
             insert_row proof_key (record_from_bundle b (db_clock s)) (proof_table s)\<rparr>, ())) s of
        (s', Inl e) \<Rightarrow> (s', Inl e)
      | (s', Inr _) \<Rightarrow> pg_find s' (proof_ref b) (challenge_nonce b))"

definition pg_store :: "db store_ops" where
  "pg_store = \<lparr>store_find = pg_find, store_put = pg_put\<rparr>"

subsection \<open>Replicas\<close>

definition register_replica :: "db \<Rightarrow> replica \<Rightarrow> db \<times> (go_error, unit) result" where
  "register_replica s rep =
     run_statement (\<lambda>s.
       let row = \<lparr>rr_ref = rep_ref rep, rr_key_id = rep_key_id rep, rr_instance = rep_instance rep,
                  rr_heartbeat = rep_heartbeat rep, rr_draining = rep_draining rep,
                  rr_created = db_clock s, rr_updated = db_clock s\<rparr> in
       (s\<lparr>replica_table :=
          (if lookup_row rr_ref (replica_table s) (rr_ref row) = None then replica_table s @ [row]
           else update_rows (\<lambda>r. rr_ref r = rr_ref row)
                  (\<lambda>r. r\<lparr>rr_key_id := rr_key_id row, rr_instance := rr_instance row,
                         rr_heartbeat := rr_heartbeat row, rr_draining := rr_draining row,
                         rr_updated := db_clock s\<rparr>)
                  (replica_table s))\<rparr>, ())) s"

text \<open>The update of one replica, and the error when no row was affected.\<close>

definition update_replica ::
  "db \<Rightarrow> string \<Rightarrow> string \<Rightarrow> (db \<Rightarrow> replica_record \<Rightarrow> replica_record) \<Rightarrow> db \<times> (go_error, unit) result" where
  "update_replica s ref name f =
     (let P = (\<lambda>r. rr_ref r = ref \<and> rr_instance r = name) in
      case run_statement (\<lambda>s. (s\<lparr>replica_table := update_rows P (f s) (replica_table s)\<rparr>,
             affected P (replica_table s))) s of
        (s', res) \<Rightarrow>
          (s', and_then res (\<lambda>n. require (n \<noteq> 0) ErrReplicaNotFound (Inr ()))))"

definition heartbeat_replica :: "db \<Rightarrow> string \<Rightarrow> string \<Rightarrow> int \<Rightarrow> db \<times> (go_error, unit) result" where
  "heartbeat_replica s ref name now =
     update_replica s ref name
       (\<lambda>_ r. r\<lparr>rr_heartbeat := now, rr_draining := False, rr_updated := now\<rparr>)"

definition set_replica_draining :: "db \<Rightarrow> string \<Rightarrow> string \<Rightarrow> bool \<Rightarrow> db \<times> (go_error, unit) result" where
  "set_replica_draining s ref name draining =
     update_replica s ref name (\<lambda>s r. r\<lparr>rr_draining := draining, rr_updated := db_clock s\<rparr>)"

definition find_replica :: "db \<Rightarrow> string \<Rightarrow> db \<times> (go_error, replica) result" where
  "find_replica s ref =
     (case run_statement (\<lambda>s. (s, lookup_row rr_ref (replica_table s) ref)) s of
        (s', res) \<Rightarrow>
          (s', and_then res (\<lambda>row. case row of
                 None \<Rightarrow> Inl ErrReplicaNotFound
               | Some r \<Rightarrow> Inr \<lparr>rep_ref = rr_ref r, rep_key_id = rr_key_id r,
                                rep_instance = rr_instance r, rep_heartbeat = rr_heartbeat r,
                                rep_draining = rr_draining r\<rparr>)))"

subsection \<open>Requests\<close>

definition enqueue_request :: "db \<Rightarrow> proof_request \<Rightarrow> db \<times> (go_error, unit) result" where
  "enqueue_request s q =
     run_statement (\<lambda>s. (s\<lparr>request_table := insert_row request_key
         \<lparr>qr_ref = req_ref q, qr_nonce = req_nonce q, qr_status = RequestPending, qr_error = [],
          qr_requested = db_clock s, qr_expires = req_expires q, qr_lease = None, qr_attempts = 0,
          qr_completed = None, qr_updated = db_clock s\<rparr> (request_table s)\<rparr>, ())) s"

text \<open>
  The rows a claim may take: those of the owner that have not expired and are pending, or whose
  lease has run out (a comparison with a missing lease is not true).  Rows another transaction has
  locked are skipped.  The order is that of the request times, ties in physical order.
\<close>

definition claimable :: "string \<Rightarrow> int \<Rightarrow> request_record \<Rightarrow> bool" where
  "claimable ref now r \<longleftrightarrow>
     qr_ref r = ref \<and> now < qr_expires r
     \<and> (qr_status r = RequestPending
        \<or> qr_status r = RequestProcessing \<and> (case qr_lease r of None \<Rightarrow> False | Some l \<Rightarrow> l < now))"

definition claim_rows ::
  "string \<Rightarrow> int \<Rightarrow> nat \<Rightarrow> (string \<times> string) list \<Rightarrow> request_record list \<Rightarrow> request_record list" where
  "claim_rows ref now limit locked t =
     take limit (sort_key qr_requested
       (filter (\<lambda>r. claimable ref now r \<and> \<not> List.member locked (request_key r)) t))"

text \<open>The assignments of the claim, on the row in memory and on the row of the table.\<close>

definition claimed :: "int \<Rightarrow> request_record \<Rightarrow> request_record" where
  "claimed lease r =
     r\<lparr>qr_status := RequestProcessing, qr_lease := Some lease, qr_attempts := qr_attempts r + 1\<rparr>"

definition write_claim :: "int \<Rightarrow> int \<Rightarrow> request_record \<Rightarrow> request_record list \<Rightarrow> request_record list" where
  "write_claim now lease q t =
     update_rows (\<lambda>r. request_key r = request_key q)
       (\<lambda>r. r\<lparr>qr_status := RequestProcessing, qr_lease := Some lease, qr_attempts := qr_attempts q,
              qr_updated := now\<rparr>) t"

definition claim_requests ::
  "db \<Rightarrow> string \<Rightarrow> int \<Rightarrow> int \<Rightarrow> nat \<Rightarrow> (string \<times> string) list
     \<Rightarrow> db \<times> (go_error, proof_request list) result" where
  "claim_requests s ref now lease limit locked =
     (case run_statement (\<lambda>s.
        let rows = map (claimed lease) (claim_rows ref now limit locked (request_table s)) in
        (s\<lparr>request_table := foldl (\<lambda>t q. write_claim now lease q t) (request_table s) rows\<rparr>, rows)) s of
        (s', res) \<Rightarrow> (s', and_then res (\<lambda>rows. Inr (map proof_request_from_record rows))))"

definition complete_request :: "db \<Rightarrow> string \<Rightarrow> string \<Rightarrow> db \<times> (go_error, unit) result" where
  "complete_request s ref ch =
     run_statement (\<lambda>s. (s\<lparr>request_table := update_rows (\<lambda>r. request_key r = (ref, ch))
         (\<lambda>r. r\<lparr>qr_status := RequestComplete, qr_error := [], qr_lease := None,
                qr_completed := Some (db_clock s), qr_updated := db_clock s\<rparr>)
         (request_table s)\<rparr>, ())) s"

definition truncate_message :: "string \<Rightarrow> string" where
  "truncate_message m = (if 1024 < length m then take 1024 m else m)"

definition fail_request :: "db \<Rightarrow> string \<Rightarrow> string \<Rightarrow> string \<Rightarrow> db \<times> (go_error, unit) result" where
  "fail_request s ref ch message =
     run_statement (\<lambda>s. (s\<lparr>request_table := update_rows (\<lambda>r. request_key r = (ref, ch))
         (\<lambda>r. r\<lparr>qr_status := RequestFailed, qr_error := truncate_message message, qr_lease := None,
                qr_updated := db_clock s\<rparr>)
         (request_table s)\<rparr>, ())) s"

definition find_request :: "db \<Rightarrow> string \<Rightarrow> string \<Rightarrow> db \<times> (go_error, proof_request) result" where
  "find_request s ref ch =
     (case run_statement (\<lambda>s. (s, lookup_row request_key (request_table s) (ref, ch))) s of
        (s', res) \<Rightarrow>
          (s', and_then res (\<lambda>row. case row of
                 None \<Rightarrow> Inl ErrProofNotFound
               | Some r \<Rightarrow> Inr (proof_request_from_record r))))"

definition delete_expired_requests :: "db \<Rightarrow> int \<Rightarrow> db \<times> (go_error, unit) result" where
  "delete_expired_requests s now =
     run_statement (\<lambda>s. (s\<lparr>request_table :=
         filter (\<lambda>r. \<not> qr_expires r \<le> now) (request_table s)\<rparr>, ())) s"

subsection \<open>Configuration\<close>

text \<open>
  The process environment is the function \<open>os.Getenv\<close>, the empty string for a variable that is not
  set.  A result is the flag \<open>configured\<close> with the DSN or the error.
\<close>

type_synonym environ = "string \<Rightarrow> string"

type_synonym dsn_result = "bool \<times> (go_error, string) result"

record postgres_environment =
  env_dsn :: string
  env_host :: string
  env_port :: string
  env_user :: string
  env_password :: string
  env_database :: string
  env_ssl_mode :: string

definition tap_postgres_environment :: postgres_environment where
  "tap_postgres_environment =
     \<lparr>env_dsn = ''TAP_PG_DSN'', env_host = ''TAP_PG_HOST'', env_port = ''TAP_PG_PORT'',
      env_user = ''TAP_PG_USER'', env_password = ''TAP_PG_PASSWORD'',
      env_database = ''TAP_PG_DATABASE'', env_ssl_mode = ''TAP_PG_SSLMODE''\<rparr>"

definition legacy_postgres_environment :: postgres_environment where
  "legacy_postgres_environment =
     \<lparr>env_dsn = ''TRUSTED_PROXY_PG_DSN'', env_host = ''TRUSTED_PROXY_PG_HOST'',
      env_port = ''TRUSTED_PROXY_PG_PORT'', env_user = ''TRUSTED_PROXY_PG_USER'',
      env_password = ''TRUSTED_PROXY_PG_PASSWORD'', env_database = ''TRUSTED_PROXY_PG_DATABASE'',
      env_ssl_mode = ''TRUSTED_PROXY_PG_SSLMODE''\<rparr>"

definition postgres_dsn_from_secret :: "string \<Rightarrow> dsn_result" where
  "postgres_dsn_from_secret dsn =
     (True,
      if trim_space dsn = [] then Inl (Plain ''PostgreSQL DSN secret is empty'')
      else if contains_any dsn [CHR 0x00, CHR 13, CHR 10]
        then Inl (Plain ''PostgreSQL DSN secret must not contain NUL or line-break characters'')
      else Inr dsn)"

definition postgres_environment_configured :: "environ \<Rightarrow> postgres_environment \<Rightarrow> bool" where
  "postgres_environment_configured env names =
     list_ex (\<lambda>name. trim_space (env name) \<noteq> [])
       [env_dsn names, env_host names, env_port names, env_user names, env_password names,
        env_database names, env_ssl_mode names]"

definition postgres_url :: "string \<Rightarrow> string \<Rightarrow> string \<Rightarrow> string \<Rightarrow> string \<Rightarrow> string \<Rightarrow> url" where
  "postgres_url user password hostname port database ssl_mode =
     \<lparr>url_scheme = ''postgres'', url_opaque = [],
      url_user = Some (user, if password = [] then None else Some password),
      url_host = join_host_port hostname port, url_path = database, url_raw_path = [],
      url_omit_host = False, url_force_query = False,
      url_raw_query = ''sslmode='' @ url_escape UrlQuery ssl_mode, url_fragment = [],
      url_raw_fragment = []\<rparr>"

definition or_default :: "string \<Rightarrow> string \<Rightarrow> string" where
  "or_default v d = (if v = [] then d else v)"

definition postgres_dsn_from_environment_names :: "environ \<Rightarrow> postgres_environment \<Rightarrow> dsn_result" where
  "postgres_dsn_from_environment_names env names =
     (let get = (\<lambda>name. trim_space (env name)) in
      if get (env_dsn names) \<noteq> [] then (True, Inr (get (env_dsn names)))
      else if \<not> list_ex (\<lambda>name. get name \<noteq> [])
          [env_host names, env_port names, env_user names, env_password names, env_database names,
           env_ssl_mode names]
        then (False, Inr [])
      else
        (True,
         require (get (env_host names) \<noteq> [] \<and> get (env_user names) \<noteq> [] \<and> get (env_database names) \<noteq> [])
           (Plain (env_host names @ '', '' @ env_user names @ '', and '' @ env_database names
                     @ '' are required when PostgreSQL persistence is configured''))
           (Inr (url_string (postgres_url (get (env_user names)) (env (env_password names))
              (get (env_host names)) (or_default (get (env_port names)) ''5432'')
              (get (env_database names)) (or_default (get (env_ssl_mode names)) ''require''))))))"

definition postgres_dsn_from_environment :: "environ \<Rightarrow> dsn_result" where
  "postgres_dsn_from_environment env =
     (let tap = postgres_environment_configured env tap_postgres_environment;
          legacy = postgres_environment_configured env legacy_postgres_environment in
      if tap \<and> legacy
      then (True, Inl (Plain ''TAP_PG_* and deprecated TRUSTED_PROXY_PG_* variables cannot be combined''))
      else if legacy then postgres_dsn_from_environment_names env legacy_postgres_environment
      else postgres_dsn_from_environment_names env tap_postgres_environment)"

text \<open>
  \<open>openPostgres\<close>: the steps of the driver are a parameter, each with its error.  The result says
  whether the store is configured, whether the connection pool was closed again, and the store.
\<close>

record 'h pg_driver =
  drv_open :: "string \<Rightarrow> (go_error, 'h) result"
  drv_pool :: "'h \<Rightarrow> (go_error, unit) result"
  drv_ping :: "'h \<Rightarrow> (go_error, unit) result"
  drv_migrate :: "'h \<Rightarrow> (go_error, unit) result"

definition open_postgres :: "'h pg_driver \<Rightarrow> dsn_result \<Rightarrow> bool \<times> bool \<times> (go_error, 'h option) result" where
  "open_postgres drv cfg =
     (case cfg of
        (configured, Inl e) \<Rightarrow> (configured, False, Inl e)
      | (False, Inr _) \<Rightarrow> (False, False, Inr None)
      | (True, Inr dsn) \<Rightarrow>
          (case drv_open drv dsn of
             Inl e \<Rightarrow> (True, False, Inl (Wrapped ''connect to PostgreSQL'' e))
           | Inr h \<Rightarrow>
               (case drv_pool drv h of
                  Inl e \<Rightarrow> (True, False, Inl (Wrapped ''access PostgreSQL connection pool'' e))
                | Inr _ \<Rightarrow>
                    (case drv_ping drv h of
                       Inl e \<Rightarrow> (True, True, Inl (Wrapped ''ping PostgreSQL'' e))
                     | Inr _ \<Rightarrow>
                         (case drv_migrate drv h of
                            Inl e \<Rightarrow>
                              (True, True, Inl (Wrapped ''migrate PostgreSQL attestation tables'' e))
                          | Inr _ \<Rightarrow> (True, False, Inr (Some h)))))))"

end
