(* ===== verification/Router.thy ===== *)
theory Router
  imports Postgres
begin

section \<open>The proof router (internal/proofcache/router.go)\<close>

text \<open>
  Several replicas share one database.  A replica answers for its own proof reference itself and
  hands a request for another one to its owner through the request table: it enqueues the request
  and polls, and the owner's loop claims it, issues the proof and marks the request.  The store is
  the PostgreSQL one; \<open>db_clock\<close> is the current time, and what other processes do to the database
  while a call waits is a list of functions, one per tick of the polling timer.
\<close>

subsection \<open>Options\<close>

record router_options =
  heartbeat_interval :: int
  stale_after :: int
  poll_interval :: int
  request_timeout :: int
  request_ttl :: int
  lease_duration :: int
  batch_size :: int

definition default_router_options :: router_options where
  "default_router_options =
     \<lparr>heartbeat_interval = 10 * second, stale_after = 35 * second, poll_interval = 200 * 1000000,
      request_timeout = 15 * second, request_ttl = 30 * second, lease_duration = 20 * second,
      batch_size = 1\<rparr>"

record router =
  router_cache :: "db cache"
  instance_name :: string
  router_opts :: router_options

text \<open>\<open>NewRouter\<close>; a nil cache and a nil store are \<open>None\<close> and \<open>False\<close>.\<close>

definition new_router ::
  "db cache option \<Rightarrow> bool \<Rightarrow> string \<Rightarrow> router_options \<Rightarrow> (go_error, router) result" where
  "new_router cache_opt has_store name opts =
     (case cache_opt of
        None \<Rightarrow> Inl (Plain ''proof cache is required'')
      | Some c \<Rightarrow>
          require has_store (Plain ''routing store is required'') (
          require (name \<noteq> []) (Plain ''replica instance name is required'') (
          require (\<not> (heartbeat_interval opts \<le> 0 \<or> stale_after opts \<le> 0 \<or> poll_interval opts \<le> 0
                     \<or> request_timeout opts \<le> 0 \<or> request_ttl opts \<le> 0 \<or> lease_duration opts \<le> 0
                     \<or> batch_size opts \<le> 0))
            (Plain ''router durations and batch size must be positive'') (
          require (\<not> stale_after opts \<le> heartbeat_interval opts)
            (Plain ''router stale interval must exceed heartbeat interval'') (
          Inr \<lparr>router_cache = c, instance_name = name, router_opts = opts\<rparr>)))))"

abbreviation router_ref :: "router \<Rightarrow> string" where
  "router_ref r \<equiv> cache_proof_ref (router_cache r)"

subsection \<open>Registration\<close>

definition start_router :: "router \<Rightarrow> db \<Rightarrow> db \<times> (go_error, unit) result" where
  "start_router r s =
     (case register_replica s \<lparr>rep_ref = router_ref r, rep_key_id = cache_key_id (router_cache r),
             rep_instance = instance_name r, rep_heartbeat = db_clock s, rep_draining = False\<rparr> of
        (s', res) \<Rightarrow> (s', wrap_error ''register attestation replica'' res))"

definition drain_router :: "router \<Rightarrow> db \<Rightarrow> db \<times> (go_error, unit) result" where
  "drain_router r s = set_replica_draining s (router_ref r) (instance_name r) True"

subsection \<open>Resolving a proof\<close>

text \<open>
  The polling loop.  A tick is what the others have done since the last one; when no tick is left
  the waiting context has ended, by its deadline or by a cancellation.
\<close>

fun wait_for_proof ::
  "string \<Rightarrow> string \<Rightarrow> (db \<Rightarrow> db) list \<Rightarrow> bool \<Rightarrow> db \<Rightarrow> db \<times> (go_error, proof_bundle) result" where
  "wait_for_proof ref ch ticks cancelled s =
     (case pg_find s ref ch of
        (s1, Inr b) \<Rightarrow> (s1, Inr b)
      | (s1, Inl e) \<Rightarrow>
          (if \<not> is_error ErrProofNotFound e
           then (s1, Inl (Wrapped ''load completed attestation proof'' e))
           else (case find_request s1 ref ch of (s2, queued) \<Rightarrow>
             (case queued of
                Inl e2 \<Rightarrow>
                  (if \<not> is_error ErrProofNotFound e2
                   then (s2, Inl (Wrapped ''load attestation proof request'' e2))
                   else (case ticks of
                      [] \<Rightarrow> (s2, Inl (if cancelled then Plain ''context canceled'' else ErrProofRequestTimeout))
                    | t # ts \<Rightarrow> wait_for_proof ref ch ts cancelled (t s2)))
              | Inr q \<Rightarrow>
                  (if req_status q = RequestFailed
                   then (s2, Inl (WrappedWith ErrProofRequestFailed (req_error q)))
                   else (case ticks of
                      [] \<Rightarrow> (s2, Inl (if cancelled then Plain ''context canceled'' else ErrProofRequestTimeout))
                    | t # ts \<Rightarrow> wait_for_proof ref ch ts cancelled (t s2)))))))"

declare wait_for_proof.simps [simp del]

text \<open>The part of \<open>Resolve\<close> after the owner has been found.\<close>

definition ask_owner ::
  "router \<Rightarrow> replica \<Rightarrow> db \<Rightarrow> string \<Rightarrow> string \<Rightarrow> (db \<Rightarrow> db) list \<Rightarrow> bool
     \<Rightarrow> db \<times> (go_error, proof_bundle) result" where
  "ask_owner r owner s ref ch ticks cancelled =
     (if rep_draining owner
         \<or> stale_after (router_opts r) < time_sub (db_clock s) (rep_heartbeat owner)
      then (s, Inl ErrProofOwnerUnavailable)
      else
        (case enqueue_request s \<lparr>req_ref = ref, req_nonce = ch, req_status = RequestPending,
                req_error = [], req_expires = db_clock s + request_ttl (router_opts r)\<rparr> of
           (s1, Inl e) \<Rightarrow> (s1, Inl (Wrapped ''enqueue attestation proof request'' e))
         | (s1, Inr _) \<Rightarrow> wait_for_proof ref ch ticks cancelled s1))"

definition resolve ::
  "router \<Rightarrow> provider \<Rightarrow> db \<Rightarrow> string \<Rightarrow> string \<Rightarrow> (db \<Rightarrow> db) list \<Rightarrow> bool
     \<Rightarrow> db \<times> (go_error, proof_bundle) result" where
  "resolve r prov s ref ch ticks cancelled =
     (if ref = router_ref r then issue (router_cache r) s prov (db_clock s) ch
      else (case pg_find s ref ch of
         (s1, Inr b) \<Rightarrow> (s1, Inr b)
       | (s1, Inl e) \<Rightarrow>
           (if \<not> is_error ErrProofNotFound e
            then (s1, Inl (Wrapped ''load routed attestation proof'' e))
            else (case find_replica s1 ref of
               (s2, Inl e2) \<Rightarrow>
                 (if is_error ErrReplicaNotFound e2 then (s2, Inl ErrProofNotFound)
                  else (s2, Inl (Wrapped ''find attestation proof owner'' e2)))
             | (s2, Inr owner) \<Rightarrow> ask_owner r owner s2 ref ch ticks cancelled))))"

subsection \<open>Serving requests\<close>

text \<open>One claimed request: the proof is issued and the row marked; errors of the marking are logged.\<close>

definition process_request :: "router \<Rightarrow> provider \<Rightarrow> db \<Rightarrow> proof_request \<Rightarrow> db" where
  "process_request r prov s q =
     (case issue (router_cache r) s prov (db_clock s) (req_nonce q) of
        (s1, Inl e) \<Rightarrow> fst (fail_request s1 (req_ref q) (req_nonce q) (error_text e))
      | (s1, Inr _) \<Rightarrow> fst (complete_request s1 (req_ref q) (req_nonce q)))"

definition process_pending ::
  "router \<Rightarrow> provider \<Rightarrow> int \<Rightarrow> (string \<times> string) list \<Rightarrow> db \<Rightarrow> db" where
  "process_pending r prov now locked s =
     (case claim_requests s (router_ref r) now (now + lease_duration (router_opts r))
             (nat (batch_size (router_opts r))) locked of
        (s1, Inl _) \<Rightarrow> s1
      | (s1, Inr reqs) \<Rightarrow> foldl (process_request r prov) s1 reqs)"

text \<open>
  The loop \<open>run\<close>, as the events its \<open>select\<close> meets: a tick of one of the two timers, or the end of
  the context, which drains the replica and stops.  Between events others may use the database.
\<close>

datatype run_event =
    HeartbeatTick int
  | PollTick int provider "(string \<times> string) list"
  | ContextDone
  | Others "db \<Rightarrow> db"

definition heartbeat_tick :: "router \<Rightarrow> int \<Rightarrow> db \<Rightarrow> db" where
  "heartbeat_tick r now s =
     fst (delete_expired_requests
       (fst (heartbeat_replica s (router_ref r) (instance_name r) now)) now)"

fun run_router :: "router \<Rightarrow> run_event list \<Rightarrow> db \<Rightarrow> db" where
  "run_router r [] s = s"
| "run_router r (HeartbeatTick now # evs) s = run_router r evs (heartbeat_tick r now s)"
| "run_router r (PollTick now prov locked # evs) s =
     run_router r evs (process_pending r prov now locked s)"
| "run_router r (ContextDone # evs) s = fst (drain_router r s)"
| "run_router r (Others f # evs) s = run_router r evs (f s)"

end
