(* ===== verification/PostgresProps.thy ===== *)
theory PostgresProps
  imports Postgres
begin

section \<open>What the PostgreSQL store guarantees\<close>

text \<open>
  The store is an instance of the interface the cache relies on; the tables keep their primary keys;
  and a claim takes the right rows and takes them exclusively.  All facts hold for every sequence of
  answers of the database.
\<close>

subsection \<open>Statements\<close>

lemma run_statement_cases:
  obtains (ok) s2 x where "f (s\<lparr>faults := tl (faults s)\<rparr>) = (s2, x)" "run_statement f s = (s2, Inr x)"
    | (before) msg where "run_statement f s = (s\<lparr>faults := tl (faults s)\<rparr>, Inl (Plain msg))"
    | (after_effect) msg where
        "run_statement f s = (fst (f (s\<lparr>faults := tl (faults s)\<rparr>)), Inl (Plain msg))"
  by (cases "case faults s of [] \<Rightarrow> Succeeds | o1 # _ \<Rightarrow> o1"; cases "f (s\<lparr>faults := tl (faults s)\<rparr>)")
    (auto simp: run_statement_def Let_def)

text \<open>A statement that only reads changes the pending answers only.\<close>

lemma run_read:
  "fst (run_statement (\<lambda>s. (s, g s)) s) = s\<lparr>faults := tl (faults s)\<rparr>"
  by (rule run_statement_cases[of "\<lambda>s. (s, g s)" s]) auto

lemma run_no_fault:
  "faults s = [] \<Longrightarrow> run_statement f s = (fst (f s), Inr (snd (f s)))"
  by (simp add: run_statement_def split: prod.split) (metis db.surjective db.update_convs(5) fst_conv snd_conv)

lemma run_read_result:
  "snd (run_statement (\<lambda>s. (s, g s)) s) = Inr x \<Longrightarrow> x = g (s\<lparr>faults := tl (faults s)\<rparr>)"
  by (rule run_statement_cases[of "\<lambda>s. (s, g s)" s]) auto

lemma run_statement_Inr:
  "run_statement f s = (s', Inr x) \<Longrightarrow> f (s\<lparr>faults := tl (faults s)\<rparr>) = (s', x)"
  by (rule run_statement_cases[of f s]) auto

lemma run_error:
  "snd (run_statement f s) = Inl e \<Longrightarrow> \<exists>msg. e = Plain msg"
  by (rule run_statement_cases[of f s]) auto

subsection \<open>Rows\<close>

lemma lookup_row_Some:
  "lookup_row row_key t k = Some r \<Longrightarrow> r \<in> set t \<and> row_key r = k"
  by (auto simp: lookup_row_def find_Some_iff)

lemma lookup_row_None: "lookup_row row_key t k = None \<longleftrightarrow> k \<notin> row_key ` set t"
  by (auto simp: lookup_row_def find_None_iff)

lemma lookup_row_distinct:
  assumes "distinct (map row_key t)" and "r \<in> set t"
  shows "lookup_row row_key t (row_key r) = Some r"
proof (cases "lookup_row row_key t (row_key r)")
  case None
  then show ?thesis using assms(2) by (auto simp: lookup_row_None)
next
  case (Some q)
  then have "q \<in> set t" "row_key q = row_key r" by (auto dest: lookup_row_Some)
  then show ?thesis using assms Some by (metis distinct_map inj_onD)
qed

lemma lookup_row_append:
  "lookup_row row_key (t @ u) k =
     (case lookup_row row_key t k of None \<Rightarrow> lookup_row row_key u k | Some r \<Rightarrow> Some r)"
  by (induction t) (auto simp: lookup_row_def)

lemma lookup_row_single: "lookup_row row_key [r] k = (if row_key r = k then Some r else None)"
  by (simp add: lookup_row_def)

lemma lookup_insert_row:
  "lookup_row row_key (insert_row row_key r t) k =
     (if k = row_key r \<and> lookup_row row_key t k = None then Some r else lookup_row row_key t k)"
  by (auto simp: insert_row_def lookup_row_append lookup_row_single split: option.split)

lemma lookup_update_rows:
  "(\<And>r. row_key (f r) = row_key r) \<Longrightarrow>
     lookup_row row_key (update_rows P f t) k =
       map_option (\<lambda>r. if P r then f r else r) (lookup_row row_key t k)"
  by (induction t) (auto simp: lookup_row_def update_rows_def)

lemma keys_update_rows:
  "(\<And>r. row_key (f r) = row_key r) \<Longrightarrow> map row_key (update_rows P f t) = map row_key t"
  by (auto simp: update_rows_def)

lemma keys_insert_row: "distinct (map row_key t) \<Longrightarrow> distinct (map row_key (insert_row row_key r t))"
  by (auto simp: insert_row_def lookup_row_None)

subsection \<open>Bundles and rows\<close>

lemma wrap64_id: "in_int64 n \<Longrightarrow> wrap64 n = n"
  by (simp add: wrap64_def in_int64_def int64_min_def int64_max_def)

lemma unix_round_trip:
  assumes "in_int64 n"
  shows "unix_seconds (time_unix n) = n"
proof -
  have "unix_seconds (time_unix n) = wrap64 (wrap64 (n + unix_to_internal) - unix_to_internal)"
    by (simp add: unix_seconds_def time_unix_def second_def)
  also have "\<dots> = wrap64 n"
    by (simp add: wrap64_def mod_simps)
  finally show ?thesis using assms by (simp add: wrap64_id)
qed

lemma record_round_trip: "in_int64 (expires_at b) \<Longrightarrow> bundle_of_record (record_from_bundle b now) = b"
  by (simp add: bundle_of_record_def record_from_bundle_def unix_round_trip)

subsection \<open>The store interface\<close>

definition db_content :: "db \<Rightarrow> (string \<times> string) \<Rightarrow> proof_bundle option" where
  "db_content s k = map_option bundle_of_record (lookup_row proof_key (proof_table s) k)"

lemma db_content_faults [simp]: "db_content (s\<lparr>faults := fs\<rparr>) = db_content s"
  by (simp add: db_content_def fun_eq_iff)

lemma pg_find_cases:
  "pg_find s ref ch = (s\<lparr>faults := tl (faults s)\<rparr>,
      case db_content s (ref, ch) of None \<Rightarrow> Inl ErrProofNotFound | Some b \<Rightarrow> Inr b)
   \<or> (\<exists>msg. pg_find s ref ch = (s\<lparr>faults := tl (faults s)\<rparr>, Inl (Plain msg)))"
  by (rule run_statement_cases[of "\<lambda>s. (s, lookup_row proof_key (proof_table s) (ref, ch))" s])
    (auto simp: pg_find_def db_content_def split: option.split)

lemma pg_find_state: "fst (pg_find s ref ch) = s\<lparr>faults := tl (faults s)\<rparr>"
  using pg_find_cases[of s ref ch] by auto

lemma pg_find_result:
  "snd (pg_find s ref ch) = Inr b \<Longrightarrow> db_content s (ref, ch) = Some b"
  "snd (pg_find s ref ch) = Inl e \<Longrightarrow> is_error ErrProofNotFound e \<Longrightarrow> db_content s (ref, ch) = None"
  using pg_find_cases[of s ref ch] by (auto split: option.splits)

lemma record_key: "proof_key (record_from_bundle b now) = bundle_key b"
  by (simp add: proof_key_def record_from_bundle_def bundle_key_def)

lemma insert_proof_content:
  assumes "in_int64 (expires_at b)"
  shows "db_content (s\<lparr>proof_table := insert_row proof_key (record_from_bundle b now) (proof_table s)\<rparr>) =
    (if db_content s (bundle_key b) = None then (db_content s)(bundle_key b \<mapsto> b) else db_content s)"
  using assms
  by (auto simp: db_content_def fun_eq_iff lookup_insert_row record_key record_round_trip)

lemma pg_put_content:
  assumes "in_int64 (expires_at b)"
  shows "db_content (fst (pg_put s b)) = db_content s
    \<or> db_content s (bundle_key b) = None
        \<and> db_content (fst (pg_put s b)) = (db_content s)(bundle_key b \<mapsto> b)"
proof -
  let ?f = "\<lambda>s. (s\<lparr>proof_table :=
      insert_row proof_key (record_from_bundle b (db_clock s)) (proof_table s)\<rparr>, ())"
  note ins = insert_proof_content[OF assms, where s = "s\<lparr>faults := tl (faults s)\<rparr>" and now = "db_clock s"]
  show ?thesis
  proof (rule run_statement_cases[of ?f s], goal_cases)
    case (1 s2 x)
    then show ?case using ins by (auto simp: pg_put_def pg_find_state)
  next
    case (2 msg)
    then show ?case by (simp add: pg_put_def)
  next
    case (3 msg)
    then show ?case using ins by (auto simp: pg_put_def)
  qed
qed

interpretation pg: proof_store pg_store db_content
proof (unfold_locales, goal_cases)
  case (1 s ref ch)
  then show ?case by (simp add: pg_store_def pg_find_state)
next
  case (2 s ref ch b)
  then show ?case by (simp add: pg_store_def pg_find_result)
next
  case (3 s ref ch e)
  then show ?case by (simp add: pg_store_def pg_find_result)
next
  case (4 b s)
  then show ?case using pg_put_content[of b s] by (simp add: pg_store_def)
next
  case (5 b s b')
  then show ?case
    by (auto simp: pg_store_def pg_put_def pg_find_state bundle_key_def
        split: prod.splits sum.splits dest: pg_find_result(1))
qed

subsection \<open>Issuing against the database\<close>

text \<open>
  A run of \<open>Issue\<close> calls of any caches on one database; each result comes with the pair it is for.
\<close>

fun run_issues ::
  "db \<Rightarrow> (db cache \<times> provider \<times> int \<times> string) list
     \<Rightarrow> db \<times> ((string \<times> string) \<times> (go_error, proof_bundle) result) list" where
  "run_issues s [] = (s, [])"
| "run_issues s ((c, prov, now, ch) # calls) =
     (case issue c s prov now ch of (s1, res) \<Rightarrow>
        (case run_issues s1 calls of (s2, results) \<Rightarrow>
           (s2, ((cache_proof_ref c, ch), res) # results)))"

definition on_database :: "(db cache \<times> 'x) list \<Rightarrow> bool" where
  "on_database calls \<longleftrightarrow> list_all (\<lambda>call. cache_store (fst call) = Some pg_store) calls"

lemma run_issues_content:
  assumes "on_database calls" and "run_issues s calls = (s', results)"
  shows "(db_content s k = Some b \<longrightarrow> db_content s' k = Some b)
    \<and> ((k, Inr b) \<in> set results \<longrightarrow> db_content s' k = Some b)"
  using assms
proof (induction s calls arbitrary: s' results rule: run_issues.induct)
  case (2 s c prov now ch calls)
  obtain s1 res where i: "issue c s prov now ch = (s1, res)" by fastforce
  obtain s2 rs where r: "run_issues s1 calls = (s2, rs)" by fastforce
  have c: "cache_store c = Some pg_store" "on_database calls"
    using 2(2) by (simp_all add: on_database_def)
  have res: "s' = s2" "results = ((cache_proof_ref c, ch), res) # rs"
    using 2(3) i r by auto
  have "db_content s k = Some b \<Longrightarrow> db_content s1 k = Some b"
    using pg.issue_monotone[OF c(1), of s k b prov now ch] i by simp
  moreover have "res = Inr b \<Longrightarrow> db_content s1 (cache_proof_ref c, ch) = Some b"
    using pg.issue_answer[OF c(1), of s prov now ch b] i by simp
  ultimately show ?case
    using "2.IH"[OF i[symmetric] c(2) r] unfolding res by auto
qed simp

text \<open>
  C6: An issued proof never changes.  In any run of \<open>Issue\<close> calls, by any replicas, with any answers
  of the token provider and any faults of the database, two successful answers for the same proof
  reference and challenge are the same bundle, the bundle is what the database holds at the end, and
  it is the one that was there at the start if there was one.\<close>

theorem issued_proofs_immutable:
  assumes "on_database calls" and "run_issues s calls = (s', results)"
    and "(k, Inr b) \<in> set results" and "(k, Inr b') \<in> set results"
  shows "b = b' \<and> db_content s' k = Some b \<and> (db_content s k = None \<or> db_content s k = Some b)"
  using run_issues_content[OF assms(1,2), of k] assms(3,4) by (metis not_None_eq option.inject)

subsection \<open>Claims\<close>

text \<open>What the transaction of a claim does to one row of the table.\<close>

definition claimed_row :: "int \<Rightarrow> int \<Rightarrow> request_record \<Rightarrow> request_record" where
  "claimed_row now lease r = (claimed lease r)\<lparr>qr_updated := now\<rparr>"

definition stamp :: "int \<Rightarrow> int \<Rightarrow> request_record \<Rightarrow> request_record \<Rightarrow> request_record" where
  "stamp now lease q r =
     (if request_key r = request_key q
      then r\<lparr>qr_status := RequestProcessing, qr_lease := Some lease,
             qr_attempts := qr_attempts q + 1, qr_updated := now\<rparr> else r)"

lemma stamp_simps:
  "request_key (stamp now lease q r) = request_key r"
  "stamp now lease r r = claimed_row now lease r"
  "stamp now lease r (claimed_row now lease r) = claimed_row now lease r"
  "request_key q \<noteq> request_key r \<Longrightarrow> stamp now lease q r = r"
  "request_key (claimed_row now lease r) = request_key r"
  by (auto simp: stamp_def claimed_row_def claimed_def request_key_def)

lemma write_claim_stamp: "write_claim now lease (claimed lease q) t = map (stamp now lease q) t"
  by (auto simp: write_claim_def update_rows_def stamp_def claimed_def request_key_def)

lemma fold_stamps:
  assumes "\<forall>q \<in> set qs. request_key q = request_key r \<longrightarrow> q = r"
  shows "foldl (\<lambda>r q. stamp now lease q r) (claimed_row now lease r) qs = claimed_row now lease r"
    and "foldl (\<lambda>r q. stamp now lease q r) r qs = (if r \<in> set qs then claimed_row now lease r else r)"
proof -
  have done1: "foldl (\<lambda>r q. stamp now lease q r) (claimed_row now lease r) qs = claimed_row now lease r"
    if "\<forall>q \<in> set qs. request_key q = request_key r \<longrightarrow> q = r" for qs
    using that
  proof (induction qs)
    case (Cons q qs)
    then have "stamp now lease q (claimed_row now lease r) = claimed_row now lease r"
      by (cases "request_key q = request_key r") (auto simp: stamp_simps)
    with Cons show ?case by simp
  qed simp
  show "foldl (\<lambda>r q. stamp now lease q r) (claimed_row now lease r) qs = claimed_row now lease r"
    using assms by (rule done1)
  show "foldl (\<lambda>r q. stamp now lease q r) r qs = (if r \<in> set qs then claimed_row now lease r else r)"
    using assms
  proof (induction qs)
    case (Cons q qs)
    show ?case
    proof (cases "request_key q = request_key r")
      case True
      then have "q = r" using Cons.prems by simp
      then show ?thesis using done1[of qs] Cons.prems by (simp add: stamp_simps)
    next
      case False
      with Cons show ?thesis by (auto simp: stamp_simps)
    qed
  qed simp
qed

lemma write_claim_rows:
  assumes "distinct (map request_key t)" and "set qs \<subseteq> set t"
  shows "foldl (\<lambda>t q. write_claim now lease q t) t (map (claimed lease) qs)
    = map (\<lambda>r. if r \<in> set qs then claimed_row now lease r else r) t"
proof -
  have "foldl (\<lambda>t q. write_claim now lease q t) u (map (claimed lease) qs)
      = map (\<lambda>r. foldl (\<lambda>r q. stamp now lease q r) r qs) u" for u
    by (induction qs arbitrary: u) (simp_all add: write_claim_stamp comp_def)
  moreover have "\<forall>q \<in> set qs. request_key q = request_key r \<longrightarrow> q = r" if "r \<in> set t" for r
    using assms that by (auto simp: distinct_map inj_on_def subset_iff)
  ultimately show ?thesis by (simp add: fold_stamps(2))
qed

lemma claim_rows_subset: "set (claim_rows ref now limit locked t) \<subseteq> set t"
  by (auto simp: claim_rows_def dest: in_set_takeD)

lemma claim_requests_Inr:
  assumes "claim_requests s ref now lease limit locked = (s', Inr reqs)"
    and "distinct (map request_key (request_table s))"
  shows "reqs = map (\<lambda>r. proof_request_from_record (claimed lease r))
      (claim_rows ref now limit locked (request_table s))"
    and "s' = s\<lparr>faults := tl (faults s), request_table :=
      map (\<lambda>r. if r \<in> set (claim_rows ref now limit locked (request_table s))
               then claimed_row now lease r else r) (request_table s)\<rparr>"
proof -
  let ?f = "\<lambda>s. let rows = map (claimed lease) (claim_rows ref now limit locked (request_table s)) in
        (s\<lparr>request_table := foldl (\<lambda>t q. write_claim now lease q t) (request_table s) rows\<rparr>, rows)"
  obtain rows where run: "run_statement ?f s = (s', Inr rows)"
    and reqs: "reqs = map proof_request_from_record rows"
    using assms(1) by (auto simp: claim_requests_def and_then_Inr_iff split: prod.splits)
  from run_statement_Inr[OF run]
  have "rows = map (claimed lease) (claim_rows ref now limit locked (request_table s))"
    "s' = s\<lparr>faults := tl (faults s), request_table :=
       foldl (\<lambda>t q. write_claim now lease q t) (request_table s)
         (map (claimed lease) (claim_rows ref now limit locked (request_table s)))\<rparr>"
    by (auto simp: Let_def)
  then show "reqs = map (\<lambda>r. proof_request_from_record (claimed lease r))
      (claim_rows ref now limit locked (request_table s))"
    and "s' = s\<lparr>faults := tl (faults s), request_table :=
      map (\<lambda>r. if r \<in> set (claim_rows ref now limit locked (request_table s))
               then claimed_row now lease r else r) (request_table s)\<rparr>"
    unfolding reqs by (simp_all add: comp_def write_claim_rows[OF assms(2) claim_rows_subset])
qed

lemma claim_rows_order:
  "sorted (map qr_requested (claim_rows ref now limit locked t))"
  unfolding claim_rows_def by (metis sorted_sort_key sorted_wrt_take take_map)

text \<open>Nothing that could have been claimed and is left is older than something taken.\<close>

lemma claim_rows_fair:
  assumes "r \<in> set t" and "claimable ref now r" and "\<not> List.member locked (request_key r)"
    and "r \<notin> set (claim_rows ref now limit locked t)"
  shows "length (claim_rows ref now limit locked t) = limit
    \<and> (\<forall>q \<in> set (claim_rows ref now limit locked t). qr_requested q \<le> qr_requested r)"
proof -
  let ?xs = "sort_key qr_requested (filter (\<lambda>r. claimable ref now r \<and> \<not> List.member locked (request_key r)) t)"
  have "r \<in> set ?xs" using assms(1-3) by simp
  then have d: "r \<in> set (drop limit ?xs)"
    using assms(4) unfolding claim_rows_def by (metis Un_iff append_take_drop_id set_append)
  then have "limit < length ?xs" by (metis drop_all empty_iff empty_set not_le)
  moreover have "sorted (map qr_requested (take limit ?xs) @ map qr_requested (drop limit ?xs))"
    by (metis append_take_drop_id map_append sorted_sort_key)
  then have "\<forall>q \<in> set (take limit ?xs). qr_requested q \<le> qr_requested r"
    using d unfolding sorted_append by simp
  ultimately show ?thesis unfolding claim_rows_def by simp
qed

text \<open>
  C22: What a claim does.  A successful claim returns, oldest first and at most \<open>limit\<close> of them, rows
  of the owner that were claimable and not locked; when a claimable row is left behind, the limit
  was reached and the row is not older than any row taken; and the new table is the old one with
  exactly the taken rows leased, in processing and their attempts counted.\<close>

theorem claim_requests_exact:
  assumes "claim_requests s ref now lease limit locked = (s', Inr reqs)"
    and "distinct (map request_key (request_table s))"
  shows "\<exists>taken. reqs = map (\<lambda>r. proof_request_from_record (claimed lease r)) taken
    \<and> length taken \<le> limit \<and> sorted (map qr_requested taken)
    \<and> (\<forall>r \<in> set taken. r \<in> set (request_table s) \<and> claimable ref now r
         \<and> \<not> List.member locked (request_key r))
    \<and> (\<forall>r \<in> set (request_table s). claimable ref now r \<longrightarrow> \<not> List.member locked (request_key r)
         \<longrightarrow> r \<notin> set taken \<longrightarrow> length taken = limit \<and> (\<forall>q \<in> set taken. qr_requested q \<le> qr_requested r))
    \<and> s' = s\<lparr>faults := tl (faults s), request_table :=
        map (\<lambda>r. if r \<in> set taken then claimed_row now lease r else r) (request_table s)\<rparr>"
proof -
  let ?taken = "claim_rows ref now limit locked (request_table s)"
  have "\<forall>r \<in> set ?taken. r \<in> set (request_table s) \<and> claimable ref now r
      \<and> \<not> List.member locked (request_key r)"
    by (auto simp: claim_rows_def dest: in_set_takeD)
  moreover have "length ?taken \<le> limit" by (simp add: claim_rows_def)
  ultimately show ?thesis
    using claim_requests_Inr[OF assms] claim_rows_order claim_rows_fair by blast
qed


subsection \<open>Invariants of the tables\<close>

definition request_ok :: "request_record \<Rightarrow> bool" where
  "request_ok r \<longleftrightarrow>
     List.member [RequestPending, RequestProcessing, RequestComplete, RequestFailed] (qr_status r)
     \<and> (qr_status r = RequestProcessing) = (qr_lease r \<noteq> None)
     \<and> (qr_status r \<noteq> RequestComplete \<or> qr_completed r \<noteq> None)
     \<and> (qr_status r \<noteq> RequestPending \<or> qr_attempts r = 0)
     \<and> length (qr_error r) \<le> 1024"

definition db_ok :: "db \<Rightarrow> bool" where
  "db_ok s \<longleftrightarrow>
     distinct (map proof_key (proof_table s)) \<and> distinct (map rr_ref (replica_table s))
     \<and> distinct (map request_key (request_table s)) \<and> list_all request_ok (request_table s)"

text \<open>
  One call of a method of the store, with any arguments, or the passing of time: first the calls
  that any part of the program makes, then the three that only the loop of an owner makes.
\<close>

inductive shared_step :: "db \<Rightarrow> db \<Rightarrow> bool" where
  find_step: "shared_step s (fst (pg_find s ref ch))"
| put_step: "in_int64 (expires_at b) \<Longrightarrow> shared_step s (fst (pg_put s b))"
| register_step: "shared_step s (fst (register_replica s rep))"
| heartbeat_step: "shared_step s (fst (heartbeat_replica s ref name now))"
| drain_step: "shared_step s (fst (set_replica_draining s ref name draining))"
| find_replica_step: "shared_step s (fst (find_replica s ref))"
| enqueue_step: "shared_step s (fst (enqueue_request s q))"
| find_request_step: "shared_step s (fst (find_request s ref ch))"
| delete_step: "shared_step s (fst (delete_expired_requests s now))"
| clock_step: "shared_step s (s\<lparr>db_clock := t\<rparr>)"

inductive db_step :: "db \<Rightarrow> db \<Rightarrow> bool" where
  shared: "shared_step s s' \<Longrightarrow> db_step s s'"
| claim_step: "db_step s (fst (claim_requests s ref now lease limit locked))"
| complete_step: "db_step s (fst (complete_request s ref ch))"
| fail_step: "db_step s (fst (fail_request s ref ch msg))"

text \<open>An invariant only has to be kept by the effect of the statement.\<close>

lemma run_statement_invar:
  assumes "\<And>s. P s \<Longrightarrow> P (fst (f s))" and "\<And>fs. P s \<Longrightarrow> P (s\<lparr>faults := fs\<rparr>)" and "P s"
  shows "P (fst (run_statement f s))"
proof (rule run_statement_cases[of f s])
  fix s2 x
  assume "f (s\<lparr>faults := tl (faults s)\<rparr>) = (s2, x)" "run_statement f s = (s2, Inr x)"
  then show ?thesis using assms(1)[OF assms(2)[OF assms(3)], of "tl (faults s)"] by simp
qed (use assms in auto)

lemma fst_case_prod: "fst (case p of (s', res) \<Rightarrow> (s', g res)) = fst p"
  by (simp split: prod.split)

lemma db_ok_frame [simp]: "db_ok (s\<lparr>faults := fs\<rparr>) = db_ok s" "db_ok (s\<lparr>db_clock := t\<rparr>) = db_ok s"
  by (simp_all add: db_ok_def)

lemma distinct_keys_update:
  "(\<And>r. row_key (f r) = row_key r) \<Longrightarrow> distinct (map row_key (update_rows P f t)) = distinct (map row_key t)"
  by (simp add: keys_update_rows)

lemma list_all_update:
  "list_all Q t \<Longrightarrow> (\<And>r. Q r \<Longrightarrow> Q (f r)) \<Longrightarrow> list_all Q (update_rows P f t)"
  by (induction t) (auto simp: update_rows_def)

lemma list_all_insert: "list_all Q t \<Longrightarrow> Q r \<Longrightarrow> list_all Q (insert_row row_key r t)"
  by (simp add: insert_row_def)

lemma request_ok_rows:
  "request_ok \<lparr>qr_ref = a, qr_nonce = b, qr_status = RequestPending, qr_error = [], qr_requested = t,
     qr_expires = e, qr_lease = None, qr_attempts = 0, qr_completed = None, qr_updated = u\<rparr>"
  "request_ok r \<Longrightarrow> request_ok (claimed_row now lease r)"
  "request_ok r \<Longrightarrow> request_ok (r\<lparr>qr_status := RequestComplete, qr_error := [], qr_lease := None,
     qr_completed := Some t, qr_updated := t\<rparr>)"
  "request_ok r \<Longrightarrow> request_ok (r\<lparr>qr_status := RequestFailed, qr_error := truncate_message m,
     qr_lease := None, qr_updated := t\<rparr>)"
  by (simp_all add: request_ok_def claimed_row_def claimed_def truncate_message_def status_defs)

lemma put_effect_ok:
  "db_ok s \<Longrightarrow> db_ok (s\<lparr>proof_table := insert_row proof_key r (proof_table s)\<rparr>)"
  by (simp add: db_ok_def keys_insert_row)

lemma pg_put_ok: "db_ok s \<Longrightarrow> db_ok (fst (pg_put s b))"
proof -
  let ?f = "\<lambda>s. (s\<lparr>proof_table :=
      insert_row proof_key (record_from_bundle b (db_clock s)) (proof_table s)\<rparr>, ())"
  assume "db_ok s"
  then have "db_ok (fst (run_statement ?f s))"
    by (intro run_statement_invar[where P = db_ok]) (simp_all add: put_effect_ok)
  moreover obtain s1 res where "run_statement ?f s = (s1, res)" by fastforce
  ultimately show ?thesis by (cases res) (simp_all add: pg_put_def pg_find_state)
qed

lemma update_replica_ok:
  "(\<And>s r. rr_ref (f s r) = rr_ref r) \<Longrightarrow> db_ok s \<Longrightarrow> db_ok (fst (update_replica s ref name f))"
  unfolding update_replica_def Let_def fst_case_prod
  by (rule run_statement_invar[where P = db_ok]) (simp_all add: db_ok_def distinct_keys_update)

lemma register_ok: "db_ok s \<Longrightarrow> db_ok (fst (register_replica s rep))"
  unfolding register_replica_def
  by (rule run_statement_invar[where P = db_ok])
    (auto simp: db_ok_def Let_def distinct_keys_update lookup_row_None)

lemma claim_effect_ok:
  assumes "db_ok s"
  shows "db_ok (s\<lparr>request_table := foldl (\<lambda>t q. write_claim now lease q t) (request_table s)
      (map (claimed lease) (claim_rows ref now limit locked (request_table s)))\<rparr>)"
proof -
  let ?t = "map (\<lambda>r. if r \<in> set (claim_rows ref now limit locked (request_table s))
      then claimed_row now lease r else r) (request_table s)"
  have "map request_key ?t = map request_key (request_table s)" by (auto simp: stamp_simps)
  then have "distinct (map request_key ?t)" using assms unfolding db_ok_def by (simp only:)
  moreover have "list_all request_ok ?t"
    using assms by (auto simp: db_ok_def list_all_iff request_ok_rows)
  moreover have "foldl (\<lambda>t q. write_claim now lease q t) (request_table s)
      (map (claimed lease) (claim_rows ref now limit locked (request_table s))) = ?t"
    using assms by (intro write_claim_rows claim_rows_subset) (simp add: db_ok_def)
  ultimately show ?thesis using assms by (simp add: db_ok_def del: map_map)
qed

lemma claim_ok: "db_ok s \<Longrightarrow> db_ok (fst (claim_requests s ref now lease limit locked))"
  unfolding claim_requests_def fst_case_prod
  by (rule run_statement_invar[where P = db_ok]) (simp_all add: claim_effect_ok Let_def)

lemma update_requests_ok:
  assumes "\<And>s r. request_key (f s r) = request_key r" and "\<And>s r. request_ok r \<Longrightarrow> request_ok (f s r)"
    and "db_ok s"
  shows "db_ok (fst (run_statement (\<lambda>s. (s\<lparr>request_table := update_rows P (f s) (request_table s)\<rparr>, ())) s))"
  by (rule run_statement_invar[where P = db_ok])
    (use assms in \<open>auto simp: db_ok_def distinct_keys_update list_all_update\<close>)

lemma enqueue_ok: "db_ok s \<Longrightarrow> db_ok (fst (enqueue_request s q))"
  unfolding enqueue_request_def
  by (rule run_statement_invar[where P = db_ok])
    (auto simp: db_ok_def keys_insert_row list_all_insert request_ok_rows)

lemma delete_ok: "db_ok s \<Longrightarrow> db_ok (fst (delete_expired_requests s now))"
  unfolding delete_expired_requests_def
  by (rule run_statement_invar[where P = db_ok]) (auto simp: db_ok_def list_all_iff distinct_map_filter)

lemma read_ok:
  "db_ok s \<Longrightarrow> db_ok (fst (find_replica s ref))" "db_ok s \<Longrightarrow> db_ok (fst (find_request s ref ch))"
  unfolding find_replica_def find_request_def fst_case_prod run_read by simp_all

lemma shared_step_ok: "shared_step s s' \<Longrightarrow> db_ok s \<Longrightarrow> db_ok s'"
  by (induction rule: shared_step.induct)
    (simp_all add: pg_find_state pg_put_ok register_ok heartbeat_replica_def set_replica_draining_def
      update_replica_ok read_ok enqueue_ok delete_ok)

lemma complete_ok: "db_ok s \<Longrightarrow> db_ok (fst (complete_request s ref ch))"
  unfolding complete_request_def
  by (intro update_requests_ok) (simp_all add: request_key_def request_ok_rows)

lemma fail_ok: "db_ok s \<Longrightarrow> db_ok (fst (fail_request s ref ch msg))"
  unfolding fail_request_def
  by (intro update_requests_ok) (simp_all add: request_key_def request_ok_rows)

lemma step_ok: "db_step s s' \<Longrightarrow> db_ok s \<Longrightarrow> db_ok s'"
  by (induction rule: db_step.induct) (simp_all add: shared_step_ok claim_ok complete_ok fail_ok)

text \<open>No step but an insertion touches the proofs.\<close>

lemma proofs_kept:
  assumes "\<And>s. proof_table (fst (f s)) = proof_table s"
  shows "proof_table (fst (run_statement f s)) = proof_table s"
proof -
  let ?s = "s\<lparr>faults := tl (faults s)\<rparr>"
  have f: "proof_table (fst (f ?s)) = proof_table s" using assms[of ?s] by simp
  show ?thesis
    by (rule run_statement_cases[of f s]) (use f in simp_all)
qed

lemmas method_defs = register_replica_def heartbeat_replica_def set_replica_draining_def
  update_replica_def find_replica_def enqueue_request_def claim_requests_def complete_request_def
  fail_request_def find_request_def delete_expired_requests_def

lemma shared_step_content:
  "shared_step s s' \<Longrightarrow> db_content s k = Some b \<Longrightarrow> db_content s' k = Some b"
proof (induction rule: shared_step.induct)
  case (put_step b' s)
  then show ?case using pg_put_content[of b' s] by auto
qed (auto simp: pg_find_state db_content_def proofs_kept method_defs fst_case_prod Let_def)

lemma step_content: "db_step s s' \<Longrightarrow> db_content s k = Some b \<Longrightarrow> db_content s' k = Some b"
proof (induction rule: db_step.induct)
  case (shared s s')
  then show ?case by (rule shared_step_content)
qed (auto simp: db_content_def proofs_kept method_defs fst_case_prod Let_def)


end
