(* ===== verification/RouterProps.thy ===== *)
theory RouterProps
  imports Router PostgresProps
begin

section \<open>What resolving a proof guarantees\<close>

text \<open>
  Every answer is what the database holds; the errors for an unknown, draining or silent owner;
  a request the owner serves is answered; and what a row left over from an earlier request does to
  a later one.
\<close>

subsection \<open>Statements without faults\<close>

lemma no_fault_frame [simp]: "faults s = [] \<Longrightarrow> s\<lparr>faults := []\<rparr> = s"
  by simp

lemma pg_find_no_fault:
  assumes "faults s = []"
  shows "pg_find s ref ch =
    (s, case db_content s (ref, ch) of None \<Rightarrow> Inl ErrProofNotFound | Some b \<Rightarrow> Inr b)"
  using assms
  by (simp add: pg_find_def run_no_fault db_content_def split: option.split)

lemma find_request_no_fault:
  assumes "faults s = []"
  shows "find_request s ref ch =
    (s, case lookup_row request_key (request_table s) (ref, ch) of
          None \<Rightarrow> Inl ErrProofNotFound | Some r \<Rightarrow> Inr (proof_request_from_record r))"
  using assms by (simp add: find_request_def run_no_fault split: option.split)

definition replica_of :: "replica_record \<Rightarrow> replica" where
  "replica_of r = \<lparr>rep_ref = rr_ref r, rep_key_id = rr_key_id r, rep_instance = rr_instance r,
     rep_heartbeat = rr_heartbeat r, rep_draining = rr_draining r\<rparr>"

lemma find_replica_no_fault:
  assumes "faults s = []"
  shows "find_replica s ref =
    (s, case lookup_row rr_ref (replica_table s) ref of
          None \<Rightarrow> Inl ErrReplicaNotFound | Some r \<Rightarrow> Inr (replica_of r))"
  using assms by (simp add: find_replica_def run_no_fault replica_of_def split: option.split)

definition new_row :: "db \<Rightarrow> string \<Rightarrow> string \<Rightarrow> int \<Rightarrow> request_record" where
  "new_row s ref ch expires =
     \<lparr>qr_ref = ref, qr_nonce = ch, qr_status = RequestPending, qr_error = [],
      qr_requested = db_clock s, qr_expires = expires, qr_lease = None, qr_attempts = 0,
      qr_completed = None, qr_updated = db_clock s\<rparr>"

lemma enqueue_no_fault:
  assumes "faults s = []"
  shows "enqueue_request s \<lparr>req_ref = ref, req_nonce = ch, req_status = st, req_error = err,
      req_expires = expires\<rparr>
    = (s\<lparr>request_table := insert_row request_key (new_row s ref ch expires) (request_table s)\<rparr>, Inr ())"
  using assms by (simp add: enqueue_request_def run_no_fault new_row_def)

subsection \<open>Answers\<close>

lemma wait_for_proof_answer:
  "snd (wait_for_proof ref ch ticks cancelled s) = Inr b
     \<Longrightarrow> db_content (fst (wait_for_proof ref ch ticks cancelled s)) (ref, ch) = Some b"
proof (induction ticks arbitrary: s)
  case Nil
  then show ?case
    using pg_find_cases[of s ref ch]
    by (auto simp: wait_for_proof.simps[of _ _ "[]"] split: option.splits if_splits prod.splits sum.splits)
next
  case (Cons t ts)
  show ?case
    using Cons.prems Cons.IH pg_find_cases[of s ref ch]
    by (auto simp: wait_for_proof.simps[of _ _ "t # ts"] split: option.splits if_splits prod.splits sum.splits)
qed

lemma pg_find_answer:
  "snd (pg_find s ref ch) = Inr b \<Longrightarrow> db_content (fst (pg_find s ref ch)) (ref, ch) = Some b"
  using pg_find_result(1)[of s ref ch b] by (simp add: pg_find_state)

lemma ask_owner_answer:
  assumes "snd (ask_owner r owner s ref ch ticks cancelled) = Inr b"
  shows "db_content (fst (ask_owner r owner s ref ch ticks cancelled)) (ref, ch) = Some b"
  using assms wait_for_proof_answer
  by (auto simp: ask_owner_def split: if_splits prod.splits sum.splits)

lemma resolve_remote_Inr:
  assumes "resolve r prov s ref ch ticks cancelled = (s', Inr b)" and "ref \<noteq> router_ref r"
  shows "pg_find s ref ch = (s', Inr b)
    \<or> (\<exists>s2 owner. ask_owner r owner s2 ref ch ticks cancelled = (s', Inr b))"
  using assms by (auto simp: resolve_def split: if_splits prod.splits sum.splits)

lemma resolve_stored:
  assumes "cache_store (router_cache r) = Some pg_store"
    and "resolve r prov s ref ch ticks cancelled = (s', Inr b)"
  shows "db_content s' (ref, ch) = Some b"
proof (cases "ref = router_ref r")
  case True
  then show ?thesis
    using assms pg.issue_answer[of "router_cache r" s prov "db_clock s" ch b]
    by (simp add: resolve_def)
next
  case False
  from resolve_remote_Inr[OF assms(2) this] show ?thesis
    using pg_find_answer[of s ref ch b] ask_owner_answer by (metis fst_conv snd_conv)
qed

text \<open>
  Every answer is stored.  Whatever the other processes do while the call waits and whatever
  faults the database has, a bundle that \<open>Resolve\<close> returns is the one the database holds for the
  requested reference and challenge when it returns.\<close>

theorem resolve_answer_stored:
  assumes "cache_store (router_cache r) = Some pg_store"
    and "resolve r prov s ref ch ticks cancelled = (s', Inr b)"
  shows "db_content s' (ref, ch) = Some b"
  using assms by (rule resolve_stored)

subsection \<open>The work of a call\<close>

text \<open>
  The database answers one statement with each element of \<open>faults\<close>, so what a call has taken from
  the list counts its statements.
\<close>

definition statements_between :: "nat \<Rightarrow> db \<Rightarrow> db \<Rightarrow> bool" where
  "statements_between n s s' \<longleftrightarrow> (\<exists>k\<le>n. faults s' = drop k (faults s))"

lemma no_statements: "faults s' = faults s \<Longrightarrow> statements_between n s s'"
  by (auto simp: statements_between_def intro: exI[of _ 0])

lemma statements_mono: "statements_between m s s' \<Longrightarrow> m \<le> n \<Longrightarrow> statements_between n s s'"
  by (auto simp: statements_between_def intro: le_trans)

lemma statements_trans:
  assumes "statements_between m s s1" and "statements_between n s1 s2" and "m + n \<le> p"
  shows "statements_between p s s2"
proof -
  from assms obtain i j where "i \<le> m" "faults s1 = drop i (faults s)" "j \<le> n" "faults s2 = drop j (faults s1)"
    by (auto simp: statements_between_def)
  then show ?thesis
    using assms(3) by (auto simp: statements_between_def intro!: exI[of _ "j + i"])
qed

lemma one_statement:
  assumes "run_statement f s = (s', res)" and "\<And>s. faults (fst (f s)) = faults s"
  shows "statements_between 1 s s'"
proof -
  have "faults s' = drop 1 (faults s)"
    by (cases rule: run_statement_cases[of f s])
       (use assms(1) assms(2)[of "s\<lparr>faults := tl (faults s)\<rparr>"] in \<open>auto simp: drop_Suc\<close>)
  then show ?thesis by (auto simp: statements_between_def)
qed

lemma pg_find_statements: "pg_find s ref ch = (s', res) \<Longrightarrow> statements_between 1 s s'"
  by (auto simp: pg_find_def simp del: One_nat_def intro: one_statement split: prod.splits)

lemma find_request_statements: "find_request s ref ch = (s', res) \<Longrightarrow> statements_between 1 s s'"
  by (auto simp: find_request_def simp del: One_nat_def intro: one_statement split: prod.splits)

lemma find_replica_statements: "find_replica s ref = (s', res) \<Longrightarrow> statements_between 1 s s'"
  by (auto simp: find_replica_def simp del: One_nat_def intro: one_statement split: prod.splits)

lemma enqueue_statements: "enqueue_request s q = (s', res) \<Longrightarrow> statements_between 1 s s'"
  unfolding enqueue_request_def by (erule one_statement) simp

lemma pg_put_statements:
  assumes "pg_put s b = (s', res)"
  shows "statements_between 2 s s'"
proof -
  obtain s1 r1 where r: "run_statement (\<lambda>s. (s\<lparr>proof_table :=
      insert_row proof_key (record_from_bundle b (db_clock s)) (proof_table s)\<rparr>, ())) s = (s1, r1)"
    by fastforce
  have one: "statements_between 1 s s1" by (rule one_statement[OF r]) simp
  have "statements_between 1 s1 s'"
  proof (cases r1)
    case (Inl e)
    then show ?thesis using assms r by (auto simp: pg_put_def intro: no_statements statements_trans)
  qed (use assms r pg_find_statements in \<open>auto simp: pg_put_def\<close>)
  with one show ?thesis by (rule statements_trans) simp
qed

text \<open>A round of the loop ends after one of its two statements, or goes on after a tick.\<close>

lemma wait_for_proof_round:
  assumes "wait_for_proof ref ch ticks cancelled s = (s', res)"
  obtains s1 s2 found queued where "pg_find s ref ch = (s1, found)" "find_request s1 ref ch = (s2, queued)"
    "s' = s1 \<or> s' = s2
     \<or> (\<exists>t ts. ticks = t # ts \<and> wait_for_proof ref ch ts cancelled (t s2) = (s', res))"
proof -
  obtain s1 found where f: "pg_find s ref ch = (s1, found)" by fastforce
  obtain s2 queued where q: "find_request s1 ref ch = (s2, queued)" by fastforce
  show thesis
    by (rule that[OF f q])
       (use assms f q in \<open>auto simp: wait_for_proof.simps[of _ _ _ _ s] split: sum.splits if_splits list.splits\<close>)
qed

lemma wait_for_proof_statements:
  assumes "\<forall>t\<in>set ticks. \<forall>s. faults (t s) = faults s"
    and "wait_for_proof ref ch ticks cancelled s = (s', res)"
  shows "statements_between (2 * length ticks + 2) s s'"
  using assms
proof (induction ticks arbitrary: s)
  case Nil
  then obtain s1 s2 found queued where f: "pg_find s ref ch = (s1, found)"
    and q: "find_request s1 ref ch = (s2, queued)" and "s' = s1 \<or> s' = s2"
    by (auto elim: wait_for_proof_round)
  moreover have "statements_between 2 s s2"
    by (rule statements_trans[OF pg_find_statements[OF f] find_request_statements[OF q]]) simp
  ultimately show ?case using statements_mono[OF pg_find_statements[OF f], of 2] by (auto simp: numeral_2_eq_2)
next
  case (Cons t ts)
  from Cons.prems(2) obtain s1 s2 found queued where f: "pg_find s ref ch = (s1, found)"
    and q: "find_request s1 ref ch = (s2, queued)"
    and s': "s' = s1 \<or> s' = s2 \<or> wait_for_proof ref ch ts cancelled (t s2) = (s', res)"
    by (auto elim: wait_for_proof_round)
  have two: "statements_between 2 s s2"
    by (rule statements_trans[OF pg_find_statements[OF f] find_request_statements[OF q]]) simp
  then have tick: "statements_between 2 s (t s2)" using Cons.prems(1) by (simp add: statements_between_def)
  have "statements_between (2 * length (t # ts) + 2) s s'"
    if "wait_for_proof ref ch ts cancelled (t s2) = (s', res)"
    by (rule statements_trans[OF tick Cons.IH[OF _ that]]) (use Cons.prems(1) in simp_all)
  with s' show ?case
    using statements_mono[OF two] statements_mono[OF pg_find_statements[OF f]] by auto
qed

lemma issue_statements:
  assumes "cache_store c = Some pg_store" and "issue c s prov now ch = (s', res)"
  shows "statements_between 3 s s'"
proof (cases "trim_space ch = []")
  case True
  with assms show ?thesis by (auto simp: issue_def intro: no_statements)
next
  case False
  obtain s1 found where f: "pg_find s (cache_proof_ref c) ch = (s1, found)" by fastforce
  note one = pg_find_statements[OF f]
  have put: "statements_between 2 s1 s'" if "issue_fresh c s1 prov now ch = (s', res')" for res'
    using that assms(1) pg_put_statements
    by (auto simp: issue_fresh_def pg_store_def Let_def intro: no_statements split: sum.splits prod.splits)
  have "s1 = s' \<or> (\<exists>res'. issue_fresh c s1 prov now ch = (s', res'))"
    using assms f False by (auto simp: issue_def pg_store_def split: sum.splits if_splits)
  with put have "statements_between 2 s1 s'" by (auto intro: no_statements)
  with one show ?thesis by (rule statements_trans) simp
qed

lemma ask_owner_statements:
  assumes "\<forall>t\<in>set ticks. \<forall>s. faults (t s) = faults s"
    and "ask_owner r owner s ref ch ticks cancelled = (s', res)"
  shows "statements_between (2 * length ticks + 3) s s'"
proof -
  consider "s' = s" | q s1 res1 where "enqueue_request s q = (s1, res1)"
    "s' = s1 \<or> wait_for_proof ref ch ticks cancelled s1 = (s', res)"
    using assms(2) by (auto simp: ask_owner_def split: if_splits prod.splits sum.splits)
  then show ?thesis
  proof cases
    case 1
    then show ?thesis by (simp add: no_statements)
  next
    case 2
    note one = enqueue_statements[OF 2(1)]
    have "statements_between (2 * length ticks + 2) s1 s'"
      using 2(2) wait_for_proof_statements[OF assms(1)] by (auto intro: no_statements)
    with one show ?thesis by (rule statements_trans) simp
  qed
qed

text \<open>
  C26: \<open>Resolve\<close> returns.  A call during which the poll timer fires a given number of times before the
  deadline of the request makes at most two database statements for each of them and five more,
  whatever the database answers and whatever the others do to its tables in between.\<close>

theorem resolve_terminates:
  assumes "\<forall>t\<in>set ticks. \<forall>s. faults (t s) = faults s"
    and "cache_store (router_cache r) = Some pg_store"
    and "resolve r prov s ref ch ticks cancelled = (s', res)"
  shows "statements_between (2 * length ticks + 5) s s'"
proof (cases "ref = router_ref r")
  case True
  with assms(3) have "issue (router_cache r) s prov (db_clock s) ch = (s', res)" by (simp add: resolve_def)
  from issue_statements[OF assms(2) this] show ?thesis by (rule statements_mono) simp
next
  case False
  obtain s1 found where f: "pg_find s ref ch = (s1, found)" by fastforce
  obtain s2 owner where o: "find_replica s1 ref = (s2, owner)" by fastforce
  note one = pg_find_statements[OF f] and two = find_replica_statements[OF o]
  have "statements_between 2 s s1" using one by (rule statements_mono) simp
  moreover have "statements_between 2 s s2" by (rule statements_trans[OF one two]) simp
  moreover from this have "statements_between (2 * length ticks + 5) s s'"
    if "ask_owner r own s2 ref ch ticks cancelled = (s', res)" for own
    by (rule statements_trans[OF _ ask_owner_statements[OF assms(1) that]]) simp
  moreover have "s' = s1 \<or> s' = s2
      \<or> (\<exists>own. ask_owner r own s2 ref ch ticks cancelled = (s', res))"
    using assms(3) False f o by (auto simp: resolve_def split: sum.splits if_splits)
  ultimately show ?thesis
    by (auto intro: statements_mono)
qed

subsection \<open>Owners that cannot answer\<close>

lemma resolve_remote_no_fault:
  assumes "faults s = []" and "ref \<noteq> router_ref r" and "db_content s (ref, ch) = None"
  shows "resolve r prov s ref ch ticks cancelled =
    (case lookup_row rr_ref (replica_table s) ref of
       None \<Rightarrow> (s, Inl ErrProofNotFound)
     | Some row \<Rightarrow> ask_owner r (replica_of row) s ref ch ticks cancelled)"
  using assms
  by (simp add: resolve_def pg_find_no_fault find_replica_no_fault split: option.split)

definition owner_live :: "router \<Rightarrow> db \<Rightarrow> replica_record \<Rightarrow> bool" where
  "owner_live r s row \<longleftrightarrow>
     \<not> rr_draining row \<and> time_sub (db_clock s) (rr_heartbeat row) \<le> stale_after (router_opts r)"

text \<open>
  A foreign reference without a stored proof.  When the database answers, an unknown owner is
  \<open>ErrProofNotFound\<close> and a draining or silent one \<open>ErrProofOwnerUnavailable\<close>, both at once and
  without a trace in the database; a live owner's request is enqueued with the configured time to
  live, unless a row for it is already there.\<close>

theorem resolve_unavailable:
  assumes "faults s = []" and "ref \<noteq> router_ref r" and "db_content s (ref, ch) = None"
  shows "case lookup_row rr_ref (replica_table s) ref of
      None \<Rightarrow> resolve r prov s ref ch ticks cancelled = (s, Inl ErrProofNotFound)
    | Some row \<Rightarrow>
        if owner_live r s row
        then resolve r prov s ref ch ticks cancelled = wait_for_proof ref ch ticks cancelled
               (s\<lparr>request_table := insert_row request_key
                    (new_row s ref ch (db_clock s + request_ttl (router_opts r))) (request_table s)\<rparr>)
        else resolve r prov s ref ch ticks cancelled = (s, Inl ErrProofOwnerUnavailable)"
  using assms(1)
  by (auto simp: resolve_remote_no_fault[OF assms] ask_owner_def owner_live_def replica_of_def
      enqueue_no_fault not_less split: option.split)

subsection \<open>Served requests\<close>

text \<open>One round of the polling loop on a database without faults.\<close>

lemma wait_round:
  assumes "faults s = []" and "db_content s (ref, ch) = None"
  shows "wait_for_proof ref ch ticks cancelled s =
    (case lookup_row request_key (request_table s) (ref, ch) of
       Some row \<Rightarrow>
         (if qr_status row = RequestFailed
          then (s, Inl (WrappedWith ErrProofRequestFailed (qr_error row)))
          else (case ticks of
              [] \<Rightarrow> (s, Inl (if cancelled then Plain ''context canceled'' else ErrProofRequestTimeout))
            | t # ts \<Rightarrow> wait_for_proof ref ch ts cancelled (t s)))
     | None \<Rightarrow>
         (case ticks of
            [] \<Rightarrow> (s, Inl (if cancelled then Plain ''context canceled'' else ErrProofRequestTimeout))
          | t # ts \<Rightarrow> wait_for_proof ref ch ts cancelled (t s)))"
  using assms
  by (subst wait_for_proof.simps)
    (simp add: pg_find_no_fault find_request_no_fault proof_request_from_record_def split: option.split)

lemma wait_hit:
  "faults s = [] \<Longrightarrow> db_content s (ref, ch) = Some b
     \<Longrightarrow> wait_for_proof ref ch ticks cancelled s = (s, Inr b)"
  by (subst wait_for_proof.simps) (simp add: pg_find_no_fault)

lemma insert_made_content:
  "db_content (s\<lparr>proof_table := insert_row proof_key
       (record_from_bundle (make_bundle c ch token expires) now) (proof_table s)\<rparr>) =
   (if db_content s (cache_proof_ref c, ch) = None
    then (db_content s)((cache_proof_ref c, ch) \<mapsto> make_bundle c ch token expires) else db_content s)"
proof -
  have "bundle_key (make_bundle c ch token expires) = (cache_proof_ref c, ch)"
    by (simp add: bundle_key_def make_bundle_def)
  then show ?thesis by (simp add: insert_proof_content made_in_range)
qed

lemma issue_no_fault:
  assumes "faults s = []" and "cache_store c = Some pg_store" and "trim_space ch \<noteq> []"
    and "db_content s (cache_proof_ref c, ch) = None"
    and "request_token c prov now ch = Inr (token, expires)"
  shows "issue c s prov now ch =
    (s\<lparr>proof_table := insert_row proof_key
        (record_from_bundle (make_bundle c ch token expires) (db_clock s)) (proof_table s)\<rparr>,
     Inr (make_bundle c ch token expires))"
proof -
  let ?b = "make_bundle c ch token expires"
  let ?s = "s\<lparr>proof_table := insert_row proof_key (record_from_bundle ?b (db_clock s)) (proof_table s)\<rparr>"
  have "db_content ?s (cache_proof_ref c, ch) = Some ?b" using assms(4) by (simp add: insert_made_content)
  moreover have "proof_ref ?b = cache_proof_ref c" "challenge_nonce ?b = ch"
    by (simp_all add: make_bundle_def)
  ultimately show ?thesis
    using assms
    by (simp add: issue_def issue_fresh_def pg_store_def pg_find_no_fault pg_put_def run_no_fault Let_def)
qed

lemma claim_single:
  assumes "faults s = []" and "distinct (map request_key (request_table s))"
    and "row \<in> set (request_table s)" and "claimable ref now row" and "0 < limit"
    and "list_all (\<lambda>r. r = row \<or> \<not> claimable ref now r) (request_table s)"
  shows "claim_requests s ref now lease limit [] =
    (s\<lparr>request_table := map (\<lambda>r. if r = row then claimed_row now lease r else r) (request_table s)\<rparr>,
     Inr [proof_request_from_record (claimed lease row)])"
proof -
  have "filter (\<lambda>r. claimable ref now r) (request_table s) = filter (\<lambda>r. r = row) (request_table s)"
    using assms(4,6) by (auto simp: list_all_iff intro!: filter_cong)
  moreover have "filter (\<lambda>r. r = row) t = [row]" if "distinct t" "row \<in> set t" for t
    using that by (induction t) (auto simp: filter_empty_conv)
  moreover have "distinct (request_table s)" using assms(2) by (simp add: distinct_map)
  ultimately have rows: "claim_rows ref now limit [] (request_table s) = [row]"
    using assms(3,5) by (simp add: claim_rows_def take_Cons')
  have "request_table s = map id (request_table s)" by simp
  then show ?thesis
    using assms(1) write_claim_rows[OF assms(2), of "[row]" now lease] assms(3) rows
    by (simp add: claim_requests_def run_no_fault)
qed

lemma lookup_row_map:
  "(\<And>x. row_key (f x) = row_key x) \<Longrightarrow> lookup_row row_key (map f t) k = map_option f (lookup_row row_key t k)"
  by (induction t) (auto simp: lookup_row_def)

text \<open>One run of an owner's loop serves the only request that can be claimed.\<close>

lemma process_pending_serves:
  assumes "faults s = []" and "distinct (map request_key (request_table s))"
    and "cache_store (router_cache owner) = Some pg_store" and "0 < batch_size (router_opts owner)"
    and "db_content s (router_ref owner, ch) = None" and "trim_space ch \<noteq> []"
    and "request_table s = rows @ [q]" and "list_all (\<lambda>q. \<not> claimable (router_ref owner) now q) rows"
    and "claimable (router_ref owner) now q" and "request_key q = (router_ref owner, ch)"
    and "request_token (router_cache owner) prov (db_clock s) ch = Inr (token, expires)"
    and "s' = process_pending owner prov now [] s"
  shows "faults s' = []"
    and "db_content s' (router_ref owner, ch) = Some (make_bundle (router_cache owner) ch token expires)"
    and "map_option qr_status (lookup_row request_key (request_table s') (router_ref owner, ch))
      = Some RequestComplete"
proof -
  let ?lease = "now + lease_duration (router_opts owner)"
  let ?s2 = "s\<lparr>request_table := map (\<lambda>x. if x = q then claimed_row now ?lease x else x) (request_table s)\<rparr>"
  let ?b = "make_bundle (router_cache owner) ch token expires"
  let ?s3 = "?s2\<lparr>proof_table := insert_row proof_key (record_from_bundle ?b (db_clock s)) (proof_table s)\<rparr>"
  have key: "qr_ref q = router_ref owner" "qr_nonce q = ch" using assms(10) by (simp_all add: request_key_def)
  have claim: "claim_requests s (router_ref owner) now ?lease (nat (batch_size (router_opts owner))) []
      = (?s2, Inr [proof_request_from_record (claimed ?lease q)])"
    using claim_single[of s q "router_ref owner" now "nat (batch_size (router_opts owner))" ?lease] assms(1,2,4,7-9)
    by (simp add: list_all_iff)
  have content: "db_content ?s2 = db_content s" by (simp add: db_content_def fun_eq_iff)
  have iss: "issue (router_cache owner) ?s2 prov (db_clock ?s2) ch = (?s3, Inr ?b)"
    using issue_no_fault[of ?s2 "router_cache owner" ch prov "db_clock s" token expires] assms content
    by simp
  have s': "s' = fst (complete_request ?s3 (router_ref owner) ch)"
    using claim iss key
    by (simp add: assms(12) process_pending_def process_request_def proof_request_from_record_def claimed_def)
  have "db_content ?s3 (router_ref owner, ch) = Some ?b"
    using insert_made_content[where s = ?s2 and c = "router_cache owner" and ch = ch
        and token = token and expires = expires and now = "db_clock s"] content assms(5) by simp
  then show "faults s' = []" "db_content s' (router_ref owner, ch) = Some ?b"
    using assms(1) by (simp_all add: s' complete_request_def run_no_fault db_content_def)
  have "lookup_row request_key (request_table s) (router_ref owner, ch) = Some q"
    using assms(2,7,10) lookup_row_distinct by fastforce
  then have "lookup_row request_key (request_table ?s3) (router_ref owner, ch) = Some (claimed_row now ?lease q)"
    by (simp add: lookup_row_map stamp_simps)
  then show "map_option qr_status (lookup_row request_key (request_table s') (router_ref owner, ch))
      = Some RequestComplete"
    using assms(1) key
    by (simp add: s' complete_request_def run_no_fault lookup_update_rows request_key_def claimed_row_def
        claimed_def)
qed

text \<open>
  C13: A served request is answered.  The owner is live, no proof and no row for the request exist,
  the owner has no other claimable request, and its loop runs once, at a time before the request
  expires, while the caller waits; the provider returns a token that has not expired.  Then
  \<open>Resolve\<close> returns the owner's bundle for the challenge, whatever happens afterwards, and the
  request row is complete.\<close>

theorem resolve_served:
  assumes "faults s = []" and "db_ok s" and "ref \<noteq> router_ref r" and "ref = router_ref owner"
    and "cache_store (router_cache owner) = Some pg_store" and "0 < batch_size (router_opts owner)"
    and "db_content s (ref, ch) = None" and "trim_space ch \<noteq> []"
    and "lookup_row rr_ref (replica_table s) ref = Some row" and "owner_live r s row"
    and "lookup_row request_key (request_table s) (ref, ch) = None"
    and "list_all (\<lambda>q. \<not> claimable ref now q) (request_table s)"
    and "now < db_clock s + request_ttl (router_opts r)"
    and "request_token (router_cache owner) prov2 (db_clock s) ch = Inr (token, expires)"
  shows "\<exists>s'. resolve r prov s ref ch (process_pending owner prov2 now [] # ticks) cancelled
        = (s', Inr (make_bundle (router_cache owner) ch token expires))
     \<and> map_option qr_status (lookup_row request_key (request_table s') (ref, ch)) = Some RequestComplete"
proof -
  let ?q = "new_row s ref ch (db_clock s + request_ttl (router_opts r))"
  let ?s1 = "s\<lparr>request_table := insert_row request_key ?q (request_table s)\<rparr>"
  define s4 where "s4 = process_pending owner prov2 now [] ?s1"
  have key: "request_key ?q = (router_ref owner, ch)" using assms(4) by (simp add: new_row_def request_key_def)
  have tab: "request_table ?s1 = request_table s @ [?q]" using assms(4,11) key by (simp add: insert_row_def)
  have cl: "claimable (router_ref owner) now ?q" using assms(4,13) by (simp add: claimable_def new_row_def)
  have dist: "distinct (map request_key (request_table ?s1))"
    using assms(2) by (simp add: db_ok_def keys_insert_row)
  have content: "db_content ?s1 = db_content s" by (simp add: db_content_def fun_eq_iff)
  note served = process_pending_serves[OF _ dist assms(5,6) _ assms(8) tab _ cl key _ s4_def]
  have served_db: "faults s4 = []" "db_content s4 (ref, ch) = Some (make_bundle (router_cache owner) ch token expires)"
    "map_option qr_status (lookup_row request_key (request_table s4) (ref, ch)) = Some RequestComplete"
    using served assms(1,4,7,12,14) content by simp_all
  have look: "lookup_row request_key (request_table ?s1) (ref, ch) = Some ?q"
    using assms(4,11) key by (simp add: lookup_insert_row)
  have "resolve r prov s ref ch (process_pending owner prov2 now [] # ticks) cancelled
      = wait_for_proof ref ch (process_pending owner prov2 now [] # ticks) cancelled ?s1"
    using resolve_unavailable[OF assms(1,3,7)] assms(9,10) by simp
  also have "\<dots> = wait_for_proof ref ch ticks cancelled s4"
    using wait_round[of ?s1 ref ch] assms(1,7) content look
    by (simp add: s4_def new_row_def status_defs)
  also have "\<dots> = (s4, Inr (make_bundle (router_cache owner) ch token expires))"
    using served_db(2,1) by (rule wait_hit[rotated])
  finally show ?thesis using served_db(3) by blast
qed

subsection \<open>Rows that are left over\<close>

text \<open>
  A failure sticks.  While the row of a failed request exists, every further \<open>Resolve\<close> for it
  returns the recorded failure at once and the owner is not asked again.\<close>

theorem failed_request_sticks:
  assumes "faults s = []" and "ref \<noteq> router_ref r" and "db_content s (ref, ch) = None"
    and "lookup_row rr_ref (replica_table s) ref = Some row" and "owner_live r s row"
    and "lookup_row request_key (request_table s) (ref, ch) = Some q" and "qr_status q = RequestFailed"
  shows "resolve r prov s ref ch ticks cancelled = (s, Inl (WrappedWith ErrProofRequestFailed (qr_error q)))"
proof -
  let ?s1 = "s\<lparr>request_table := insert_row request_key
      (new_row s ref ch (db_clock s + request_ttl (router_opts r))) (request_table s)\<rparr>"
  have "request_key (new_row s ref ch e) = (ref, ch)" for e by (simp add: new_row_def request_key_def)
  then have same: "?s1 = s" using assms(6) by (simp add: insert_row_def)
  have "resolve r prov s ref ch ticks cancelled = wait_for_proof ref ch ticks cancelled s"
    using resolve_unavailable[OF assms(1-3)] assms(4,5) same by simp
  then show ?thesis using wait_round[OF assms(1,3)] assms(6,7) by simp
qed

text \<open>The owner's loop on a table with nothing to claim changes nothing.\<close>

lemma process_nothing:
  assumes "faults s = []" and "list_all (\<lambda>q. \<not> claimable (router_ref owner) now q) (request_table s)"
  shows "process_pending owner prov now locked s = s"
proof -
  have "claim_rows (router_ref owner) now l locked (request_table s) = []" for l
    using assms(2) by (auto simp: claim_rows_def list_all_iff filter_empty_conv)
  then show ?thesis
    using assms(1) by (simp add: process_pending_def claim_requests_def run_no_fault)
qed

text \<open>
  C39: An expired request is not renewed.  When the row of an earlier, expired request for the same
  challenge has not been deleted yet, then asking again does not renew it: the insertion does
  nothing, the owner's loop, however often it runs, never claims the row, and the call waits in vain
  until its timeout although the owner is live and idle.\<close>

theorem expired_request_not_renewed:
  assumes "faults s = []" and "ref \<noteq> router_ref r" and "ref = router_ref owner"
    and "db_content s (ref, ch) = None"
    and "lookup_row rr_ref (replica_table s) ref = Some row" and "owner_live r s row"
    and "request_table s = [q]" and "request_key q = (ref, ch)" and "qr_status q = RequestPending"
    and "list_all (\<lambda>now. qr_expires q \<le> now) nows"
  shows "resolve r prov s ref ch (map (\<lambda>now. process_pending owner prov2 now []) nows) False
    = (s, Inl ErrProofRequestTimeout)"
proof -
  let ?s1 = "s\<lparr>request_table := insert_row request_key
      (new_row s ref ch (db_clock s + request_ttl (router_opts r))) (request_table s)\<rparr>"
  have key: "request_key (new_row s ref ch e) = (ref, ch)" for e by (simp add: new_row_def request_key_def)
  have look: "lookup_row request_key (request_table s) (ref, ch) = Some q"
    using assms(7,8) by (simp add: lookup_row_def)
  then have same: "?s1 = s" using key by (simp add: insert_row_def)
  have idle: "process_pending owner prov2 now [] s = s" if "qr_expires q \<le> now" for now
    using that assms(1,7) by (intro process_nothing) (simp_all add: claimable_def)
  have "wait_for_proof ref ch (map (\<lambda>now. process_pending owner prov2 now []) nows) False s
      = (s, Inl ErrProofRequestTimeout)"
    using assms(10)
  proof (induction nows)
    case Nil
    then show ?case using wait_round[OF assms(1,4)] look assms(9) by (simp add: status_defs)
  next
    case (Cons n ns)
    then show ?case using wait_round[OF assms(1,4)] look assms(9) idle[of n] by (simp add: status_defs)
  qed
  then show ?thesis using resolve_unavailable[OF assms(1,2,4)] assms(5,6) same by simp
qed

end
