(* ===== verification/Cluster.thy ===== *)
theory Cluster
  imports RouterProps
begin

section \<open>Replicas that share a database\<close>

text \<open>
  The loops of all owners, cut into steps that are interleaved in any order with every other use of
  the database: an owner claims requests, looks a proof up, mints it (the request for the token, the
  insertion and the lookup of what is then stored, in one step) or marks the request; it may stop
  between any two steps.  The state is the database and what each owner, named by its proof
  reference, is in the middle of.  The invariant is that a request is marked complete only when its
  proof is stored; and \<open>processPending\<close> is a run of these steps.
\<close>

subsection \<open>The steps\<close>

datatype work =
    Idle
  | Claimed "proof_request list"
  | Minting proof_request "proof_request list"
  | Issued proof_request "proof_request list"
  | Refused go_error proof_request "proof_request list"

type_synonym cluster = "db \<times> (string \<Rightarrow> work)"

text \<open>\<open>c\<close> is the cache of the owner that makes the step.\<close>

inductive owner_step :: "db cache \<Rightarrow> db \<times> work \<Rightarrow> db \<times> work \<Rightarrow> bool" for c where
  claim: "claim_requests s (cache_proof_ref c) now lease limit locked = (s', Inr reqs) \<Longrightarrow>
     owner_step c (s, Idle) (s', Claimed reqs)"
| claim_fails: "claim_requests s (cache_proof_ref c) now lease limit locked = (s', Inl e) \<Longrightarrow>
     owner_step c (s, Idle) (s', Idle)"
| blank: "trim_space (req_nonce q) = [] \<Longrightarrow>
     owner_step c (s, Claimed (q # qs)) (s, Refused e q qs)"
| found: "pg_find s (cache_proof_ref c) (req_nonce q) = (s', Inr b) \<Longrightarrow>
     owner_step c (s, Claimed (q # qs)) (s', Issued q qs)"
| missing: "pg_find s (cache_proof_ref c) (req_nonce q) = (s', Inl e) \<Longrightarrow> is_error ErrProofNotFound e \<Longrightarrow>
     owner_step c (s, Claimed (q # qs)) (s', Minting q qs)"
| broken: "pg_find s (cache_proof_ref c) (req_nonce q) = (s', Inl e) \<Longrightarrow> \<not> is_error ErrProofNotFound e \<Longrightarrow>
     owner_step c (s, Claimed (q # qs)) (s', Refused (Wrapped ''load persisted attestation proof'' e) q qs)"
| mint: "issue_fresh c s prov now (req_nonce q) = (s', Inr b) \<Longrightarrow>
     owner_step c (s, Minting q qs) (s', Issued q qs)"
| mint_fails: "issue_fresh c s prov now (req_nonce q) = (s', Inl e) \<Longrightarrow>
     owner_step c (s, Minting q qs) (s', Refused e q qs)"
| complete: "owner_step c (s, Issued q qs)
     (fst (complete_request s (req_ref q) (req_nonce q)), Claimed qs)"
| refuse: "owner_step c (s, Refused e q qs)
     (fst (fail_request s (req_ref q) (req_nonce q) (error_text e)), Claimed qs)"
| finish: "owner_step c (s, Claimed []) (s, Idle)"
| stop: "owner_step c (s, w) (s, Idle)"

inductive cluster_step :: "cluster \<Rightarrow> cluster \<Rightarrow> bool" where
  owner: "cache_store c = Some pg_store \<Longrightarrow> owner_step c (s, W (cache_proof_ref c)) (s', w) \<Longrightarrow>
     cluster_step (s, W) (s', W(cache_proof_ref c := w))"
| other: "shared_step s s' \<Longrightarrow> cluster_step (s, W) (s', W)"

inductive_cases owner_step_idleE: "owner_step c (s, Idle) (s', w')"
inductive_cases cluster_stepE: "cluster_step (s, W) (s', W')"

subsection \<open>The invariant\<close>

text \<open>The requests marked complete.\<close>

definition completed :: "db \<Rightarrow> (string \<times> string) set" where
  "completed s = request_key ` {r \<in> set (request_table s). qr_status r = RequestComplete}"

text \<open>What an owner is in the middle of concerns its own reference; an issued proof is stored.\<close>

definition of_owner :: "string \<Rightarrow> proof_request \<Rightarrow> bool" where
  "of_owner ref q \<longleftrightarrow> req_ref q = ref"

fun work_ok :: "db \<Rightarrow> string \<Rightarrow> work \<Rightarrow> bool" where
  "work_ok s ref Idle \<longleftrightarrow> True"
| "work_ok s ref (Claimed qs) \<longleftrightarrow> list_all (of_owner ref) qs"
| "work_ok s ref (Minting q qs) \<longleftrightarrow> of_owner ref q \<and> list_all (of_owner ref) qs"
| "work_ok s ref (Issued q qs) \<longleftrightarrow>
     of_owner ref q \<and> list_all (of_owner ref) qs \<and> db_content s (req_ref q, req_nonce q) \<noteq> None"
| "work_ok s ref (Refused e q qs) \<longleftrightarrow> of_owner ref q \<and> list_all (of_owner ref) qs"

definition cluster_ok :: "cluster \<Rightarrow> bool" where
  "cluster_ok cl \<longleftrightarrow>
     db_ok (fst cl) \<and> completed (fst cl) \<subseteq> dom (db_content (fst cl))
     \<and> (\<forall>ref. work_ok (fst cl) ref (snd cl ref))"

lemma completed_faults [simp]: "completed (s\<lparr>faults := fs\<rparr>) = completed s"
  by (simp add: completed_def)

lemma completed_run:
  assumes "\<And>s. completed (fst (f s)) \<subseteq> completed s \<union> K"
  shows "completed (fst (run_statement f s)) \<subseteq> completed s \<union> K"
proof -
  let ?s = "s\<lparr>faults := tl (faults s)\<rparr>"
  have f: "completed (fst (f ?s)) \<subseteq> completed s \<union> K" using assms[of ?s] by simp
  show ?thesis
    by (rule run_statement_cases[of f s]) (use f in auto)
qed

lemma completed_same:
  "request_table s' = request_table s \<Longrightarrow> completed s' = completed s"
  by (simp add: completed_def)

lemma requests_kept:
  assumes "\<And>s. request_table (fst (f s)) = request_table s"
  shows "request_table (fst (run_statement f s)) = request_table s"
proof -
  let ?s = "s\<lparr>faults := tl (faults s)\<rparr>"
  have f: "request_table (fst (f ?s)) = request_table s" using assms[of ?s] by simp
  show ?thesis
    by (rule run_statement_cases[of f s]) (use f in simp_all)
qed

text \<open>An update of rows adds at most the keys of the rows it marks complete.\<close>

lemma completed_update:
  assumes "\<And>r. request_key (f r) = request_key r"
    and "\<And>r. P r \<Longrightarrow> qr_status (f r) = RequestComplete \<Longrightarrow> request_key r \<in> K"
  shows "completed (s\<lparr>request_table := update_rows P f t\<rparr>) \<subseteq> completed (s\<lparr>request_table := t\<rparr>) \<union> K"
  using assms by (force simp: completed_def update_rows_def)

lemma completed_write_claims:
  "completed (s\<lparr>request_table := foldl (\<lambda>t q. write_claim now lease q t) t qs\<rparr>)
     \<subseteq> completed (s\<lparr>request_table := t\<rparr>)"
proof (induction qs arbitrary: t)
  case (Cons q qs)
  have "completed (s\<lparr>request_table := write_claim now lease q t\<rparr>)
      \<subseteq> completed (s\<lparr>request_table := t\<rparr>) \<union> {}"
    unfolding write_claim_def
    by (rule completed_update) (auto simp: request_key_def status_defs)
  with Cons[of "write_claim now lease q t"] show ?case by auto
qed simp

lemma completed_claim: "completed (fst (claim_requests s ref now lease limit locked)) \<subseteq> completed s"
proof -
  have "completed (fst (claim_requests s ref now lease limit locked)) \<subseteq> completed s \<union> {}"
    unfolding claim_requests_def fst_case_prod
    by (rule completed_run) (use completed_write_claims in \<open>fastforce simp: Let_def completed_def\<close>)
  then show ?thesis by simp
qed

lemma completed_complete:
  "completed (fst (complete_request s ref ch)) \<subseteq> completed s \<union> {(ref, ch)}"
  unfolding complete_request_def
proof (rule completed_run, unfold fst_conv)
  fix s :: db
  have "completed (s\<lparr>request_table := request_table s\<rparr>) = completed s" by simp
  then show "completed (s\<lparr>request_table := update_rows (\<lambda>r. request_key r = (ref, ch))
         (\<lambda>r. r\<lparr>qr_status := RequestComplete, qr_error := [], qr_lease := None,
                qr_completed := Some (db_clock s), qr_updated := db_clock s\<rparr>)
         (request_table s)\<rparr>) \<subseteq> completed s \<union> {(ref, ch)}"
    using completed_update[where f = "\<lambda>r. r\<lparr>qr_status := RequestComplete, qr_error := [],
          qr_lease := None, qr_completed := Some (db_clock s), qr_updated := db_clock s\<rparr>"
        and P = "\<lambda>r. request_key r = (ref, ch)" and K = "{(ref, ch)}" and s = s and t = "request_table s"]
    by (simp add: request_key_def)
qed

lemma completed_fail: "completed (fst (fail_request s ref ch msg)) \<subseteq> completed s"
proof -
  have "completed (fst (fail_request s ref ch msg)) \<subseteq> completed s \<union> {}"
    unfolding fail_request_def
  proof (rule completed_run, unfold fst_conv)
    fix s :: db
    show "completed (s\<lparr>request_table := update_rows (\<lambda>r. request_key r = (ref, ch))
         (\<lambda>r. r\<lparr>qr_status := RequestFailed, qr_error := truncate_message msg, qr_lease := None,
                qr_updated := db_clock s\<rparr>) (request_table s)\<rparr>) \<subseteq> completed s \<union> {}"
      using completed_update[where f = "\<lambda>r. r\<lparr>qr_status := RequestFailed,
            qr_error := truncate_message msg, qr_lease := None, qr_updated := db_clock s\<rparr>"
          and P = "\<lambda>r. request_key r = (ref, ch)" and K = "{}" and s = s and t = "request_table s"]
      by (simp add: request_key_def status_defs)
  qed
  then show ?thesis by simp
qed

lemma requests_of_methods:
  "request_table (fst (register_replica s rep)) = request_table s"
  "request_table (fst (heartbeat_replica s ref name now)) = request_table s"
  "request_table (fst (set_replica_draining s ref name draining)) = request_table s"
  "request_table (fst (find_replica s ref)) = request_table s"
  "request_table (fst (find_request s ref ch)) = request_table s"
  unfolding register_replica_def heartbeat_replica_def set_replica_draining_def update_replica_def
    find_replica_def find_request_def fst_case_prod Let_def
  by (rule requests_kept, simp)+

lemma completed_shared: "shared_step s s' \<Longrightarrow> completed s' \<subseteq> completed s"
proof (induction rule: shared_step.induct)
  case (put_step b s)
  let ?f = "\<lambda>s. (s\<lparr>proof_table :=
      insert_row proof_key (record_from_bundle b (db_clock s)) (proof_table s)\<rparr>, ())"
  obtain s1 res where "run_statement ?f s = (s1, res)" by fastforce
  moreover have "request_table (fst (run_statement ?f s)) = request_table s"
    by (rule requests_kept) simp
  ultimately show ?case
    by (cases res) (simp_all add: pg_put_def pg_find_state completed_def)
next
  case (enqueue_step s q)
  have "completed (fst (enqueue_request s q)) \<subseteq> completed s \<union> {}"
    unfolding enqueue_request_def
    by (rule completed_run) (auto simp: completed_def insert_row_def status_defs)
  then show ?case by simp
next
  case (delete_step s now)
  have "completed (fst (delete_expired_requests s now)) \<subseteq> completed s \<union> {}"
    unfolding delete_expired_requests_def by (rule completed_run) (auto simp: completed_def)
  then show ?case by simp
qed (simp_all add: pg_find_state completed_same[OF requests_of_methods(1)]
    completed_same[OF requests_of_methods(2)] completed_same[OF requests_of_methods(3)]
    completed_same[OF requests_of_methods(4)] completed_same[OF requests_of_methods(5)]
    completed_same[of "s\<lparr>db_clock := t\<rparr>" s for s t])

subsection \<open>Every step keeps the invariant\<close>

text \<open>Stored proofs stay; what an owner is in the middle of is then still in order.\<close>

definition grows :: "db \<Rightarrow> db \<Rightarrow> bool" where
  "grows s s' \<longleftrightarrow> (\<forall>k b. db_content s k = Some b \<longrightarrow> db_content s' k = Some b)"

lemma grows_refl: "grows s s"
  by (simp add: grows_def)

lemma grows_dom: "grows s s' \<Longrightarrow> dom (db_content s) \<subseteq> dom (db_content s')"
  by (auto simp: grows_def)

lemma work_ok_grows: "work_ok s ref w \<Longrightarrow> grows s s' \<Longrightarrow> work_ok s' ref w"
  by (cases w) (auto simp: grows_def)

lemma shared_grows: "shared_step s s' \<Longrightarrow> grows s s'"
  using shared_step_content by (auto simp: grows_def)

lemma db_step_grows: "db_step s s' \<Longrightarrow> grows s s'"
  using step_content by (auto simp: grows_def)

lemma issue_fresh_step:
  assumes "cache_store c = Some pg_store"
  shows "s' = fst (issue_fresh c s prov now ch) \<Longrightarrow> shared_step\<^sup>=\<^sup>= s s'"
  using assms put_step[OF made_in_range, of s c]
  by (auto simp: issue_fresh_def pg_store_def Let_def split: sum.splits prod.splits) (metis fst_conv)+

lemma claim_requests_of_owner:
  assumes "claim_requests s ref now lease limit locked = (s', Inr reqs)"
  shows "list_all (of_owner ref) reqs"
proof -
  let ?f = "\<lambda>s. let rows = map (claimed lease) (claim_rows ref now limit locked (request_table s)) in
        (s\<lparr>request_table := foldl (\<lambda>t q. write_claim now lease q t) (request_table s) rows\<rparr>, rows)"
  obtain rows where run: "run_statement ?f s = (s', Inr rows)"
    and reqs: "reqs = map proof_request_from_record rows"
    using assms by (auto simp: claim_requests_def and_then_Inr_iff split: prod.splits)
  from run_statement_Inr[OF run]
  have "rows = map (claimed lease) (claim_rows ref now limit locked (request_table s))"
    by (auto simp: Let_def)
  moreover have "qr_ref r = ref" if "r \<in> set (claim_rows ref now limit locked (request_table s))" for r
    using that by (auto simp: claim_rows_def claimable_def dest: in_set_takeD)
  ultimately show ?thesis
    by (auto simp: reqs list_all_iff of_owner_def proof_request_from_record_def claimed_def)
qed

definition state_ok :: "db \<Rightarrow> bool" where
  "state_ok s \<longleftrightarrow> db_ok s \<and> completed s \<subseteq> dom (db_content s)"

lemma state_ok_step:
  assumes "state_ok s" and "db_step s s'" and "completed s' \<subseteq> completed s \<union> K" and "K \<subseteq> dom (db_content s)"
  shows "state_ok s' \<and> grows s s'"
  using assms step_ok db_step_grows[OF assms(2)] grows_dom[OF db_step_grows[OF assms(2)]]
  unfolding state_ok_def by blast

lemma state_ok_shared: "state_ok s \<Longrightarrow> shared_step s s' \<Longrightarrow> state_ok s' \<and> grows s s'"
  using state_ok_step[of s s' "{}"] completed_shared shared by auto

lemma find_grows: "pg_find s ref ch = (s', res) \<Longrightarrow> shared_step s s'"
  using find_step[of s ref ch] by simp

lemma owner_step_ok:
  assumes "owner_step c x y" and "cache_store c = Some pg_store"
    and "state_ok (fst x)" and "work_ok (fst x) (cache_proof_ref c) (snd x)"
  shows "state_ok (fst y) \<and> grows (fst x) (fst y) \<and> work_ok (fst y) (cache_proof_ref c) (snd y)"
  using assms
proof (induction rule: owner_step.induct)
  case (claim s now lease limit locked s' reqs)
  then have "db_step s s'" "completed s' \<subseteq> completed s \<union> {}"
    using claim_step[of s "cache_proof_ref c" now lease limit locked]
      completed_claim[of s "cache_proof_ref c" now lease limit locked] by simp_all
  with claim show ?case
    using state_ok_step[of s s' "{}"] claim_requests_of_owner[OF claim(1)] by simp
next
  case (claim_fails s now lease limit locked s' e)
  then have "db_step s s'" "completed s' \<subseteq> completed s \<union> {}"
    using claim_step[of s "cache_proof_ref c" now lease limit locked]
      completed_claim[of s "cache_proof_ref c" now lease limit locked] by simp_all
  with claim_fails show ?case using state_ok_step[of s s' "{}"] by simp
next
  case (found s q s' b qs)
  then show ?case
    using state_ok_shared[OF _ find_grows[OF found(1)]]
      pg_find_answer[of s "cache_proof_ref c" "req_nonce q" b]
    by (simp add: of_owner_def)
next
  case (missing s q s' e qs)
  then show ?case using state_ok_shared[OF _ find_grows[OF missing(1)]] by simp
next
  case (broken s q s' e qs)
  then show ?case using state_ok_shared[OF _ find_grows[OF broken(1)]] by simp
next
  case (mint s prov now q s' b qs)
  have "shared_step\<^sup>=\<^sup>= s s'" using issue_fresh_step[OF mint(2)] mint(1) by (metis fst_conv)
  then have "state_ok s' \<and> grows s s'" using state_ok_shared[of s s'] mint(3) grows_refl by auto
  moreover have "db_content s' (cache_proof_ref c, req_nonce q) = Some b"
    using pg.issue_fresh_answer[OF mint(2), of s prov now "req_nonce q" b] mint(1) by simp
  ultimately show ?case using mint by (simp add: of_owner_def)
next
  case (mint_fails s prov now q s' e qs)
  have "shared_step\<^sup>=\<^sup>= s s'" using issue_fresh_step[OF mint_fails(2)] mint_fails(1) by (metis fst_conv)
  then have "state_ok s' \<and> grows s s'" using state_ok_shared[of s s'] mint_fails(3) grows_refl by auto
  then show ?case using mint_fails by simp
next
  case (complete s q qs)
  then have "{(req_ref q, req_nonce q)} \<subseteq> dom (db_content s)" by auto
  with complete show ?case
    using state_ok_step[OF _ complete_step completed_complete, of s "req_ref q" "req_nonce q"] by simp
next
  case (refuse s e q qs)
  then show ?case
    using state_ok_step[OF _ fail_step[of s "req_ref q" "req_nonce q" "error_text e"], of "{}"]
      completed_fail[of s "req_ref q" "req_nonce q" "error_text e"] by simp
qed (simp_all add: grows_refl)

lemma cluster_step_ok: "cluster_step cl cl' \<Longrightarrow> cluster_ok cl \<Longrightarrow> cluster_ok cl'"
proof (induction rule: cluster_step.induct)
  case (owner c s W s' w)
  then have "state_ok s" "work_ok s (cache_proof_ref c) (W (cache_proof_ref c))"
    by (simp_all add: cluster_ok_def state_ok_def)
  with owner_step_ok[OF owner(2,1)]
  have ok: "state_ok s'" "grows s s'" "work_ok s' (cache_proof_ref c) w" by simp_all
  have "work_ok s' ref (W ref)" for ref
    using owner(3) work_ok_grows[OF _ ok(2)] by (simp add: cluster_ok_def)
  with ok show ?case by (simp add: cluster_ok_def state_ok_def)
next
  case (other s s' W)
  then have "state_ok s" by (simp add: cluster_ok_def state_ok_def)
  from state_ok_shared[OF this other(1)] have ok: "state_ok s'" "grows s s'" by simp_all
  have "work_ok s' ref (W ref)" for ref
    using other(2) work_ok_grows[OF _ ok(2)] by (simp add: cluster_ok_def)
  with ok show ?case by (simp add: cluster_ok_def state_ok_def)
qed

text \<open>
  C9: A complete request has its proof.  From a state in order, such as an empty database with idle
  owners, any interleaving of the steps of all owners' loops, cut off between any two, with each
  other and with every other use of the store, under any faults, leads to states in which every
  request marked complete has a stored proof under its reference and challenge.\<close>

theorem complete_has_proof:
  assumes "cluster_step\<^sup>*\<^sup>* cl cl'" and "cluster_ok cl"
  shows "cluster_ok cl' \<and> completed (fst cl') \<subseteq> dom (db_content (fst cl'))"
proof -
  have "cluster_ok cl'" using assms by (induction rule: rtranclp_induct) (auto dest: cluster_step_ok)
  then show ?thesis by (simp add: cluster_ok_def)
qed

subsection \<open>The code runs these steps\<close>

lemma mark_steps:
  "owner_step c (s, Issued q qs) (fst (complete_request s (req_ref q) (req_nonce q)), Claimed qs)"
  "owner_step c (s, Refused e q qs) (fst (fail_request s (req_ref q) (req_nonce q) (error_text e)), Claimed qs)"
  by (rule owner_step.intros)+

lemma process_request_steps:
  assumes "cache_store (router_cache r) = Some pg_store"
  shows "(owner_step (router_cache r))\<^sup>*\<^sup>* (s, Claimed (q # qs)) (process_request r prov s q, Claimed qs)"
proof -
  let ?c = "router_cache r"
  have issued: "(owner_step ?c)\<^sup>*\<^sup>* (s, Claimed (q # qs)) (s1, Issued q qs) \<Longrightarrow>
      issue ?c s prov (db_clock s) (req_nonce q) = (s1, Inr b) \<Longrightarrow> ?thesis" for s1 b
    using mark_steps(1)[of ?c s1 q qs] by (simp add: process_request_def)
  have refused: "(owner_step ?c)\<^sup>*\<^sup>* (s, Claimed (q # qs)) (s1, Refused e q qs) \<Longrightarrow>
      issue ?c s prov (db_clock s) (req_nonce q) = (s1, Inl e) \<Longrightarrow> ?thesis" for s1 e
    using mark_steps(2)[of ?c s1 e q qs] by (simp add: process_request_def)
  show ?thesis
  proof (cases "trim_space (req_nonce q) = []")
    case True
    have "owner_step ?c (s, Claimed (q # qs)) (s, Refused (Plain ''challenge is required'') q qs)"
      using True by (rule blank)
    then show ?thesis using True by (intro refused r_into_rtranclp) (simp_all add: issue_def)
  next
    case False
    obtain s1 res where f: "pg_find s (cache_proof_ref ?c) (req_nonce q) = (s1, res)" by fastforce
    show ?thesis
    proof (cases res)
      case (Inr b)
      with f have "owner_step ?c (s, Claimed (q # qs)) (s1, Issued q qs)" by (auto intro: found)
      then show ?thesis
        using f False assms Inr by (intro issued r_into_rtranclp) (simp_all add: issue_def pg_store_def)
    next
      case (Inl e)
      show ?thesis
      proof (cases "is_error ErrProofNotFound e")
        case False
        with f Inl have "owner_step ?c (s, Claimed (q # qs))
            (s1, Refused (Wrapped ''load persisted attestation proof'' e) q qs)" by (auto intro: broken)
        then show ?thesis
          using f Inl False \<open>trim_space (req_nonce q) \<noteq> []\<close> assms
          by (intro refused r_into_rtranclp) (simp_all add: issue_def pg_store_def)
      next
        case True
        then have iss: "issue ?c s prov (db_clock s) (req_nonce q) = issue_fresh ?c s1 prov (db_clock s) (req_nonce q)"
          using f Inl False assms by (simp add: issue_def pg_store_def)
        have m: "owner_step ?c (s, Claimed (q # qs)) (s1, Minting q qs)"
          using f Inl True by (auto intro: missing)
        obtain s2 res2 where fr: "issue_fresh ?c s1 prov (db_clock s) (req_nonce q) = (s2, res2)" by fastforce
        show ?thesis
        proof (cases res2)
          case (Inr b)
          with fr m have "(owner_step ?c)\<^sup>*\<^sup>* (s, Claimed (q # qs)) (s2, Issued q qs)"
            by (meson mint r_into_rtranclp rtranclp.rtrancl_into_rtrancl)
          then show ?thesis using iss fr Inr by (intro issued) simp_all
        next
          case (Inl e2)
          with fr m have "(owner_step ?c)\<^sup>*\<^sup>* (s, Claimed (q # qs)) (s2, Refused e2 q qs)"
            by (meson mint_fails r_into_rtranclp rtranclp.rtrancl_into_rtrancl)
          then show ?thesis using iss fr Inl by (intro refused) simp_all
        qed
      qed
    qed
  qed
qed

lemma process_requests_steps:
  assumes "cache_store (router_cache r) = Some pg_store"
  shows "(owner_step (router_cache r))\<^sup>*\<^sup>* (s, Claimed reqs) (foldl (process_request r prov) s reqs, Claimed [])"
proof (induction reqs arbitrary: s)
  case (Cons q qs)
  then show ?case using process_request_steps[OF assms, of s q qs prov] by (simp add: rtranclp_trans)
qed simp

lemma owner_steps_cluster:
  assumes "(owner_step c)\<^sup>*\<^sup>* (s, w) (s', w')" and "cache_store c = Some pg_store"
    and "W (cache_proof_ref c) = w"
  shows "cluster_step\<^sup>*\<^sup>* (s, W) (s', W(cache_proof_ref c := w'))"
  using assms(1)
proof (induction rule: rtranclp_induct2)
  case refl
  then show ?case using assms(3) by (simp add: fun_upd_idem)
next
  case (step s1 w1 s2 w2)
  have "cluster_step (s1, W(cache_proof_ref c := w1)) (s2, (W(cache_proof_ref c := w1))(cache_proof_ref c := w2))"
    using step(2) by (intro owner assms(2)) simp
  with step(3) show ?case unfolding fun_upd_upd by (rule rtranclp.rtrancl_into_rtrancl)
qed

text \<open>
  C19: The loop of the code refines the steps.  One call of \<open>processPending\<close>, from claim to the last
  mark and whatever the provider and the database answer, is a run of cluster steps that takes its
  owner from idle to idle; so is the heartbeat branch.\<close>

theorem process_pending_refines:
  assumes "cache_store (router_cache r) = Some pg_store" and "W (router_ref r) = Idle"
  shows "cluster_step\<^sup>*\<^sup>* (s, W) (process_pending r prov now locked s, W)
    \<and> cluster_step\<^sup>*\<^sup>* (s, W) (heartbeat_tick r now s, W)"
proof
  have idle: "W(router_ref r := Idle) = W" using assms(2) by (simp add: fun_upd_idem)
  obtain s1 res where cl: "claim_requests s (router_ref r) now (now + lease_duration (router_opts r))
      (nat (batch_size (router_opts r))) locked = (s1, res)" by fastforce
  have "(owner_step (router_cache r))\<^sup>*\<^sup>* (s, Idle) (process_pending r prov now locked s, Idle)"
  proof (cases res)
    case (Inl e)
    then show ?thesis using cl by (auto simp: process_pending_def intro: claim_fails)
  next
    case (Inr reqs)
    have "(owner_step (router_cache r))\<^sup>*\<^sup>* (s, Idle) (s1, Claimed reqs)"
      using cl Inr by (auto intro: claim)
    also have "(owner_step (router_cache r))\<^sup>*\<^sup>* (s1, Claimed reqs)
        (foldl (process_request r prov) s1 reqs, Claimed [])"
      by (rule process_requests_steps[OF assms(1)])
    also have "(owner_step (router_cache r))\<^sup>*\<^sup>* \<dots> (foldl (process_request r prov) s1 reqs, Idle)"
      by (auto intro: finish)
    finally show ?thesis using cl Inr by (simp add: process_pending_def)
  qed
  from owner_steps_cluster[where W = W, OF this assms(1,2)] idle
  show "cluster_step\<^sup>*\<^sup>* (s, W) (process_pending r prov now locked s, W)" by simp
  have "cluster_step (s, W) (fst (heartbeat_replica s (router_ref r) (instance_name r) now), W)"
    by (intro other heartbeat_step)
  moreover have "cluster_step (s2, W) (fst (delete_expired_requests s2 now), W)" for s2
    by (intro other delete_step)
  ultimately show "cluster_step\<^sup>*\<^sup>* (s, W) (heartbeat_tick r now s, W)"
    unfolding heartbeat_tick_def by (meson r_into_rtranclp rtranclp.rtrancl_into_rtrancl)
qed

end
