(* ===== verification/StoreConfig.thy ===== *)
theory StoreConfig
  imports PostgresProps
begin

section \<open>Fresh proofs and the database configuration\<close>

text \<open>
  What a proof that was not in the store before attests, and how the connection string is put
  together from the environment.
\<close>

subsection \<open>Fresh proofs\<close>

lemma new_cache_Inr:
  assumes "new_cache rt (Some aud) pk kid stores = Inr c"
  shows "length pk = 32" and "cache_audience c = aud" and "cache_public_key c = pk"
    and "cache_key_id c = (if kid = [] then public_key_id rt pk else kid)"
    and "cache_proof_ref c = proof_reference_of rt pk" and "cache_binding c = bind_nonce rt pk"
    and "stores = [] \<and> cache_store c = None \<or> (\<exists>st. stores = [Some st] \<and> cache_store c = Some st)"
  using assms
  by (auto simp: new_cache_def require_Inr_iff Let_def split: list.splits option.splits)

lemma fresh_bundle:
  assumes "new_cache rt (Some aud) pk kid [Some pg_store] = Inr c"
    and "issue c s prov now ch = (s', Inr b)"
    and "db_content s (proof_reference_of rt pk, ch) = None"
  shows "prov [ch, bind_nonce rt pk] = Inr (attestation_token b)
    \<and> (\<exists>t. token_expiry (attestation_token b) = Inr t \<and> now < t \<and> expires_at b = unix_seconds t)
    \<and> challenge_nonce b = ch \<and> proof_ref b = proof_reference_of rt pk \<and> audience b = aud
    \<and> bundle_key_id b = (if kid = [] then public_key_id rt pk else kid)
    \<and> b64_decode (public_key b) = Some pk \<and> binding_nonce b = bind_nonce rt pk
    \<and> key_algorithm b = Algorithm \<and> token_type b = ''OIDC''
    \<and> db_content s' (proof_reference_of rt pk, ch) = Some b"
proof -
  note c = new_cache_Inr[OF assms(1)]
  have st: "cache_store c = Some pg_store" using c(7) by auto
  have ans: "db_content s' (proof_reference_of rt pk, ch) = Some b"
    using pg.issue_answer[OF st, of s prov now ch b] assms(2) c(5) by simp
  then obtain b' where f: "pg.fresh_for c prov now ch b'"
      and "db_content s' = (db_content s)((cache_proof_ref c, ch) \<mapsto> b')"
    using pg.issue_content[OF st, of s prov now ch] assms(2,3) c(5) by auto
  with ans c(5) have "b' = b" by simp
  with f obtain token t where rt: "request_token c prov now ch = Inr (token, t)"
    and b: "b = make_bundle c ch token t" by (auto simp: pg.fresh_for_def)
  then have "prov [ch, bind_nonce rt pk] = Inr token" "token_expiry token = Inr t" "now < t"
    by (auto simp: request_token_def and_then_Inr_iff require_Inr_iff c(6))
  then show ?thesis
    using ans by (simp add: b make_bundle_def c(2-6) b64_round_trip)
qed

text \<open>
  A fresh proof attests the key.  When \<open>Issue\<close> succeeds for a challenge that has no stored proof,
  the bundle's token is the provider's answer to the challenge and the hash that binds the public
  key, its expiry is the token's and lies in the future, and the bundle names the challenge, the
  proof reference, the key id and the key itself.\<close>

theorem fresh_proof_attests_key:
  assumes "new_cache rt (Some aud) pk kid [Some pg_store] = Inr c"
    and "issue c s prov now ch = (s', Inr b)"
    and "db_content s (proof_reference_of rt pk, ch) = None"
  shows "prov [ch, bind_nonce rt pk] = Inr (attestation_token b)
    \<and> (\<exists>t. token_expiry (attestation_token b) = Inr t \<and> now < t \<and> expires_at b = unix_seconds t)
    \<and> challenge_nonce b = ch \<and> proof_ref b = proof_reference_of rt pk \<and> audience b = aud
    \<and> bundle_key_id b = (if kid = [] then public_key_id rt pk else kid)
    \<and> b64_decode (public_key b) = Some pk \<and> binding_nonce b = bind_nonce rt pk
    \<and> key_algorithm b = Algorithm \<and> token_type b = ''OIDC''
    \<and> db_content s' (proof_reference_of rt pk, ch) = Some b"
  using assms by (rule fresh_bundle)

subsection \<open>The connection string\<close>

lemma userinfo_marks:
  assumes "c \<in> {CHR ''@'', CHR ''/'', CHR '':'', CHR ''?''}"
  shows "c \<notin> set (url_escape UrlUserPassword s)"
proof -
  have "should_escape UrlUserPassword CHR ''@''" "should_escape UrlUserPassword CHR ''/''"
    "should_escape UrlUserPassword CHR '':''" "should_escape UrlUserPassword CHR ''?''"
    "\<not> alnum CHR ''@''" "\<not> alnum CHR ''/''" "\<not> alnum CHR '':''" "\<not> alnum CHR ''?''"
    by code_simp+
  then show ?thesis using assms url_escape_avoids[of c UrlUserPassword s] by auto
qed

definition user_part :: "string \<Rightarrow> string \<Rightarrow> string \<Rightarrow> bool" where
  "user_part ui user password \<longleftrightarrow>
     (if password = [] then CHR '':'' \<notin> set ui \<and> url_unescape UrlUserPassword ui = Some user
      else (\<exists>u p. ui = u @ '':'' @ p \<and> CHR '':'' \<notin> set u \<and> CHR '':'' \<notin> set p
              \<and> url_unescape UrlUserPassword u = Some user
              \<and> url_unescape UrlUserPassword p = Some password))"

lemma postgres_url_string:
  assumes "hostname \<noteq> []"
  shows "\<exists>ui rest. url_string (postgres_url usr pw hostname port database ssl)
      = ''postgres://'' @ ui @ ''@'' @ rest
    \<and> CHR ''@'' \<notin> set ui \<and> CHR ''/'' \<notin> set ui \<and> CHR ''?'' \<notin> set ui
    \<and> (usr = [] \<or> user_part ui usr pw)"
proof -
  let ?u = "postgres_url usr pw hostname port database ssl"
  let ?ui = "userinfo_string (usr, if pw = [] then None else Some pw)"
  have "join_host_port hostname port \<noteq> []" by (simp add: join_host_port_def)
  then have "\<exists>rest. url_string ?u = ''postgres://'' @ ?ui @ ''@'' @ rest"
    by (simp add: url_string_def url_body_def url_authority_def postgres_url_def Let_def)
  moreover have "CHR ''@'' \<notin> set ?ui \<and> CHR ''/'' \<notin> set ?ui \<and> CHR ''?'' \<notin> set ?ui"
    using userinfo_marks by (auto simp: userinfo_string_def)
  moreover have "user_part ?ui usr pw" if "usr \<noteq> []"
  proof (cases "pw = []")
    case True
    then show ?thesis using userinfo_marks[of "CHR '':''"] that
      by (simp add: user_part_def userinfo_string_def url_unescape_escape)
  next
    case False
    have "?ui = url_escape UrlUserPassword usr @ '':'' @ url_escape UrlUserPassword pw"
      using False by (simp add: userinfo_string_def)
    moreover have "CHR '':'' \<notin> set (url_escape UrlUserPassword t)" for t
      by (rule userinfo_marks) simp
    ultimately show ?thesis
      using False url_unescape_escape[of UrlUserPassword] unfolding user_part_def by metis
  qed
  ultimately show ?thesis by blast
qed

text \<open>
  C40: Credentials stay in their place.  A connection string built from the single variables has the
  form of a URL whose user part ends at its first at-sign and has no slash or question mark in it;
  decoding the user part gives back exactly the configured user and password, whatever characters
  they are made of, so that none of them can name another host.\<close>

theorem dsn_credentials_contained:
  assumes "postgres_dsn_from_environment_names env names = (True, Inr dsn)"
    and "trim_space (env (env_dsn names)) = []"
  shows "\<exists>ui rest. dsn = ''postgres://'' @ ui @ ''@'' @ rest
    \<and> CHR ''@'' \<notin> set ui \<and> CHR ''/'' \<notin> set ui \<and> CHR ''?'' \<notin> set ui
    \<and> user_part ui (trim_space (env (env_user names))) (env (env_password names))"
proof -
  let ?get = "\<lambda>n. trim_space (env n)"
  have "?get (env_host names) \<noteq> []" "?get (env_user names) \<noteq> []"
    "dsn = url_string (postgres_url (?get (env_user names)) (env (env_password names))
       (?get (env_host names)) (or_default (?get (env_port names)) ''5432'')
       (?get (env_database names)) (or_default (?get (env_ssl_mode names)) ''require''))"
    using assms
    by (auto simp: postgres_dsn_from_environment_names_def Let_def require_Inr_iff split: if_splits)
  then show ?thesis
    using postgres_url_string[of "?get (env_host names)" "?get (env_user names)"] by metis
qed

text \<open>
  The two families of variables.  Setting variables of both families is an error; with one
  family set only its variables are read; with none set the store is not configured.\<close>

theorem dsn_environment_exclusive:
  "postgres_dsn_from_environment env =
     (if postgres_environment_configured env tap_postgres_environment
         \<and> postgres_environment_configured env legacy_postgres_environment
      then (True, Inl (Plain ''TAP_PG_* and deprecated TRUSTED_PROXY_PG_* variables cannot be combined''))
      else if postgres_environment_configured env legacy_postgres_environment
      then postgres_dsn_from_environment_names (\<lambda>n. if List.member
             (map (\<lambda>f. f legacy_postgres_environment) [env_dsn, env_host, env_port, env_user,
                env_password, env_database, env_ssl_mode]) n then env n else [])
             legacy_postgres_environment
      else if postgres_environment_configured env tap_postgres_environment
      then postgres_dsn_from_environment_names (\<lambda>n. if List.member
             (map (\<lambda>f. f tap_postgres_environment) [env_dsn, env_host, env_port, env_user,
                env_password, env_database, env_ssl_mode]) n then env n else [])
             tap_postgres_environment
      else (False, Inr []))"
proof -
  have names: "postgres_dsn_from_environment_names (\<lambda>n. if List.member
      (map (\<lambda>f. f names) [env_dsn, env_host, env_port, env_user, env_password, env_database,
         env_ssl_mode]) n then env n else []) names
    = postgres_dsn_from_environment_names env names" for names
    by (simp add: postgres_dsn_from_environment_names_def Let_def)
  have none: "\<not> postgres_environment_configured env names \<Longrightarrow>
      postgres_dsn_from_environment_names env names = (False, Inr [])" for names
    by (simp add: postgres_dsn_from_environment_names_def postgres_environment_configured_def Let_def)
  show ?thesis
    unfolding names postgres_dsn_from_environment_def Let_def using none by simp
qed

end
