(* ===== verification/ClusterSamples.thy ===== *)
theory ClusterSamples
  imports Cluster StoreConfig AttestationProps
begin

section \<open>A small cluster\<close>

text \<open>
  Concrete data at which the theorems about the store, the router and the cluster are applied: two
  replicas, a token provider, and databases with a few rows.
\<close>

definition sample_token :: string where
  "sample_token = ''h.'' @ b64_encode ''{\"exp\":2000000000}'' @ ''.s''"

definition sample_provider :: provider where
  "sample_provider nonces = Inr sample_token"

definition sample_cache :: "string \<Rightarrow> db cache" where
  "sample_cache ref = \<lparr>cache_audience = ''aud'', cache_public_key = replicate 32 CHR ''k'',
     cache_key_id = ''k1'', cache_proof_ref = ref, cache_binding = ''bind'',
     cache_store = Some pg_store\<rparr>"

definition sample_router :: "string \<Rightarrow> router" where
  "sample_router ref = \<lparr>router_cache = sample_cache ref, instance_name = ref,
     router_opts = default_router_options\<rparr>"

definition start_time :: int where "start_time = 1700000000 * second"

definition sample_replica_row :: replica_record where
  "sample_replica_row = \<lparr>rr_ref = ''proof-b'', rr_key_id = ''k1'', rr_instance = ''proof-b'',
     rr_heartbeat = start_time, rr_draining = False, rr_created = start_time, rr_updated = start_time\<rparr>"

definition sample_request_row :: "string \<Rightarrow> request_record" where
  "sample_request_row st = \<lparr>qr_ref = ''proof-b'', qr_nonce = ''challenge_1'', qr_status = st,
     qr_error = [], qr_requested = start_time - 31 * second, qr_expires = start_time - second,
     qr_lease = None, qr_attempts = 0, qr_completed = None, qr_updated = start_time\<rparr>"

definition sample_db :: "request_record list \<Rightarrow> db" where
  "sample_db rows = \<lparr>proof_table = [], replica_table = [sample_replica_row], request_table = rows,
     db_clock = start_time, faults = []\<rparr>"

lemma sample_token_expiry: "token_expiry sample_token = Inr (2000000000 * second)"
  by code_simp

lemma sample_provider_token:
  "now < 2000000000 * second \<Longrightarrow>
     request_token c sample_provider now ch = Inr (sample_token, 2000000000 * second)"
  by (simp add: request_token_def sample_provider_def sample_token_expiry)

lemma sample_db_fields [simp]:
  "faults (sample_db rows) = []" "request_table (sample_db rows) = rows"
  "db_clock (sample_db rows) = start_time" "replica_table (sample_db rows) = [sample_replica_row]"
  "db_content (sample_db rows) k = None" "proof_table (sample_db rows) = []"
  by (simp_all add: sample_db_def db_content_def lookup_row_def)

lemma sample_cache_fields [simp]:
  "cache_store (sample_cache ref) = Some pg_store" "cache_proof_ref (sample_cache ref) = ref"
  "router_cache (sample_router ref) = sample_cache ref"
  "router_opts (sample_router ref) = default_router_options"
  by (simp_all add: sample_cache_def sample_router_def)

lemma sample_live: "owner_live (sample_router ref) (sample_db rows) sample_replica_row"
  by (simp add: owner_live_def sample_replica_row_def default_router_options_def time_sub_def
      second_def int64_min_def int64_max_def)

lemma sample_replica: "lookup_row rr_ref [sample_replica_row] ''proof-b'' = Some sample_replica_row"
  by (simp add: lookup_row_def sample_replica_row_def)

lemma sample_db_ok: "db_ok (sample_db [])"
  by (simp add: db_ok_def sample_db_def)

lemma sample_time: "start_time < 2000000000 * second"
  by (simp add: start_time_def second_def)

lemma sample_challenge: "trim_space ''challenge_1'' \<noteq> []"
  by code_simp

abbreviation "sample_bundle \<equiv> make_bundle (sample_cache ''proof-b'') ''challenge_1'' sample_token (2000000000 * second)"

lemma sample_issue:
  "issue (sample_cache ''proof-b'') (sample_db []) sample_provider start_time ''challenge_1''
   = ((sample_db [])\<lparr>proof_table := [record_from_bundle sample_bundle start_time]\<rparr>, Inr sample_bundle)"
proof -
  have st: "cache_store (sample_cache ''proof-b'') = Some pg_store" by simp
  show ?thesis
    using issue_no_fault[OF _ st sample_challenge _ sample_provider_token[OF sample_time], of "sample_db []"]
    by (simp add: insert_row_def lookup_row_def)
qed

subsection \<open>The store\<close>

theorem issued_proofs_immutable_witness:
  "\<exists>s' results. run_issues (sample_db []) [(sample_cache ''proof-b'', sample_provider, start_time, ''challenge_1'')]
      = (s', results)
     \<and> db_content s' (''proof-b'', ''challenge_1'') = Some sample_bundle"
proof -
  obtain s' where r: "run_issues (sample_db [])
      [(sample_cache ''proof-b'', sample_provider, start_time, ''challenge_1'')]
      = (s', [((''proof-b'', ''challenge_1''), Inr sample_bundle)])"
    using sample_issue by simp
  moreover have "on_database [(sample_cache ''proof-b'', sample_provider, start_time, ''challenge_1'')]"
    by (simp add: on_database_def)
  ultimately show ?thesis
    using issued_proofs_immutable[OF _ r, of "(''proof-b'', ''challenge_1'')" sample_bundle sample_bundle]
    by auto
qed

lemma fresh_row_claimable:
  "claimable ''proof-b'' start_time (new_row (sample_db []) ''proof-b'' ''challenge_1'' (start_time + second))"
  by (simp add: claimable_def new_row_def second_def)

lemma sample_claim:
  "claim_requests (sample_db [new_row (sample_db []) ''proof-b'' ''challenge_1'' (start_time + second)])
     ''proof-b'' start_time (start_time + 20 * second) 1 []
   = (sample_db [claimed_row start_time (start_time + 20 * second)
        (new_row (sample_db []) ''proof-b'' ''challenge_1'' (start_time + second))],
      Inr [proof_request_from_record (claimed (start_time + 20 * second)
        (new_row (sample_db []) ''proof-b'' ''challenge_1'' (start_time + second)))])"
  using claim_single[of "sample_db [new_row (sample_db []) ''proof-b'' ''challenge_1'' (start_time + second)]"
      "new_row (sample_db []) ''proof-b'' ''challenge_1'' (start_time + second)" "''proof-b''" start_time 1
      "start_time + 20 * second"] fresh_row_claimable
  by (simp add: sample_db_def)

lemma sample_second_claim:
  "claim_requests (sample_db [claimed_row start_time (start_time + 20 * second)
        (new_row (sample_db []) ''proof-b'' ''challenge_1'' (start_time + second))])
     ''proof-b'' start_time (start_time + 20 * second) 1 []
   = (sample_db [claimed_row start_time (start_time + 20 * second)
        (new_row (sample_db []) ''proof-b'' ''challenge_1'' (start_time + second))], Inr [])"
  by (simp add: claim_requests_def run_no_fault claim_rows_def claimable_def claimed_row_def
      claimed_def status_defs second_def Let_def sample_db_def)

theorem claim_requests_exact_witness:
  "\<exists>s' reqs. claim_requests (sample_db [new_row (sample_db []) ''proof-b'' ''challenge_1'' (start_time + second)])
       ''proof-b'' start_time (start_time + 20 * second) 1 [] = (s', Inr reqs) \<and> length reqs = 1"
  using claim_requests_exact[OF sample_claim] sample_claim by auto



subsection \<open>The router\<close>

theorem resolve_answer_stored_witness:
  "\<exists>s'. resolve (sample_router ''proof-b'') sample_provider (sample_db []) ''proof-b'' ''challenge_1'' [] False
       = (s', Inr sample_bundle)
     \<and> db_content s' (''proof-b'', ''challenge_1'') = Some sample_bundle"
proof -
  obtain s' where "resolve (sample_router ''proof-b'') sample_provider (sample_db []) ''proof-b''
      ''challenge_1'' [] False = (s', Inr sample_bundle)"
    using sample_issue by (simp add: resolve_def)
  with resolve_answer_stored[OF _ this] show ?thesis by simp
qed

theorem resolve_unavailable_witness:
  "resolve (sample_router ''proof-a'') sample_provider (sample_db []) ''proof-x'' ''challenge_1'' [] False
     = (sample_db [], Inl ErrProofNotFound)"
proof -
  have "lookup_row rr_ref [sample_replica_row] ''proof-x'' = None"
    by (simp add: lookup_row_def sample_replica_row_def)
  then show ?thesis
    using resolve_unavailable[of "sample_db []" "''proof-x''" "sample_router ''proof-a''" "''challenge_1''"
        sample_provider "[]" False] by simp
qed

theorem resolve_served_witness:
  "\<exists>s'. resolve (sample_router ''proof-a'') sample_provider (sample_db []) ''proof-b'' ''challenge_1''
       [process_pending (sample_router ''proof-b'') sample_provider start_time []] False
     = (s', Inr sample_bundle)"
  using resolve_served[of "sample_db []" "''proof-b''" "sample_router ''proof-a''" "sample_router ''proof-b''"
      "''challenge_1''" sample_replica_row start_time sample_provider sample_token "2000000000 * second"
      sample_provider "[]" False]
    sample_db_ok sample_challenge sample_replica sample_live sample_provider_token[OF sample_time]
  by (simp add: lookup_row_def default_router_options_def second_def) blast

lemma sample_old_row:
  "lookup_row request_key [sample_request_row st] (''proof-b'', ''challenge_1'') = Some (sample_request_row st)"
  by (simp add: lookup_row_def sample_request_row_def request_key_def)

theorem failed_request_sticks_witness:
  "resolve (sample_router ''proof-a'') sample_provider (sample_db [sample_request_row RequestFailed])
     ''proof-b'' ''challenge_1'' [] False
   = (sample_db [sample_request_row RequestFailed], Inl (WrappedWith ErrProofRequestFailed []))"
  using failed_request_sticks[of "sample_db [sample_request_row RequestFailed]" "''proof-b''"
      "sample_router ''proof-a''" "''challenge_1''" sample_replica_row "sample_request_row RequestFailed"
      sample_provider "[]" False] sample_replica sample_live sample_old_row
  by (simp add: sample_request_row_def)

theorem expired_request_not_renewed_witness:
  "resolve (sample_router ''proof-a'') sample_provider (sample_db [sample_request_row RequestPending])
     ''proof-b'' ''challenge_1''
     (map (\<lambda>now. process_pending (sample_router ''proof-b'') sample_provider now []) [start_time]) False
   = (sample_db [sample_request_row RequestPending], Inl ErrProofRequestTimeout)"
  using expired_request_not_renewed[of "sample_db [sample_request_row RequestPending]" "''proof-b''"
      "sample_router ''proof-a''" "sample_router ''proof-b''" "''challenge_1''" sample_replica_row
      "sample_request_row RequestPending" "[start_time]" sample_provider sample_provider]
    sample_replica sample_live sample_old_row
  by (simp add: sample_request_row_def request_key_def second_def)

subsection \<open>The cluster\<close>

lemma sample_cluster_ok: "cluster_ok (sample_db [], \<lambda>_. Idle)"
  by (simp add: cluster_ok_def sample_db_ok completed_def)

theorem process_pending_refines_witness:
  "cluster_step\<^sup>*\<^sup>* (sample_db [], \<lambda>_. Idle)
     (process_pending (sample_router ''proof-b'') sample_provider start_time [] (sample_db []), \<lambda>_. Idle)"
  using process_pending_refines[of "sample_router ''proof-b''" "\<lambda>_. Idle"] by simp

theorem complete_has_proof_witness:
  "\<exists>cl'. cluster_step\<^sup>*\<^sup>* (sample_db [], \<lambda>_. Idle) cl' \<and> cluster_ok cl'"
  using complete_has_proof[OF rtranclp.rtrancl_refl sample_cluster_ok] by blast

subsection \<open>Configuration\<close>

definition sample_env :: environ where
  "sample_env n = (if n = ''TAP_PG_HOST'' then ''db.example'' else if n = ''TAP_PG_USER'' then ''tap''
     else if n = ''TAP_PG_PASSWORD'' then ''p@ss/w:rd'' else if n = ''TAP_PG_DATABASE'' then ''proofs'' else [])"

theorem dsn_credentials_contained_witness:
  "\<exists>dsn ui rest. postgres_dsn_from_environment_names sample_env tap_postgres_environment = (True, Inr dsn)
     \<and> dsn = ''postgres://'' @ ui @ ''@'' @ rest \<and> user_part ui ''tap'' ''p@ss/w:rd''"
proof -
  have e: "trim_space (sample_env (env_dsn tap_postgres_environment)) = []"
    "trim_space (sample_env (env_user tap_postgres_environment)) = ''tap''"
    "sample_env (env_password tap_postgres_environment) = ''p@ss/w:rd''" by code_simp+
  obtain dsn where d: "postgres_dsn_from_environment_names sample_env tap_postgres_environment = (True, Inr dsn)"
  proof -
    have "fst (postgres_dsn_from_environment_names sample_env tap_postgres_environment)
      \<and> is_ok (snd (postgres_dsn_from_environment_names sample_env tap_postgres_environment))" by code_simp
    then show ?thesis using that by (metis is_ok_iff prod.collapse)
  qed
  from dsn_credentials_contained[OF d e(1)] d show ?thesis unfolding e by blast
qed

definition sample_fresh_cache :: "db cache" where
  "sample_fresh_cache = \<lparr>cache_audience = ''aud'', cache_public_key = replicate 32 CHR ''k'',
     cache_key_id = ''k1'', cache_proof_ref = proof_reference_of sample_runtime (replicate 32 CHR ''k''),
     cache_binding = bind_nonce sample_runtime (replicate 32 CHR ''k''), cache_store = Some pg_store\<rparr>"

theorem fresh_proof_attests_key_witness:
  "\<exists>s' b. issue sample_fresh_cache (sample_db []) sample_provider start_time ''challenge_1'' = (s', Inr b)
     \<and> attestation_token b = sample_token \<and> b64_decode (public_key b) = Some (replicate 32 CHR ''k'')"
proof -
  let ?pk = "replicate 32 CHR ''k''"
  have n: "new_cache sample_runtime (Some ''aud'') ?pk ''k1'' [Some pg_store] = Inr sample_fresh_cache"
    by (simp add: new_cache_def sample_fresh_cache_def)
  have st: "cache_store sample_fresh_cache = Some pg_store" by (simp add: sample_fresh_cache_def)
  obtain s' b where i: "issue sample_fresh_cache (sample_db []) sample_provider start_time ''challenge_1'' = (s', Inr b)"
    using issue_no_fault[OF _ st sample_challenge _ sample_provider_token[OF sample_time], of "sample_db []"]
    by simp
  from fresh_proof_attests_key[OF n i] i show ?thesis by (auto simp: sample_provider_def)
qed

text \<open>The third statement of a call that polls twice fails.\<close>

definition faulty_db :: db where
  "faulty_db = (sample_db [])\<lparr>faults := [Succeeds, Succeeds, FailsAfter ''reset'', Succeeds]\<rparr>"

theorem resolve_terminates_witness:
  "statements_between 9 faulty_db
     (fst (resolve (sample_router ''proof-a'') sample_provider faulty_db ''proof-b'' ''challenge_1'' [id, id] False))"
proof -
  obtain s' res where "resolve (sample_router ''proof-a'') sample_provider faulty_db ''proof-b'' ''challenge_1''
      [id, id] False = (s', res)" by fastforce
  moreover have "cache_store (router_cache (sample_router ''proof-a'')) = Some pg_store"
    by (simp add: sample_router_def)
  ultimately show ?thesis
    using resolve_terminates[of "[id, id]" "sample_router ''proof-a''"] by fastforce
qed

end
