(* ===== verification/CaFiles.thy ===== *)
theory CaFiles
  imports ProofCache "HOL-Library.Word"
begin

unbundle bit_operations_syntax

section \<open>The interception authority (internal/mitmproxy/ca.go)\<close>

text \<open>
  The certificate authority of the proxy is read from two files; for local development it may be
  created when both are absent.  The state is the disk.  Parsing and signing of certificates
  (\<open>crypto/x509\<close>, \<open>crypto/tls\<close>) and the random key and serial are parameters.
\<close>

subsection \<open>Files\<close>

datatype os_error = FileNotExist | OsError string

definition os_error_text :: "os_error \<Rightarrow> string" where
  "os_error_text e = (case e of FileNotExist \<Rightarrow> ''no such file or directory'' | OsError msg \<Rightarrow> msg)"

text \<open>
  A file is its contents and the permissions it was created with (before the umask).  A path may be
  unreadable; a write may fail before the file is touched or after some bytes.
\<close>

datatype write_outcome = Written | NotOpened string | CutAt nat string

record disk =
  file_at :: "string \<Rightarrow> (bytes \<times> nat) option"
  unreadable :: "string \<Rightarrow> string option"
  write_outcomes :: "write_outcome list"

definition read_file :: "disk \<Rightarrow> string \<Rightarrow> (os_error, bytes) result" where
  "read_file d path =
     (case unreadable d path of
        Some msg \<Rightarrow> Inl (OsError msg)
      | None \<Rightarrow> (case file_at d path of None \<Rightarrow> Inl FileNotExist | Some (data, _) \<Rightarrow> Inr data))"

definition put_file :: "disk \<Rightarrow> string \<Rightarrow> bytes \<Rightarrow> nat \<Rightarrow> disk" where
  "put_file d path data perm =
     d\<lparr>file_at := (file_at d)(path \<mapsto> (data, case file_at d path of None \<Rightarrow> perm | Some (_, m) \<Rightarrow> m))\<rparr>"

definition write_file :: "disk \<Rightarrow> string \<Rightarrow> bytes \<Rightarrow> nat \<Rightarrow> disk \<times> (os_error, unit) result" where
  "write_file d path data perm =
     (let d1 = d\<lparr>write_outcomes := tl (write_outcomes d)\<rparr> in
      case (case write_outcomes d of [] \<Rightarrow> Written | w # _ \<Rightarrow> w) of
        Written \<Rightarrow> (put_file d1 path data perm, Inr ())
      | NotOpened msg \<Rightarrow> (d1, Inl (OsError msg))
      | CutAt n msg \<Rightarrow> (put_file d1 path (take n data) perm, Inl (OsError msg)))"

definition os_wrap :: "string \<Rightarrow> (os_error, 'a) result \<Rightarrow> (go_error, 'a) result" where
  "os_wrap msg r = (case r of Inl e \<Rightarrow> Inl (Wrapped msg (Plain (os_error_text e))) | Inr x \<Rightarrow> Inr x)"

lemma os_wrap_simps [simp]:
  "os_wrap msg (Inl e) = Inl (Wrapped msg (Plain (os_error_text e)))" "os_wrap msg (Inr x) = Inr x"
  by (simp_all add: os_wrap_def)

lemma os_wrap_Inr_iff [simp]: "os_wrap msg r = Inr x \<longleftrightarrow> r = Inr x"
  by (cases r) simp_all

subsection \<open>Certificates\<close>

definition KeyUsageDigitalSignature :: int where "KeyUsageDigitalSignature = push_bit 0 1"
definition KeyUsageCertSign :: int where "KeyUsageCertSign = push_bit 5 1"
definition KeyUsageCRLSign :: int where "KeyUsageCRLSign = push_bit 6 1"

record ca_leaf =
  leaf_is_ca :: bool
  leaf_key_usage :: int

text \<open>A TLS certificate: the chain, which a key pair always has a first member of, key and leaf.\<close>

record 'k certificate =
  cert_first :: bytes
  cert_rest :: "bytes list"
  cert_key :: 'k
  cert_leaf :: ca_leaf

record 'k x509 =
  x509_key_pair :: "bytes \<Rightarrow> bytes \<Rightarrow> (go_error, bytes \<times> bytes list \<times> 'k) result"
  x509_parse :: "bytes \<Rightarrow> (go_error, ca_leaf) result"

definition parse_ca :: "'k x509 \<Rightarrow> bytes \<Rightarrow> bytes \<Rightarrow> (go_error, 'k certificate) result" where
  "parse_ca x cert_pem key_pem =
     and_then (wrap_error ''parse CA key pair'' (x509_key_pair x cert_pem key_pem)) (\<lambda>(der, rest, k).
     and_then (wrap_error ''parse CA certificate'' (x509_parse x der)) (\<lambda>leaf.
     require (leaf_is_ca leaf) (Plain ''configured certificate is not a CA'') (
     require (leaf_key_usage leaf AND KeyUsageCertSign \<noteq> 0)
       (Plain ''configured CA certificate cannot sign certificates'')
       (Inr \<lparr>cert_first = der, cert_rest = rest, cert_key = k, cert_leaf = leaf\<rparr>))))"

definition load_ca :: "'k x509 \<Rightarrow> disk \<Rightarrow> string \<Rightarrow> string \<Rightarrow> (go_error, 'k certificate) result" where
  "load_ca x d cert_path key_path =
     and_then (os_wrap ''read CA certificate'' (read_file d cert_path)) (\<lambda>cert_pem.
     and_then (os_wrap ''read CA private key'' (read_file d key_path)) (\<lambda>key_pem.
     parse_ca x cert_pem key_pem))"

subsection \<open>PEM and the calendar\<close>

text \<open>\<open>pem.EncodeToMemory\<close> of a block without headers: padded base64 in lines of 64 characters.\<close>

definition b64_std :: "bytes \<Rightarrow> string" where
  "b64_std data =
     (let s = map (\<lambda>c. if c = CHR ''-'' then CHR ''+'' else if c = CHR ''_'' then CHR ''/'' else c)
            (b64_encode data) in
      s @ replicate ((4 - length s mod 4) mod 4) CHR ''='')"

function pem_lines :: "string \<Rightarrow> string" where
  "pem_lines s = (if s = [] then [] else take 64 s @ [CHR 10] @ pem_lines (drop 64 s))"
  by pat_completeness auto
termination
  by (relation "measure length") auto

declare pem_lines.simps [simp del]

definition pem_encode :: "string \<Rightarrow> bytes \<Rightarrow> bytes" where
  "pem_encode kind data =
     ''-----BEGIN '' @ kind @ ''-----'' @ [CHR 10] @ pem_lines (b64_std data)
     @ ''-----END '' @ kind @ ''-----'' @ [CHR 10]"

text \<open>
  \<open>Time.AddDate\<close> of years: the civil date in the proleptic Gregorian calendar, the days since 1970 of
  the same day of a later year (29 February becomes 1 March), and the time of day as it was.
\<close>

definition days_of_civil :: "int \<Rightarrow> int \<Rightarrow> int \<Rightarrow> int" where
  "days_of_civil y m d =
     (let y' = (if m \<le> 2 then y - 1 else y);
          doy = (153 * (if 2 < m then m - 3 else m + 9) + 2) div 5 + d - 1 in
      365 * y' + y' div 4 - y' div 100 + y' div 400 + doy - 719468)"

definition civil_of_days :: "int \<Rightarrow> int \<times> int \<times> int" where
  "civil_of_days days =
     (let z = days + 719468;
          doe = z mod 146097;
          yoe = (doe - doe div 1460 + doe div 36524 - doe div 146096) div 365;
          doy = doe - (365 * yoe + yoe div 4 - yoe div 100);
          mp = (5 * doy + 2) div 153;
          m = (if mp < 10 then mp + 3 else mp - 9) in
      (yoe + 400 * (z div 146097) + (if m \<le> 2 then 1 else 0), m, doy - (153 * mp + 2) div 5 + 1))"

definition add_years :: "int \<Rightarrow> int \<Rightarrow> int" where
  "add_years n t =
     (let day = 86400 * second in
      case civil_of_days (t div day) of
        (y, m, d) \<Rightarrow> days_of_civil (y + n) m d * day + t mod day)"

subsection \<open>Creating an authority\<close>

record ca_template =
  tpl_serial :: int
  tpl_common_name :: string
  tpl_organization :: "string list"
  tpl_not_before :: int
  tpl_not_after :: int
  tpl_is_ca :: bool
  tpl_basic_constraints :: bool
  tpl_key_usage :: int

record 'k ca_source =
  src_key :: "(go_error, 'k) result"
  src_serial :: "int \<Rightarrow> (go_error, int) result"
  src_certificate :: "ca_template \<Rightarrow> 'k \<Rightarrow> (go_error, bytes) result"
  src_marshal_key :: "'k \<Rightarrow> (go_error, bytes) result"

definition ca_template_of :: "int \<Rightarrow> int \<Rightarrow> ca_template" where
  "ca_template_of now serial =
     \<lparr>tpl_serial = serial, tpl_common_name = ''TAP Development MITM CA'', tpl_organization = [''TAP''],
      tpl_not_before = now - 5 * 60 * second, tpl_not_after = add_years 10 now, tpl_is_ca = True,
      tpl_basic_constraints = True,
      tpl_key_usage = KeyUsageCertSign OR KeyUsageCRLSign OR KeyUsageDigitalSignature\<rparr>"

text \<open>The key pair in PEM form, from a fresh key, a serial below 2^128 and the template.\<close>

definition generate_ca :: "'k ca_source \<Rightarrow> int \<Rightarrow> (go_error, bytes \<times> bytes) result" where
  "generate_ca src now =
     and_then (src_key src) (\<lambda>k.
     and_then (src_serial src (push_bit 128 1)) (\<lambda>serial.
     and_then (src_certificate src (ca_template_of now serial) k) (\<lambda>der.
     and_then (src_marshal_key src k) (\<lambda>key_der.
     Inr (pem_encode ''CERTIFICATE'' der, pem_encode ''EC PRIVATE KEY'' key_der)))))"

definition is_absent :: "(os_error, 'a) result \<Rightarrow> bool" where
  "is_absent r = (case r of Inl e \<Rightarrow> e = FileNotExist | Inr _ \<Rightarrow> False)"

definition error_shown :: "(os_error, 'a) result \<Rightarrow> string" where
  "error_shown r = (case r of Inl e \<Rightarrow> os_error_text e | Inr _ \<Rightarrow> ''<nil>'')"

definition load_or_create_ca ::
  "'k x509 \<Rightarrow> 'k ca_source \<Rightarrow> int \<Rightarrow> disk \<Rightarrow> string \<Rightarrow> string \<Rightarrow> disk \<times> (go_error, 'k certificate) result" where
  "load_or_create_ca x src now d cert_path key_path =
     (let cert = read_file d cert_path; key = read_file d key_path in
      case (cert, key) of
        (Inr cert_pem, Inr key_pem) \<Rightarrow> (d, parse_ca x cert_pem key_pem)
      | _ \<Rightarrow>
         (if \<not> is_absent cert \<or> \<not> is_absent key
          then (d, Inl (Plain (''read CA files: certificate: '' @ error_shown cert @ ''; key: '' @ error_shown key)))
          else if is_absent cert \<noteq> is_absent key
          then (d, Inl (Plain ''CA certificate and key must either both exist or both be absent''))
          else case generate_ca src now of
            Inl e \<Rightarrow> (d, Inl e)
          | Inr (cert_pem, key_pem) \<Rightarrow>
              (case write_file d cert_path cert_pem 420 of
                 (d1, Inl e) \<Rightarrow> (d1, os_wrap ''write CA certificate'' (Inl e))
               | (d1, Inr _) \<Rightarrow>
                   (case write_file d1 key_path key_pem 384 of
                      (d2, Inl e) \<Rightarrow> (d2, os_wrap ''write CA private key'' (Inl e))
                    | (d2, Inr _) \<Rightarrow> (d2, parse_ca x cert_pem key_pem)))))"

subsection \<open>What is promised of the files\<close>

lemma read_put_file:
  "read_file (put_file d path data perm) path' =
     (if path' = path \<and> unreadable d path = None then Inr data else read_file d path')"
  by (auto simp: read_file_def put_file_def split: option.split)

lemma write_file_Inr:
  "write_file d path data perm = (d', Inr u)
     \<Longrightarrow> d' = put_file (d\<lparr>write_outcomes := tl (write_outcomes d)\<rparr>) path data perm"
  by (auto simp: write_file_def Let_def split: write_outcome.splits list.splits)

lemma absent_readable: "read_file d path = Inl FileNotExist \<longleftrightarrow> unreadable d path = None \<and> file_at d path = None"
  by (auto simp: read_file_def split: option.splits)

text \<open>
  An authority is never replaced.  Unless both files are absent, \<open>LoadOrCreateCA\<close> writes nothing:
  with both readable it answers what \<open>LoadCA\<close> answers, and otherwise it fails with the two read
  errors.  The message that both files must exist or be absent is never reached, since a missing
  file beside a present one is already one of those failures.\<close>

theorem ca_never_replaced:
  assumes "\<not> (read_file d cert_path = Inl FileNotExist \<and> read_file d key_path = Inl FileNotExist)"
  shows "load_or_create_ca x src now d cert_path key_path =
    (d, if is_ok (read_file d cert_path) \<and> is_ok (read_file d key_path)
        then load_ca x d cert_path key_path
        else Inl (Plain (''read CA files: certificate: '' @ error_shown (read_file d cert_path)
                           @ ''; key: '' @ error_shown (read_file d key_path))))"
  using assms
  by (cases "read_file d cert_path"; cases "read_file d key_path")
    (auto simp: load_or_create_ca_def load_ca_def is_absent_def)


lemma cert_sign_bit: "u AND KeyUsageCertSign = 0 \<longleftrightarrow> \<not> bit u 5"
proof -
  have "KeyUsageCertSign = 2 ^ 5" by (simp add: KeyUsageCertSign_def)
  then show ?thesis using and_exp_eq_0_iff_not_bit[of u 5] by metis
qed

text \<open>
  A loaded authority can sign.  Whatever the two files hold, \<open>LoadCA\<close> succeeds only with a
  certificate marked as an authority whose key usage includes signing certificates, and the leaf is
  the parsed first certificate of the pair that was read.\<close>

theorem loaded_ca_can_sign:
  assumes "load_ca x d cert_path key_path = Inr cert"
  shows "leaf_is_ca (cert_leaf cert) \<and> bit (leaf_key_usage (cert_leaf cert)) 5
    \<and> x509_parse x (cert_first cert) = Inr (cert_leaf cert)
    \<and> (\<exists>cert_pem key_pem. read_file d cert_path = Inr cert_pem \<and> read_file d key_path = Inr key_pem
         \<and> x509_key_pair x cert_pem key_pem = Inr (cert_first cert, cert_rest cert, cert_key cert))"
proof -
  obtain cert_pem key_pem der rest k leaf where
    r: "read_file d cert_path = Inr cert_pem" "read_file d key_path = Inr key_pem"
    and pair: "x509_key_pair x cert_pem key_pem = Inr (der, rest, k)" "x509_parse x der = Inr leaf"
    and ok: "leaf_is_ca leaf" "leaf_key_usage leaf AND KeyUsageCertSign \<noteq> 0"
    and c: "cert = \<lparr>cert_first = der, cert_rest = rest, cert_key = k, cert_leaf = leaf\<rparr>"
    using assms
    by (auto simp: load_ca_def parse_ca_def and_then_Inr_iff require_Inr_iff split: prod.splits)
  from ok(2) have "bit (leaf_key_usage leaf) 5" by (simp only: cert_sign_bit not_not)
  with r pair ok(1) show ?thesis by (simp add: c)
qed

end
