(* ===== verification/Secrets.thy ===== *)
theory Secrets
  imports ProofCache "HOL-Library.Word"
begin

unbundle bit_operations_syntax

section \<open>Secrets (internal/gcpsecret/access.go)\<close>

text \<open>
  The DSN of the database may come from Secret Manager.  Only a numbered version is accepted, and a
  payload only when it is not empty, agrees with its checksum and has no line break.  The client of
  the service is a parameter; the regular expression and CRC-32C are modelled as \<open>regexp\<close> and
  \<open>hash/crc32\<close> define them.
\<close>

subsection \<open>The version name\<close>

text \<open>
  The items of the pattern \<open>^projects/[^/]+/secrets/[^/]+/versions/[1-9][0-9]*$\<close>, matched against the
  whole text with backtracking.  A negated class takes a rune at a time, a byte that is no rune
  included; no byte of a longer rune is a slash, so that bytes give the same matches.
\<close>

datatype name_item =
    Exactly string
  | SomeExcept char
  | OneBetween nat nat
  | ManyBetween nat nat

function (sequential) match_items :: "name_item list \<Rightarrow> string \<Rightarrow> bool" where
  "match_items [] s \<longleftrightarrow> s = []"
| "match_items (Exactly w # rest) s \<longleftrightarrow> has_prefix s w \<and> match_items rest (drop (length w) s)"
| "match_items (SomeExcept d # rest) [] \<longleftrightarrow> False"
| "match_items (SomeExcept d # rest) (c # cs) \<longleftrightarrow>
     c \<noteq> d \<and> (match_items (SomeExcept d # rest) cs \<or> match_items rest cs)"
| "match_items (OneBetween lo hi # rest) [] \<longleftrightarrow> False"
| "match_items (OneBetween lo hi # rest) (c # cs) \<longleftrightarrow> byte_in lo hi c \<and> match_items rest cs"
| "match_items (ManyBetween lo hi # rest) [] \<longleftrightarrow> match_items rest []"
| "match_items (ManyBetween lo hi # rest) (c # cs) \<longleftrightarrow>
     byte_in lo hi c \<and> match_items (ManyBetween lo hi # rest) cs \<or> match_items rest (c # cs)"
  by pat_completeness auto
termination
  by (relation "measure (\<lambda>(items, s). length items + length s)") auto

definition fixed_version_name :: "name_item list" where
  "fixed_version_name =
     [Exactly ''projects/'', SomeExcept CHR ''/'', Exactly ''/secrets/'', SomeExcept CHR ''/'',
      Exactly ''/versions/'', OneBetween 49 57, ManyBetween 48 57]"

lemma match_some_except:
  "match_items (SomeExcept d # rest) s \<longleftrightarrow>
     (\<exists>p t. s = p @ t \<and> p \<noteq> [] \<and> d \<notin> set p \<and> match_items rest t)"
proof (induction s)
  case (Cons c cs)
  show ?case
  proof
    assume "match_items (SomeExcept d # rest) (c # cs)"
    then consider "c \<noteq> d" "match_items (SomeExcept d # rest) cs" | "c \<noteq> d" "match_items rest cs" by auto
    then show "\<exists>p t. c # cs = p @ t \<and> p \<noteq> [] \<and> d \<notin> set p \<and> match_items rest t"
    proof cases
      case 1
      then obtain p t where "cs = p @ t" "p \<noteq> []" "d \<notin> set p" "match_items rest t" using Cons by auto
      with 1(1) show ?thesis by (intro exI[of _ "c # p"] exI[of _ t]) auto
    next
      case 2
      then show ?thesis by (intro exI[of _ "[c]"] exI[of _ cs]) auto
    qed
  next
    assume "\<exists>p t. c # cs = p @ t \<and> p \<noteq> [] \<and> d \<notin> set p \<and> match_items rest t"
    then obtain p t where pt: "c # cs = p @ t" "p \<noteq> []" "d \<notin> set p" "match_items rest t" by blast
    then obtain p' where "p = c # p'" "cs = p' @ t" by (cases p) auto
    with pt Cons show "match_items (SomeExcept d # rest) (c # cs)"
      by (cases "p' = []") auto
  qed
qed simp

lemma match_many_between:
  "match_items [ManyBetween lo hi] s \<longleftrightarrow> list_all (byte_in lo hi) s"
  by (induction s) auto

lemma match_exactly: "match_items (Exactly w # rest) s \<longleftrightarrow> (\<exists>t. s = w @ t \<and> match_items rest t)"
proof
  assume h: "match_items (Exactly w # rest) s"
  then have "s = w @ drop (length w) s"
    using append_take_drop_id[of "length w" s] by (simp add: has_prefix_def)
  with h show "\<exists>t. s = w @ t \<and> match_items rest t" by auto
qed (auto simp: has_prefix_def)

lemma match_one_between:
  "match_items (OneBetween lo hi # rest) s \<longleftrightarrow> (\<exists>c t. s = c # t \<and> byte_in lo hi c \<and> match_items rest t)"
  by (cases s) auto

lemmas match_simps = match_exactly match_some_except match_one_between match_many_between

lemma match_fixed_version:
  "match_items fixed_version_name name \<longleftrightarrow>
     (\<exists>p q c ds. name = ''projects/'' @ p @ ''/secrets/'' @ q @ ''/versions/'' @ c # ds
        \<and> p \<noteq> [] \<and> CHR ''/'' \<notin> set p \<and> q \<noteq> [] \<and> CHR ''/'' \<notin> set q
        \<and> byte_in 49 57 c \<and> list_all (byte_in 48 57) ds)"
  unfolding fixed_version_name_def match_simps by fastforce

subsection \<open>CRC-32C\<close>

text \<open>\<open>simpleMakeTable\<close>, \<open>simpleUpdate\<close> and \<open>Checksum\<close> of \<open>hash/crc32\<close>.\<close>

definition castagnoli :: "32 word" where "castagnoli = 0x82F63B78"

definition crc_bit :: "32 word \<Rightarrow> 32 word" where
  "crc_bit c = (if c AND 1 = 1 then drop_bit 1 c XOR castagnoli else drop_bit 1 c)"

definition crc_table :: "nat \<Rightarrow> 32 word" where
  "crc_table i = (crc_bit ^^ 8) (of_nat i)"

definition crc_byte :: "32 word \<Rightarrow> char \<Rightarrow> 32 word" where
  "crc_byte c v = crc_table (unat ((c XOR of_nat (byte v)) AND 0xFF)) XOR drop_bit 8 c"

definition crc32_checksum :: "bytes \<Rightarrow> 32 word" where
  "crc32_checksum data = NOT (foldl crc_byte (NOT 0) data)"

subsection \<open>Reading a secret\<close>

record secret_payload =
  payload_data :: bytes
  payload_crc :: "int option"

definition text_from_payload :: "secret_payload option \<Rightarrow> (go_error, string) result" where
  "text_from_payload payload =
     (case payload of
        None \<Rightarrow> Inl (Plain ''Secret Manager version contains an empty payload'')
      | Some p \<Rightarrow>
          require (payload_data p \<noteq> []) (Plain ''Secret Manager version contains an empty payload'') (
          require (case payload_crc p of
                     None \<Rightarrow> True
                   | Some sum_given \<Rightarrow> uint (crc32_checksum (payload_data p)) = sum_given)
            (Plain ''Secret Manager payload checksum mismatch'') (
          require (\<not> contains_any (payload_data p) [CHR 0x00, CHR 13, CHR 10])
            (Plain ''Secret Manager payload must not contain NUL or line-break characters'')
            (Inr (payload_data p)))))"

text \<open>The client: creating it, and the payload of the version a call answers.\<close>

record secret_client =
  client_open :: "(go_error, unit) result"
  client_access :: "string \<Rightarrow> (go_error, secret_payload option) result"

definition access_fixed_version :: "secret_client \<Rightarrow> string \<Rightarrow> (go_error, string) result" where
  "access_fixed_version client name =
     require (match_items fixed_version_name name)
       (Plain ''secret version must use projects/PROJECT/secrets/SECRET/versions/NUMBER'') (
     and_then (wrap_error ''create Secret Manager client'' (client_open client)) (\<lambda>_.
     and_then (wrap_error ''access Secret Manager version'' (client_access client name)) text_from_payload))"

subsection \<open>The checksum tells single bytes apart\<close>

lemma crc_bit_alt: "crc_bit c = drop_bit 1 c XOR (if odd c then castagnoli else 0)"
proof -
  have "c AND 1 = 1 \<longleftrightarrow> odd c" by (simp add: and_one_eq odd_iff_mod_2_eq_one)
  then show ?thesis by (simp add: crc_bit_def)
qed

lemma crc_bit_xor: "crc_bit (a XOR b) = crc_bit a XOR crc_bit b"
  by (simp add: crc_bit_alt even_xor_iff drop_bit_xor ac_simps)

lemma crc_bits_xor: "(crc_bit ^^ n) (a XOR b) = (crc_bit ^^ n) a XOR (crc_bit ^^ n) b"
  by (induction n) (simp_all add: crc_bit_xor)

lemma crc_bits_low_zero: "take_bit n c = 0 \<Longrightarrow> (crc_bit ^^ n) c = drop_bit n c"
proof (induction n arbitrary: c)
  case (Suc n)
  have "even c" using Suc.prems by (metis bit_0 bit_take_bit_iff bit_0_eq zero_less_Suc bot_apply bot_bool_def)
  then have b: "crc_bit c = drop_bit 1 c" by (simp add: crc_bit_alt)
  have "take_bit n (drop_bit 1 c) = drop_bit 1 (take_bit (Suc n) c)"
    by (simp add: drop_bit_take_bit)
  then have "(crc_bit ^^ n) (drop_bit 1 c) = drop_bit n (drop_bit 1 c)" using Suc by simp
  then show ?case using b by (simp add: funpow_swap1)
qed simp

lemma xor_cancel: "a XOR k = b XOR k \<Longrightarrow> a = b" for a b k :: "32 word"
proof -
  have "(x XOR k) XOR k = x" for x :: "32 word" by (simp add: xor.assoc)
  then show "a XOR k = b XOR k \<Longrightarrow> a = b" by metis
qed

lemma castagnoli_top: "bit castagnoli 31"
  by (simp add: castagnoli_def)

lemma crc_bit_inj: "crc_bit a = crc_bit b \<Longrightarrow> a = b"
proof -
  assume h: "crc_bit a = crc_bit b"
  have top: "bit (crc_bit x) 31 \<longleftrightarrow> odd x" for x
  proof -
    have "\<not> bit (drop_bit 1 x) 31" using bit_imp_le_length[of x 32] by (auto simp: bit_drop_bit_eq)
    then show ?thesis by (simp add: crc_bit_alt bit_xor_iff castagnoli_top)
  qed
  from h top have o: "odd a \<longleftrightarrow> odd b" by metis
  then have "drop_bit 1 a = drop_bit 1 b" using h xor_cancel by (auto simp: crc_bit_alt split: if_splits)
  then show "a = b" using o by (metis bits_ident[of 1 a] bits_ident[of 1 b] take_bit_Suc_0 One_nat_def odd_iff_mod_2_eq_one even_iff_mod_2_eq_zero)
qed

lemma crc_bits_inj: "(crc_bit ^^ n) a = (crc_bit ^^ n) b \<Longrightarrow> a = b"
  by (induction n arbitrary: a b) (auto dest: crc_bit_inj)

lemma drop_high_part: "drop_bit 8 (y AND NOT (mask 8)) = drop_bit 8 y" for y :: "32 word"
  by (rule bit_eqI) (auto simp: bit_simps dest: bit_imp_le_length)

lemma unat_byte: "unat (of_nat (byte v) :: 32 word) = byte v"
  using less_trans[OF byte_less[of v], of "2 ^ 32"] by (simp add: unat_of_nat)

text \<open>The table driven step is eight steps of one bit.\<close>

lemma crc_byte_bits: "crc_byte c v = (crc_bit ^^ 8) (c XOR of_nat (byte v))"
proof -
  let ?x = "c XOR of_nat (byte v)"
  let ?hi = "?x AND NOT 0xFF"
  have mask: "(0xFF :: 32 word) = mask 8" by (simp add: mask_eq_exp_minus_1)
  have x: "?x = (?x AND 0xFF) XOR ?hi" by (rule bit_eqI) (auto simp: bit_simps)
  have "take_bit 8 ?hi = 0" unfolding mask by (rule bit_eqI) (auto simp: bit_simps)
  then have "(crc_bit ^^ 8) ?hi = drop_bit 8 ?hi" by (rule crc_bits_low_zero)
  also have "\<dots> = drop_bit 8 ?x" unfolding mask by (rule drop_high_part)
  also have "\<dots> = drop_bit 8 c XOR drop_bit 8 (of_nat (byte v))" by (simp add: drop_bit_xor)
  also have "drop_bit 8 (of_nat (byte v) :: 32 word) = 0"
    unfolding word_unat_eq_iff unat_drop_bit_eq unat_byte by (simp add: drop_bit_eq_div)
  finally have hi: "(crc_bit ^^ 8) ?hi = drop_bit 8 c" by simp
  have "(crc_bit ^^ 8) ?x = (crc_bit ^^ 8) (?x AND 0xFF) XOR (crc_bit ^^ 8) ?hi"
    using crc_bits_xor[of 8 "?x AND 0xFF" ?hi] x by metis
  then show ?thesis unfolding hi by (simp add: crc_byte_def crc_table_def)
qed

lemma crc_byte_inj: "crc_byte c v = crc_byte d v \<Longrightarrow> c = d"
  unfolding crc_byte_bits by (drule crc_bits_inj) (rule xor_cancel)

lemma crc_byte_inj_data: "crc_byte c v = crc_byte c w \<Longrightarrow> v = w"
proof -
  assume "crc_byte c v = crc_byte c w"
  then have "of_nat (byte v) XOR c = (of_nat (byte w) XOR c :: 32 word)"
    unfolding crc_byte_bits by (metis crc_bits_inj xor.commute)
  then have "(of_nat (byte v) :: 32 word) = of_nat (byte w)" by (rule xor_cancel)
  then show "v = w" by (metis unat_byte byte_inject)
qed

lemma crc_fold_inj: "foldl crc_byte c data = foldl crc_byte d data \<Longrightarrow> c = d"
  by (induction data arbitrary: c d) (auto dest: crc_byte_inj)

lemma crc_one_byte:
  assumes "crc32_checksum (as @ v # bs) = crc32_checksum (as @ w # bs)"
  shows "v = w"
proof -
  have "foldl crc_byte (crc_byte (foldl crc_byte (NOT 0) as) v) bs
      = foldl crc_byte (crc_byte (foldl crc_byte (NOT 0) as) w) bs"
    using assms by (simp add: crc32_checksum_def)
  then show ?thesis by (blast dest: crc_fold_inj crc_byte_inj_data)
qed

subsection \<open>What is read\<close>

text \<open>
  Which secrets are read.  A read succeeds exactly when the name is that of a numbered version,
  so never of an alias, and the service answers a payload that is not empty, has no NUL, carriage
  return or line feed, and carries no checksum or its own; the text is then the payload, unchanged.\<close>

theorem secret_read_exact:
  "access_fixed_version client name = Inr text \<longleftrightarrow>
     (\<exists>project secret c ds.
        name = ''projects/'' @ project @ ''/secrets/'' @ secret @ ''/versions/'' @ c # ds
        \<and> project \<noteq> [] \<and> CHR ''/'' \<notin> set project \<and> secret \<noteq> [] \<and> CHR ''/'' \<notin> set secret
        \<and> byte_in 49 57 c \<and> list_all (byte_in 48 57) ds)
     \<and> client_open client = Inr ()
     \<and> (\<exists>crc. client_access client name = Inr (Some \<lparr>payload_data = text, payload_crc = crc\<rparr>)
          \<and> crc \<in> {None, Some (uint (crc32_checksum text))})
     \<and> text \<noteq> [] \<and> set text \<inter> {CHR 0x00, CHR 13, CHR 10} = {}"
proof -
  have split: "payload = \<lparr>payload_data = text, payload_crc = crc\<rparr> \<longleftrightarrow>
      payload_data payload = text \<and> payload_crc payload = crc" for payload crc
    by (cases payload) simp
  have "text_from_payload answer = Inr text \<longleftrightarrow>
      (\<exists>crc. answer = Some \<lparr>payload_data = text, payload_crc = crc\<rparr>
          \<and> crc \<in> {None, Some (uint (crc32_checksum text))})
      \<and> text \<noteq> [] \<and> set text \<inter> {CHR 0x00, CHR 13, CHR 10} = {}" for answer
    by (cases answer)
      (auto simp: text_from_payload_def require_Inr_iff contains_any_iff split split: option.splits)
  then show ?thesis
    unfolding access_fixed_version_def require_Inr_iff match_fixed_version[symmetric]
    by (auto simp: and_then_Inr_iff)
qed

text \<open>
  C31: A corrupted secret is rejected.  When a payload with a checksum is accepted, the same payload
  with any one byte changed to any other value is rejected as a mismatch: CRC-32C, in the table
  driven form of the library, tells any two payloads apart that differ in one byte.\<close>

theorem corrupted_secret_rejected:
  assumes "text_from_payload (Some \<lparr>payload_data = front @ v # rest, payload_crc = Some crc\<rparr>) = Inr text"
    and "w \<noteq> v"
  shows "text_from_payload (Some \<lparr>payload_data = front @ w # rest, payload_crc = Some crc\<rparr>)
    = Inl (Plain ''Secret Manager payload checksum mismatch'')"
proof -
  have "uint (crc32_checksum (front @ v # rest)) = crc"
    using assms(1) by (auto simp: text_from_payload_def require_Inr_iff)
  moreover have "crc32_checksum (front @ w # rest) \<noteq> crc32_checksum (front @ v # rest)"
    using crc_one_byte assms(2) by blast
  ultimately have "uint (crc32_checksum (front @ w # rest)) \<noteq> crc" by (auto dest: word_uint_eqI)
  then show ?thesis by (simp add: text_from_payload_def)
qed

theorem corrupted_secret_rejected_witness:
  "text_from_payload (Some \<lparr>payload_data = ''postgres://b'',
       payload_crc = Some (uint (crc32_checksum ''postgres://a''))\<rparr>)
   = Inl (Plain ''Secret Manager payload checksum mismatch'')"
proof -
  have "text_from_payload (Some \<lparr>payload_data = ''postgres://'' @ CHR ''a'' # [],
      payload_crc = Some (uint (crc32_checksum ''postgres://a''))\<rparr>) = Inr ''postgres://a''"
    by (simp add: text_from_payload_def contains_any_def)
  from corrupted_secret_rejected[OF this, of "CHR ''b''"] show ?thesis by simp
qed

end
