(* ===== verification/JsonValues.thy ===== *)
theory JsonValues
  imports JsonMarshal
begin

section \<open>Written values read back\<close>

text \<open>
  The trees \<open>json.Marshal\<close> builds are compact, so that the parser reads their text back to the tree,
  and decoding the tree gives the value that was written.
\<close>

lemma compact_jstr [simp]: "compact d (jstr s)"
  by (simp add: jstr_def lex_escape_string_self)

lemma compact_jint [simp]: "compact d (jint n)"
  using wf_jint[of n] by (auto simp: wf_json_def jint_def)

lemma compact_jarr [simp]: "compact d (jarr vs) \<longleftrightarrow> d < max_nesting \<and> list_all (compact (d + 1)) vs"
  by (auto simp: jarr_def list_all_iff)

lemma compact_jobj [simp]:
  "compact d (jobj kvs) \<longleftrightarrow> d < max_nesting \<and> list_all (compact (d + 1) \<circ> snd) kvs"
  by (force simp: jobj_def list_all_iff lex_escape_string_self)

lemma decode_jstr: "valid_utf8 s \<Longrightarrow> decode_any (jstr s) = VString s"
  by (simp add: jstr_def unquote_escape_string)

lemma decode_jint: "decode_any (jint n) = VNumber (format_int n)"
  by (simp add: jint_def)

lemma decode_jarr: "decode_any (jarr vs) = VArray (map decode_any vs)"
  by (simp add: jarr_def)

lemma decode_jobj:
  assumes "list_all (valid_utf8 \<circ> fst) kvs"
  shows "decode_any (jobj kvs) =
    VObject (foldl (\<lambda>m (k, v). AList.update k v m) [] (map (\<lambda>(k, v). (k, decode_any v)) kvs))"
proof -
  have "map ((\<lambda>(k, _, j). (unquote k, decode_any j)) \<circ> (\<lambda>(k, v). (escape_string k, render v, v))) kvs
      = map (\<lambda>(k, v). (k, decode_any v)) kvs"
    using assms by (intro map_cong) (auto simp: list_all_iff unquote_escape_string)
  then show ?thesis unfolding jobj_def decode_any.simps map_map by (rule arg_cong)
qed

lemmas decode_written = decode_jstr decode_jint decode_jarr decode_jobj

end
