(* ===== verification/TokenClient.thy ===== *)
theory TokenClient
  imports ProofCache Proxy JsonValues
begin

section \<open>The attestation client (internal/gcpattestation/client.go)\<close>

text \<open>
  The token provider of the program: a POST to the launcher's socket with the audience and the
  nonces, and the checks on the answer.  The launcher, with the HTTP transport before it, is the
  function \<open>ask\<close> from a call to its answer.
\<close>

definition DefaultSocketPath :: string where
  "DefaultSocketPath = ''/run/container_launcher/teeserver.sock''"

record token_client =
  client_socket :: string
  client_audience :: string

definition new_token_client :: "string \<Rightarrow> string \<Rightarrow> token_client" where
  "new_token_client socket aud = \<lparr>client_socket = socket, client_audience = aud\<rparr>"

record token_call =
  call_socket :: string
  call_method :: string
  call_url :: string
  call_content_type :: string
  call_body :: bytes

record launcher_answer =
  answer_code :: int
  answer_status :: string
  answer_body :: http_body

type_synonym launcher = "token_call \<Rightarrow> (go_error, launcher_answer) result"

definition token_request :: "string \<Rightarrow> string list \<Rightarrow> json" where
  "token_request aud nonces =
     jobj [(''audience'', jstr aud), (''token_type'', jstr ''OIDC''), (''nonces'', jarr (map jstr nonces))]"

definition token_call_of :: "token_client \<Rightarrow> string list \<Rightarrow> token_call" where
  "token_call_of c nonces =
     \<lparr>call_socket = client_socket c, call_method = ''POST'', call_url = ''http://localhost/v1/token'',
      call_content_type = ''application/json'',
      call_body = render (token_request (client_audience c) nonces)\<rparr>"

text \<open>\<open>io.ReadAll\<close> of a limited reader: at the limit the reader is at its end.\<close>

definition read_limited :: "nat \<Rightarrow> http_body \<Rightarrow> (go_error, bytes) result" where
  "read_limited n b =
     (if length (pending b) < n \<and> fails b then Inl (Plain ''unexpected EOF'') else Inr (take n (pending b)))"

definition client_token :: "token_client \<Rightarrow> launcher \<Rightarrow> provider" where
  "client_token c ask nonces =
     and_then (wrap_error ''request Confidential Space attestation token'' (ask (token_call_of c nonces))) (\<lambda>a.
     and_then (wrap_error ''read attestation token'' (read_limited (2 ^ 20) (answer_body a))) (\<lambda>body.
     require (answer_code a = 200)
       (Plain (''Confidential Space launcher returned '' @ answer_status a @ '': '' @ trim_space body)) (
     require (length (split_on CHR ''.'' (trim_space body)) = 3)
       (Plain ''Confidential Space launcher returned an invalid OIDC token'')
       (Inr (trim_space body)))))"

subsection \<open>The request\<close>

lemma token_request_compact: "compact 0 (token_request aud nonces)"
  by (simp add: token_request_def max_nesting_def list_all_iff)


end
