(* ===== verification/Startup.thy ===== *)
theory Startup
  imports CaFiles Secrets TokenClient PathRules Extractors Postgres
begin

section \<open>Starting up (cmd/tap/main.go)\<close>

text \<open>
  What \<open>main\<close> does before it serves: it reads the signing rules, creates an attested signing key and
  opens the proof store.  A file is opened by a function from its path to its contents and whether
  reading them ends in an error; \<open>rt\<close> is the runtime with its hash function.
\<close>

subsection \<open>The signing rules\<close>

type_synonym rules = "(string \<times> path_rule) list"
type_synonym opener = "string \<Rightarrow> (os_error, bytes \<times> bool) result"

datatype config_error =
    OpenError os_error
  | DecodeError json_error
  | UnexpectedData
  | TrailingError
  | NoPaths
  | RuleError path_error
  | UnsupportedExtractor string string
  | RelativeRules string config_error
  | FixedRules string string config_error

definition relativeSigningRulesPath :: string where
  "relativeSigningRulesPath = ''signing-rules.json''"

definition fixedSigningRulesPath :: string where
  "fixedSigningRulesPath = ''/etc/tap/signing-rules.json''"

text \<open>
  \<open>proxyConfig\<close> and \<open>PathRule\<close> decoded without unknown fields.  The map \<open>paths\<close> is an association list;
  a key that is there already gets a fresh rule.
\<close>

definition decode_path_rule :: "json \<Rightarrow> path_rule \<Rightarrow> (json_error, path_rule) result" where
  "decode_path_rule v old =
     decode_known_struct [''extractor'']
       (\<lambda>f raw v r. and_then (decode_string v (extractor r)) (\<lambda>x. Inr (r\<lparr>extractor := x\<rparr>))) v old"

fun decode_rule_members :: "(string \<times> string \<times> json) list \<Rightarrow> rules \<Rightarrow> (json_error, rules) result" where
  "decode_rule_members [] m = Inr m"
| "decode_rule_members ((k, _, v) # ms) m =
     and_then (decode_path_rule v \<lparr>extractor = []\<rparr>) (\<lambda>r.
       decode_rule_members ms (AList.update (unquote k) r m))"

definition decode_rules :: "json \<Rightarrow> rules \<Rightarrow> (json_error, rules) result" where
  "decode_rules v old =
     (case v of
        JNull \<Rightarrow> Inr []
      | JObj ms \<Rightarrow> decode_rule_members ms old
      | _ \<Rightarrow> Inl WrongType)"

definition decode_config :: "json \<Rightarrow> (json_error, rules) result" where
  "decode_config v = decode_known_struct [''paths''] (\<lambda>f raw v m. decode_rules v m) v []"

text \<open>
  The second \<open>Decode\<close> must meet the end of the file.  A number needs a byte behind it to be complete,
  so that a read error at its end is an error.
\<close>

definition ensure_json_eof :: "bytes \<Rightarrow> bool \<Rightarrow> (config_error, unit) result" where
  "ensure_json_eof rest broken =
     (if skip_ws rest = [] then (if broken then Inl TrailingError else Inr ())
      else (case json_decode rest of
         None \<Rightarrow> Inl TrailingError
       | Some (JNum _, []) \<Rightarrow> Inl (if broken then TrailingError else UnexpectedData)
       | Some _ \<Rightarrow> Inl UnexpectedData))"

text \<open>
  \<open>loadProxyConfig\<close>.  Both loops over the map go in an order of their own, the first in
  \<open>CompilePathRules\<close>.
\<close>

definition load_proxy_config ::
  "('r) runtime_scheme \<Rightarrow> (rules \<Rightarrow> rules) \<Rightarrow> (rules \<Rightarrow> rules) \<Rightarrow> opener \<Rightarrow> string
     \<Rightarrow> (config_error, compiled_rules) result" where
  "load_proxy_config rt order1 order2 opened path =
     (case opened path of
        Inl e \<Rightarrow> Inl (OpenError e)
      | Inr (data, broken) \<Rightarrow>
          (case json_decode data of
             None \<Rightarrow> Inl (DecodeError SyntaxError)
           | Some (v, rest) \<Rightarrow>
               (case decode_config v of
                  Inl e \<Rightarrow> Inl (DecodeError e)
                | Inr cfg \<Rightarrow>
                    and_then (ensure_json_eof rest broken) (\<lambda>_.
                    require (cfg \<noteq> []) NoPaths (
                    (case compile_path_rules (order1 cfg) of
                       Inl e \<Rightarrow> Inl (RuleError e)
                     | Inr compiled \<Rightarrow>
                         (case find (\<lambda>(_, r). \<not> is_supported_extractor rt (extractor r)) (order2 cfg) of
                            Some (p, r) \<Rightarrow> Inl (UnsupportedExtractor p (extractor r))
                          | None \<Rightarrow> Inr compiled)))))))"

definition load_proxy_config_with_fallback ::
  "('r) runtime_scheme \<Rightarrow> (rules \<Rightarrow> rules) \<Rightarrow> (rules \<Rightarrow> rules) \<Rightarrow> opener \<Rightarrow> string \<Rightarrow> string
     \<Rightarrow> (config_error, compiled_rules \<times> string) result" where
  "load_proxy_config_with_fallback rt order1 order2 opened relative_path fixed_path =
     (case load_proxy_config rt order1 order2 opened relative_path of
        Inr c \<Rightarrow> Inr (c, relative_path)
      | Inl e \<Rightarrow>
          (if e \<noteq> OpenError FileNotExist then Inl (RelativeRules relative_path e)
           else (case load_proxy_config rt order1 order2 opened fixed_path of
              Inl e' \<Rightarrow> Inl (FixedRules fixed_path relative_path e')
            | Inr c \<Rightarrow> Inr (c, fixed_path))))"

subsection \<open>The proof store\<close>

definition postgresDSNSecretVersionEnv :: string where
  "postgresDSNSecretVersionEnv = ''TAP_PG_DSN_SECRET_VERSION''"

definition direct_environment :: "string list" where
  "direct_environment =
     [''TAP_PG_DSN'', ''TAP_PG_HOST'', ''TAP_PG_PORT'', ''TAP_PG_USER'', ''TAP_PG_PASSWORD'',
      ''TAP_PG_DATABASE'', ''TAP_PG_SSLMODE'', ''TRUSTED_PROXY_PG_DSN'', ''TRUSTED_PROXY_PG_HOST'',
      ''TRUSTED_PROXY_PG_PORT'', ''TRUSTED_PROXY_PG_USER'', ''TRUSTED_PROXY_PG_PASSWORD'',
      ''TRUSTED_PROXY_PG_DATABASE'', ''TRUSTED_PROXY_PG_SSLMODE'']"

text \<open>The result says whether a store is configured, whether a pool was closed again, and the store.\<close>

definition open_postgres_proof_store ::
  "environ \<Rightarrow> secret_client \<Rightarrow> 'h pg_driver \<Rightarrow> bool \<times> bool \<times> (go_error, 'h option) result" where
  "open_postgres_proof_store env client drv =
     (let version = trim_space (env postgresDSNSecretVersionEnv) in
      if version = [] then open_postgres drv (postgres_dsn_from_environment env)
      else (case find (\<lambda>name. env name \<noteq> []) direct_environment of
         Some name \<Rightarrow>
           (True, False, Inl (Plain (postgresDSNSecretVersionEnv @ '' cannot be combined with '' @ name)))
       | None \<Rightarrow>
           (case access_fixed_version client version of
              Inl e \<Rightarrow> (True, False, Inl (Wrapped ''load PostgreSQL DSN'' e))
            | Inr dsn \<Rightarrow> open_postgres drv (postgres_dsn_from_secret dsn))))"

subsection \<open>The signing identity\<close>

text \<open>
  The identity and its signer share the array of the private key, and so does \<open>Destroy\<close>: \<open>key_memory\<close>
  is that array, which the signer reads.
\<close>

record signing_identity =
  key_memory :: bytes
  identity_public_key :: bytes
  identity_key_id :: string

definition identity_signer :: "signing_identity \<Rightarrow> signer" where
  "identity_signer i = \<lparr>private_key = key_memory i, signer_key_id = identity_key_id i\<rparr>"

definition cleared :: "bytes \<Rightarrow> bytes" where
  "cleared key = replicate (length key) CHR 0x00"

text \<open>
  \<open>bootstrapSigningIdentity\<close>: what the array of the generated private key holds afterwards, and the
  result.  \<open>generated\<close> is the key pair, \<open>aud\<close> and \<open>prov\<close> the provider.
\<close>

definition bootstrap_signing_identity ::
  "('r) runtime_scheme \<Rightarrow> (go_error, bytes \<times> bytes) result \<Rightarrow> string option \<Rightarrow> provider \<Rightarrow> int
     \<Rightarrow> (go_error, bytes) result \<Rightarrow> bytes \<times> (go_error, signing_identity) result" where
  "bootstrap_signing_identity rt generated aud prov now random =
     (case generated of
        Inl e \<Rightarrow> ([], Inl (Wrapped ''generate ephemeral Ed25519 key'' e))
      | Inr (pk, sk) \<Rightarrow>
          (case new_cache rt aud pk (public_key_id rt pk) [] of
             Inl e \<Rightarrow> (cleared sk, Inl e)
           | Inr c \<Rightarrow>
               (case preflight (c :: unit cache) prov now random of
                  Inl e \<Rightarrow> (cleared sk, Inl e)
                | Inr _ \<Rightarrow>
                    (sk, Inr \<lparr>key_memory = sk, identity_public_key = pk,
                              identity_key_id = public_key_id rt pk\<rparr>))))"

definition destroy_identity :: "signing_identity \<Rightarrow> signing_identity" where
  "destroy_identity i = i\<lparr>key_memory := cleared (key_memory i)\<rparr>"

end
