(* ===== verification/Metadata.thy ===== *)
theory Metadata
  imports Router JsonValues
begin

section \<open>The metadata endpoints (cmd/tap/main.go)\<close>

text \<open>
  The requests that are for the proxy itself: the key of this replica, and the attestation proof for
  a challenge.  A handler answers a response of the fields \<open>main\<close> sets; \<open>net/http\<close> adds its own.
\<close>

subsection \<open>Queries\<close>

text \<open>\<open>strings.Cut\<close> at a byte.\<close>

definition cut_at :: "char \<Rightarrow> string \<Rightarrow> string \<times> string" where
  "cut_at d s = (takeWhile (\<lambda>c. c \<noteq> d) s, drop 1 (dropWhile (\<lambda>c. c \<noteq> d) s))"

text \<open>One pair of \<open>url.ParseQuery\<close>; a pair that is in error is left out.\<close>

definition query_pair :: "string \<Rightarrow> (string \<times> string) option" where
  "query_pair p =
     (if List.member p CHR '';'' \<or> p = [] then None
      else (case cut_at CHR ''='' p of (k, v) \<Rightarrow>
        (case (url_unescape UrlQuery k, url_unescape UrlQuery v) of
           (Some k', Some v') \<Rightarrow> Some (k', v')
         | _ \<Rightarrow> None)))"

definition query_get :: "string \<Rightarrow> string \<Rightarrow> string" where
  "query_get raw key =
     (case map_of (List.map_filter query_pair (split_on CHR ''&'' raw)) key of None \<Rightarrow> [] | Some v \<Rightarrow> v)"

subsection \<open>Responses\<close>

record metadata_response =
  resp_status :: int
  resp_content_type :: string
  resp_cache_control :: string
  resp_body :: bytes

definition http_error :: "string \<Rightarrow> int \<Rightarrow> metadata_response" where
  "http_error msg code =
     \<lparr>resp_status = code, resp_content_type = ''text/plain; charset=utf-8'', resp_cache_control = [],
      resp_body = msg @ [CHR 10]\<rparr>"

text \<open>\<open>json.NewEncoder(w).Encode\<close> after the two headers.\<close>

definition json_response :: "json \<Rightarrow> metadata_response" where
  "json_response v =
     \<lparr>resp_status = 200, resp_content_type = ''application/json'', resp_cache_control = ''no-store'',
      resp_body = render v @ [CHR 10]\<rparr>"

text \<open>A map is written with its keys in order, a struct with its fields as declared.\<close>

definition key_json :: "bytes \<Rightarrow> string \<Rightarrow> string \<Rightarrow> json" where
  "key_json pk kid ref =
     jobj [(''algorithm'', jstr Algorithm), (''key_id'', jstr kid), (''proof_ref'', jstr ref),
           (''public_key'', jstr (b64_encode pk))]"

definition bundle_json :: "proof_bundle \<Rightarrow> json" where
  "bundle_json b =
     jobj [(''token_type'', jstr (token_type b)), (''attestation_token'', jstr (attestation_token b)),
           (''audience'', jstr (audience b)), (''key_id'', jstr (bundle_key_id b)),
           (''challenge_nonce'', jstr (challenge_nonce b)), (''proof_ref'', jstr (proof_ref b)),
           (''expires_at'', jint (expires_at b)),
           (''attestation_key'',
            jobj [(''algorithm'', jstr (key_algorithm b)), (''public_key'', jstr (public_key b)),
                  (''binding_nonce'', jstr (binding_nonce b))])]"

subsection \<open>The endpoints\<close>

definition valid_proof_reference :: "string \<Rightarrow> bool" where
  "valid_proof_reference ref \<longleftrightarrow>
     has_prefix ref ''proof-'' \<and> length ref = length ''proof-'' + 24
     \<and> list_all (\<lambda>r. (97 \<le> r \<and> r \<le> 122) \<or> (65 \<le> r \<and> r \<le> 90) \<or> (48 \<le> r \<and> r \<le> 57) \<or> r = 45 \<or> r = 95)
         (runes (drop (length ''proof-'') ref))"

definition key_endpoint :: "bytes \<Rightarrow> string \<Rightarrow> 's cache \<Rightarrow> metadata_response" where
  "key_endpoint pk kid proofs = json_response (key_json pk kid (cache_proof_ref proofs))"

definition proof_response :: "(go_error, proof_bundle) result \<Rightarrow> metadata_response" where
  "proof_response res =
     (case res of
        Inr b \<Rightarrow> json_response (bundle_json b)
      | Inl e \<Rightarrow>
          (if is_error ErrProofNotFound e then http_error ''attestation proof was not found'' 404
           else if is_error ErrProofOwnerUnavailable e
           then http_error ''attestation proof owner is unavailable'' 410
           else http_error ''confidential attestation is unavailable'' 503))"

text \<open>
  Where the proof comes from.  Without a configured database there is no router, and the store of
  the cache is nil.
\<close>

definition obtain_proof ::
  "db cache \<Rightarrow> router option \<Rightarrow> provider \<Rightarrow> db \<Rightarrow> string \<Rightarrow> string \<Rightarrow> (db \<Rightarrow> db) list \<Rightarrow> bool
     \<Rightarrow> db \<times> (go_error, proof_bundle) result" where
  "obtain_proof proofs proof_router prov s ref ch ticks cancelled =
     (if ref = [] \<or> ref = cache_proof_ref proofs then issue proofs s prov (db_clock s) ch
      else (case proof_router of
         Some r \<Rightarrow> resolve r prov s ref ch ticks cancelled
       | None \<Rightarrow> find_proof proofs s ref ch))"

definition attestation_endpoint ::
  "db cache \<Rightarrow> router option \<Rightarrow> provider \<Rightarrow> db \<Rightarrow> string \<Rightarrow> (db \<Rightarrow> db) list \<Rightarrow> bool
     \<Rightarrow> db \<times> metadata_response" where
  "attestation_endpoint proofs proof_router prov s raw_query ticks cancelled =
     (let ref = query_get raw_query ''proof_ref''; ch = query_get raw_query ''nonce'' in
      if validate_challenge ch \<noteq> Inr ()
      then (s, http_error ''nonce must be 10-74 URL-safe ASCII characters'' 400)
      else if ref \<noteq> [] \<and> \<not> valid_proof_reference ref
      then (s, http_error ''proof_ref is malformed'' 400)
      else (case obtain_proof proofs proof_router prov s ref ch ticks cancelled of
        (s', res) \<Rightarrow> (s', proof_response res)))"

text \<open>
  The patterns of the mux, for a path in canonical form; \<open>GET\<close> serves \<open>HEAD\<close> as well.
\<close>

datatype route = KeyRoute | AttestationRoute | MethodNotAllowed | NoRoute

definition metadata_route :: "string \<Rightarrow> string \<Rightarrow> route" where
  "metadata_route verb path =
     (if path = ''/.well-known/http-attestation-key'' then
        (if verb = ''GET'' \<or> verb = ''HEAD'' then KeyRoute else MethodNotAllowed)
      else if path = ''/.well-known/confidential-attestation'' then
        (if verb = ''GET'' \<or> verb = ''HEAD'' then AttestationRoute else MethodNotAllowed)
      else NoRoute)"

end
