(* ===== verification/TapMain.thy ===== *)
theory TapMain
  imports Startup Metadata Proxy
begin

section \<open>The program (cmd/tap/main.go, main)\<close>

text \<open>
  \<open>main\<close> from its flags to the running server, and from the end of its context to the end of the
  process.  What the environment answers is the record \<open>world\<close>; a failing step ends the process with
  \<open>log.Fatal\<close>, which is a value of \<open>fatal\<close>.
\<close>

record main_flags =
  flag_listen :: string
  flag_ca_cert :: string
  flag_ca_key :: string
  flag_generate_ca :: bool
  flag_max_json_bytes :: int
  flag_attestation_socket :: string
  flag_attestation_audience :: string

definition default_flags :: main_flags where
  "default_flags =
     \<lparr>flag_listen = '':8080'', flag_ca_cert = ''mitm-ca.pem'', flag_ca_key = ''mitm-ca-key.pem'',
      flag_generate_ca = False, flag_max_json_bytes = DefaultMaxJSONBytes,
      flag_attestation_socket = DefaultSocketPath, flag_attestation_audience = ''tap/customer/v1''\<rparr>"

text \<open>
  The files of the rules, the iteration orders, the certificate library, the random sources, the
  launcher, the environment, the secret client, the driver, the host name and the time.
\<close>

record ('k, 'h) world =
  world_opened :: opener
  world_order1 :: "rules \<Rightarrow> rules"
  world_order2 :: "rules \<Rightarrow> rules"
  world_x509 :: "'k x509"
  world_ca_source :: "'k ca_source"
  world_key_pair :: "(go_error, bytes \<times> bytes) result"
  world_random :: "(go_error, bytes) result"
  world_launcher :: launcher
  world_env :: environ
  world_secrets :: secret_client
  world_driver :: "'h pg_driver"
  world_hostname :: "(go_error, string) result"
  world_now :: int

datatype fatal =
    FatalConfig config_error
  | FatalMaxJSON
  | FatalCA go_error
  | FatalIdentity go_error
  | FatalStore go_error
  | FatalCache go_error
  | FatalHostname
  | FatalRouter go_error
  | FatalStart go_error

record 'k server =
  srv_listen :: string
  srv_ca :: "'k certificate"
  srv_identity :: signing_identity
  srv_config :: config
  srv_proofs :: "db cache"
  srv_router :: "router option"
  srv_rules_path :: string

definition load_main_ca ::
  "main_flags \<Rightarrow> ('k, 'h) world \<Rightarrow> disk \<Rightarrow> disk \<times> (go_error, 'k certificate) result" where
  "load_main_ca fl w d =
     (if flag_generate_ca fl
      then load_or_create_ca (world_x509 w) (world_ca_source w) (world_now w) d (flag_ca_cert fl) (flag_ca_key fl)
      else (d, load_ca (world_x509 w) d (flag_ca_cert fl) (flag_ca_key fl)))"

definition main_provider :: "main_flags \<Rightarrow> ('k, 'h) world \<Rightarrow> provider" where
  "main_provider fl w =
     client_token (new_token_client (flag_attestation_socket fl) (flag_attestation_audience fl)) (world_launcher w)"

text \<open>The router of a configured database, registered; \<open>None\<close> without one.\<close>

definition start_main_router ::
  "('k, 'h) world \<Rightarrow> bool \<Rightarrow> db cache \<Rightarrow> db \<Rightarrow> db \<times> (fatal, router option) result" where
  "start_main_router w configured proofs s =
     (if \<not> configured then (s, Inr None)
      else (case world_hostname w of
         Inl _ \<Rightarrow> (s, Inl FatalHostname)
       | Inr name \<Rightarrow>
           (if trim_space name = [] then (s, Inl FatalHostname)
            else (case new_router (Some proofs) True name default_router_options of
               Inl e \<Rightarrow> (s, Inl (FatalRouter e))
             | Inr r \<Rightarrow>
                 (case start_router r s of
                    (s', Inl e) \<Rightarrow> (s', Inl (FatalStart e))
                  | (s', Inr _) \<Rightarrow> (s', Inr (Some r)))))))"

text \<open>
  The part of \<open>main\<close> from the identity on.
\<close>

definition start_services ::
  "('r) runtime_scheme \<Rightarrow> main_flags \<Rightarrow> ('k, 'h) world \<Rightarrow> compiled_rules \<Rightarrow> string \<Rightarrow> 'k certificate
     \<Rightarrow> signing_identity \<Rightarrow> db \<Rightarrow> db \<times> (fatal, 'k server) result" where
  "start_services rt fl w compiled rules_path ca i s =
     (case open_postgres_proof_store (world_env w) (world_secrets w) (world_driver w) of
        (_, _, Inl e) \<Rightarrow> (s, Inl (FatalStore e))
      | (configured, _, Inr _) \<Rightarrow>
          (case new_cache rt (Some (flag_attestation_audience fl)) (identity_public_key i) (identity_key_id i)
                  (if configured then [Some pg_store] else []) of
             Inl e \<Rightarrow> (s, Inl (FatalCache e))
           | Inr proofs \<Rightarrow>
               (case start_main_router w configured proofs s of
                  (s', Inl e) \<Rightarrow> (s', Inl e)
                | (s', Inr proof_router) \<Rightarrow>
                    (s', Inr \<lparr>srv_listen = flag_listen fl, srv_ca = ca, srv_identity = i,
                       srv_config = new_config
                         \<lparr>cfg_signer = identity_signer i, cfg_rules = Some compiled,
                          max_json_bytes = flag_max_json_bytes fl, proof_reference = cache_proof_ref proofs\<rparr>,
                       srv_proofs = proofs, srv_router = proof_router, srv_rules_path = rules_path\<rparr>))))"

definition main_start ::
  "('r) runtime_scheme \<Rightarrow> main_flags \<Rightarrow> ('k, 'h) world \<Rightarrow> disk \<Rightarrow> db
     \<Rightarrow> disk \<times> db \<times> (fatal, 'k server) result" where
  "main_start rt fl w d s =
     (case load_proxy_config_with_fallback rt (world_order1 w) (world_order2 w) (world_opened w)
             relativeSigningRulesPath fixedSigningRulesPath of
        Inl e \<Rightarrow> (d, s, Inl (FatalConfig e))
      | Inr (compiled, rules_path) \<Rightarrow>
          (if flag_max_json_bytes fl \<le> 0 then (d, s, Inl FatalMaxJSON)
           else (case load_main_ca fl w d of
              (d', Inl e) \<Rightarrow> (d', s, Inl (FatalCA e))
            | (d', Inr ca) \<Rightarrow>
                (case bootstrap_signing_identity rt (world_key_pair w) (Some (flag_attestation_audience fl))
                        (main_provider fl w) (world_now w) (world_random w) of
                   (_, Inl e) \<Rightarrow> (d', s, Inl (FatalIdentity e))
                 | (_, Inr i) \<Rightarrow>
                     (case start_services rt fl w compiled rules_path ca i s of
                        (s', res) \<Rightarrow> (d', s', res))))))"

text \<open>
  The end: the replica is marked draining, the server is shut down (by \<open>net/http\<close>), and the key is
  destroyed when \<open>main\<close> returns.
\<close>

definition main_shutdown :: "'k server \<Rightarrow> db \<Rightarrow> db \<times> signing_identity" where
  "main_shutdown srv s =
     (case srv_router srv of None \<Rightarrow> s | Some r \<Rightarrow> fst (drain_router r s),
      destroy_identity (srv_identity srv))"

end
