(* ===== verification/StartupProps.thy ===== *)
theory StartupProps
  imports Startup RouterProps StoreConfig
begin

section \<open>What holds after starting up\<close>

text \<open>
  What loaded rules promise about every request path, which of the two rules files is used, that no
  signing key is in use that was not attested, and which settings of the database exclude each other.
\<close>

subsection \<open>The rules\<close>

lemma decode_known_members_invariant:
  assumes "decode_known_members names store ms r = Inr r'" and "P r"
    and "\<And>f raw v r r'. store f raw v r = Inr r' \<Longrightarrow> P r \<Longrightarrow> P r'"
  shows "P r'"
  using assms(1,2)
proof (induction ms arbitrary: r)
  case (Cons m ms)
  obtain k raw v where m: "m = (k, raw, v)" by (cases m)
  with Cons.prems(1) obtain f r1 where "store f raw v r = Inr r1" "decode_known_members names store ms r1 = Inr r'"
    by (auto simp: and_then_Inr_iff split: option.splits)
  then show ?case using Cons.IH assms(3) Cons.prems(2) by blast
qed simp

lemma decode_rule_members_distinct:
  "decode_rule_members ms m = Inr m' \<Longrightarrow> distinct (map fst m) \<Longrightarrow> distinct (map fst m')"
  by (induction ms m rule: decode_rule_members.induct) (auto simp: and_then_Inr_iff distinct_update)

lemma decode_rules_distinct:
  "decode_rules v m = Inr m' \<Longrightarrow> distinct (map fst m) \<Longrightarrow> distinct (map fst m')"
  by (auto simp: decode_rules_def decode_rule_members_distinct split: json.splits)

lemma decode_config_distinct: "decode_config v = Inr cfg \<Longrightarrow> distinct (map fst cfg)"
  by (auto simp: decode_config_def decode_known_struct_def split: json.splits
      dest: decode_rules_distinct elim!: decode_known_members_invariant)

lemma ensure_json_eof_ok: "ensure_json_eof rest broken = Inr () \<longleftrightarrow> skip_ws rest = [] \<and> \<not> broken"
  by (auto simp: ensure_json_eof_def split: option.splits json.splits prod.splits list.splits)

lemma load_proxy_config_Inr:
  "load_proxy_config rt order1 order2 opened path = Inr c \<longleftrightarrow>
     (\<exists>data v cfg. opened path = Inr (data, False) \<and> json_parse data = Some v
        \<and> decode_config v = Inr cfg \<and> cfg \<noteq> [] \<and> compile_path_rules (order1 cfg) = Inr c
        \<and> find (\<lambda>(_, r). \<not> is_supported_extractor rt (extractor r)) (order2 cfg) = None)"
  (is "?l \<longleftrightarrow> ?r")
proof
  assume ?l
  then obtain data broken v rest cfg where s: "opened path = Inr (data, broken)"
    "json_decode data = Some (v, rest)" "decode_config v = Inr cfg" "ensure_json_eof rest broken = Inr ()"
    "cfg \<noteq> []" "compile_path_rules (order1 cfg) = Inr c"
    "find (\<lambda>(_, r). \<not> is_supported_extractor rt (extractor r)) (order2 cfg) = None"
    by (auto simp: load_proxy_config_def and_then_Inr_iff require_Inr_iff
        split: sum.splits prod.splits option.splits)
  then have "json_parse data = Some v" by (simp add: json_parse_def ensure_json_eof_ok)
  with s show ?r by (auto simp: ensure_json_eof_ok)
next
  assume ?r
  then obtain data v cfg where s: "opened path = Inr (data, False)" "json_parse data = Some v"
    "decode_config v = Inr cfg" "cfg \<noteq> []" "compile_path_rules (order1 cfg) = Inr c"
    "find (\<lambda>(_, r). \<not> is_supported_extractor rt (extractor r)) (order2 cfg) = None" by blast
  then obtain rest where "json_decode data = Some (v, rest)" "skip_ws rest = []"
    by (auto simp: json_parse_def split: option.splits if_splits)
  with s ensure_json_eof_ok[of rest False] show ?l by (simp add: load_proxy_config_def)
qed

text \<open>
  C28: What loaded rules promise.  When \<open>loadProxyConfig\<close> succeeds, the file was read to its end and
  is one JSON value with a non-empty \<open>paths\<close>; and for every request path the compiled rules give a
  rule exactly when a configured pattern covers the path, always one of a pattern that covers it, and
  always one whose extractor exists, so that no matched request goes unsigned for lack of one.  This
  does not depend on the orders in which Go iterates over the map.\<close>

theorem loaded_rules_sound:
  assumes "load_proxy_config rt order1 order2 opened file = Inr c"
    and "\<And>xs. mset (order1 xs) = mset xs" and "\<And>xs. mset (order2 xs) = mset xs"
    and "path \<noteq> []" and "hd path = CHR ''/''"
  shows "\<exists>data v cfg. opened file = Inr (data, False) \<and> json_parse data = Some v
    \<and> decode_config v = Inr cfg \<and> cfg \<noteq> [] \<and> rules_len (Some c) = length cfg
    \<and> (case match_path (Some c) path of
         None \<Rightarrow> \<forall>pr \<in> set cfg. \<not> pattern_covers (fst pr) path
       | Some r \<Rightarrow> (\<exists>pat. (pat, r) \<in> set cfg \<and> pattern_covers pat path)
           \<and> lookup_text_extractor rt (extractor r) \<noteq> None)"
proof -
  from assms(1) obtain data v cfg where s: "opened file = Inr (data, False)" "json_parse data = Some v"
    "decode_config v = Inr cfg" "cfg \<noteq> []" "compile_path_rules (order1 cfg) = Inr c"
    and f: "find (\<lambda>(_, r). \<not> is_supported_extractor rt (extractor r)) (order2 cfg) = None"
    by (auto simp: load_proxy_config_Inr)
  have sets: "set (order1 cfg) = set cfg" "set (order2 cfg) = set cfg"
    using assms(2,3) by (metis set_mset_mset)+
  have "distinct (map fst cfg)" using s(3) by (rule decode_config_distinct)
  then have dist: "distinct (map fst (order1 cfg))"
    using assms(2)[of cfg] mset_eq_imp_distinct_iff[of "map fst (order1 cfg)" "map fst cfg"] by simp
  note covers = match_covers[OF dist s(5) assms(4,5)]
  have supported: "lookup_text_extractor rt (extractor r) \<noteq> None" if "(pat, r) \<in> set cfg" for pat r
    using f that sets(2) by (auto simp: find_None_iff is_supported_extractor_def)
  have "rules_len (Some c) = length cfg"
    using s(5) mset_eq_length[OF assms(2)[of cfg]] by (auto simp: rules_len_def compile_path_rules_eq)
  moreover have "case match_path (Some c) path of
         None \<Rightarrow> \<forall>pr \<in> set cfg. \<not> pattern_covers (fst pr) path
       | Some r \<Rightarrow> (\<exists>pat. (pat, r) \<in> set cfg \<and> pattern_covers pat path)
           \<and> lookup_text_extractor rt (extractor r) \<noteq> None"
  proof (cases "match_path (Some c) path")
    case None
    then show ?thesis using covers sets(1) by auto
  next
    case (Some r)
    then obtain pat where "(pat, r) \<in> set cfg" "pattern_covers pat path" using covers[of r] sets(1) by auto
    with Some supported show ?thesis by auto
  qed
  ultimately show ?thesis using s by blast
qed

text \<open>
  The fixed rules are a fallback for an absent file only.  Loading succeeds exactly when the
  relative file is good, or it does not exist and the fixed one is good; a relative file that exists
  with any defect is an error, and the fixed file is not looked at.\<close>

theorem rules_fallback:
  "load_proxy_config_with_fallback rt order1 order2 opened relative_path fixed_path = Inr (c, chosen) \<longleftrightarrow>
     load_proxy_config rt order1 order2 opened relative_path = Inr c \<and> chosen = relative_path
     \<or> opened relative_path = Inl FileNotExist \<and> chosen = fixed_path
       \<and> load_proxy_config rt order1 order2 opened fixed_path = Inr c"
proof -
  have "load_proxy_config rt order1 order2 opened relative_path = Inl (OpenError FileNotExist)
      \<longleftrightarrow> opened relative_path = Inl FileNotExist"
    by (auto simp: load_proxy_config_def and_then_Inl_iff require_def ensure_json_eof_def
        split: sum.splits prod.splits option.splits if_splits json.splits list.splits)
  then show ?thesis
    by (cases "load_proxy_config rt order1 order2 opened relative_path")
      (auto simp: load_proxy_config_with_fallback_def split: sum.splits)
qed

subsection \<open>The signing key\<close>

lemma new_cache_no_store:
  "new_cache rt aud pk kid [] = Inr c \<longleftrightarrow> aud \<noteq> None \<and> length pk = 32
     \<and> c = \<lparr>cache_audience = the aud, cache_public_key = pk,
            cache_key_id = (if kid = [] then public_key_id rt pk else kid),
            cache_proof_ref = proof_reference_of rt pk, cache_binding = bind_nonce rt pk,
            cache_store = None\<rparr>"
  by (auto simp: new_cache_def require_Inr_iff Let_def split: option.splits)

text \<open>
  C15: No key without attestation.  \<open>bootstrapSigningIdentity\<close> succeeds only when the provider has
  answered a random startup challenge together with the hash that binds the generated public key by a
  token with three parts that has not expired; the identity is then the generated pair and its key
  label.  On every failure after generation the array of the private key holds only zeros.\<close>

theorem bootstrap_attested:
  "(case bootstrap_signing_identity rt generated aud prov now random of
      (memory, Inl e) \<Rightarrow> list_all (\<lambda>b. b = CHR 0x00) memory
    | (memory, Inr i) \<Rightarrow>
        generated = Inr (identity_public_key i, key_memory i) \<and> memory = key_memory i
        \<and> identity_key_id i = public_key_id rt (identity_public_key i)
        \<and> length (identity_public_key i) = 32
        \<and> (\<exists>r token t. random = Inr r
             \<and> prov [''startup_'' @ b64_encode r, bind_nonce rt (identity_public_key i)] = Inr token
             \<and> token_expiry token = Inr t \<and> now < t))"
proof (cases generated)
  case (Inl e)
  then show ?thesis by (simp add: bootstrap_signing_identity_def)
next
  case (Inr pair)
  obtain pk sk where g: "generated = Inr (pk, sk)" using Inr by (cases pair) auto
  show ?thesis
  proof (cases "new_cache rt aud pk (public_key_id rt pk) [] :: (go_error, unit cache) result")
    case (Inl e)
    then show ?thesis using g by (simp add: bootstrap_signing_identity_def cleared_def list_all_iff)
  next
    case c: (Inr c)
    show ?thesis
    proof (cases "preflight c prov now random")
      case (Inl e)
      then show ?thesis using g c by (simp add: bootstrap_signing_identity_def cleared_def list_all_iff)
    next
      case (Inr u)
      have "\<exists>r token t. random = Inr r
             \<and> prov [''startup_'' @ b64_encode r, bind_nonce rt pk] = Inr token
             \<and> token_expiry token = Inr t \<and> now < t"
        using Inr c
        by (auto simp: preflight_def request_token_def and_then_Inr_iff require_Inr_iff new_cache_no_store)
      moreover have "bootstrap_signing_identity rt generated aud prov now random =
          (sk, Inr \<lparr>key_memory = sk, identity_public_key = pk, identity_key_id = public_key_id rt pk\<rparr>)"
        using g c Inr by (simp add: bootstrap_signing_identity_def)
      moreover have "length pk = 32" using c by (simp add: new_cache_no_store)
      ultimately show ?thesis using g by simp
    qed
  qed
qed

text \<open>
  A secret excludes the variables.  With a secret version configured, any of the variables that
  name the database directly, even one that is blank, is an error before the service is asked; a
  failing read of the secret is an error; otherwise the connection opened is the one of the secret.
  A store is then always configured, so that the program never falls back to running without one.\<close>

theorem secret_excludes_variables:
  assumes "trim_space (env postgresDSNSecretVersionEnv) \<noteq> []"
  shows "case open_postgres_proof_store env client drv of (configured, closed, res) \<Rightarrow>
     configured
     \<and> (\<forall>h. res = Inr (Some h) \<longrightarrow>
          list_all (\<lambda>name. env name = []) direct_environment
          \<and> (\<exists>dsn. access_fixed_version client (trim_space (env postgresDSNSecretVersionEnv)) = Inr dsn
               \<and> trim_space dsn \<noteq> [] \<and> drv_open drv dsn = Inr h \<and> drv_ping drv h = Inr ()
               \<and> drv_migrate drv h = Inr ()))
     \<and> res \<noteq> Inr None"
proof (cases "find (\<lambda>name. env name \<noteq> []) direct_environment")
  case (Some name)
  then show ?thesis using assms by (simp add: open_postgres_proof_store_def Let_def)
next
  case None
  then have free: "list_all (\<lambda>name. env name = []) direct_environment"
    by (simp add: find_None_iff list_all_iff)
  show ?thesis
  proof (cases "access_fixed_version client (trim_space (env postgresDSNSecretVersionEnv))")
    case (Inl e)
    then show ?thesis using assms None by (simp add: open_postgres_proof_store_def Let_def)
  next
    case (Inr dsn)
    then have "open_postgres_proof_store env client drv = open_postgres drv (postgres_dsn_from_secret dsn)"
      using assms None by (simp add: open_postgres_proof_store_def Let_def)
    then show ?thesis using Inr free
      by (auto simp: open_postgres_def postgres_dsn_from_secret_def split: sum.splits)
  qed
qed

end
