(* ===== verification/MetadataProps.thy ===== *)
theory MetadataProps
  imports Metadata StartupProps ProxyProps ClusterSamples
begin

section \<open>What the metadata endpoints answer\<close>

text \<open>
  A 200 body is the JSON text of a bundle the database holds, and reads back to it; the other
  statuses tell the failures apart.
\<close>

subsection \<open>Responses\<close>

lemma http_error_status [simp]: "resp_status (http_error msg code) = code"
  by (simp add: http_error_def)

lemma json_response_status [simp]: "resp_status (json_response v) = 200"
  by (simp add: json_response_def)

lemma proof_response_status:
  "resp_status (proof_response res) =
     (case res of
        Inr _ \<Rightarrow> 200
      | Inl e \<Rightarrow> if is_error ErrProofNotFound e then 404
                 else if is_error ErrProofOwnerUnavailable e then 410 else 503)"
  by (simp add: proof_response_def split: sum.split)

lemma proof_response_ok: "resp_status (proof_response res) = 200 \<longleftrightarrow> is_ok res"
  by (simp add: proof_response_status split: sum.split)

lemma bundle_json_compact: "compact 0 (bundle_json b)"
  by (simp add: bundle_json_def max_nesting_def)

definition bundle_utf8 :: "proof_bundle \<Rightarrow> bool" where
  "bundle_utf8 b \<longleftrightarrow> list_all valid_utf8
     [token_type b, attestation_token b, audience b, bundle_key_id b, challenge_nonce b, proof_ref b,
      key_algorithm b, public_key b, binding_nonce b]"

text \<open>What a client decodes.\<close>

definition bundle_value :: "proof_bundle \<Rightarrow> any_value" where
  "bundle_value b =
     VObject [(''token_type'', VString (token_type b)), (''attestation_token'', VString (attestation_token b)),
       (''audience'', VString (audience b)), (''key_id'', VString (bundle_key_id b)),
       (''challenge_nonce'', VString (challenge_nonce b)), (''proof_ref'', VString (proof_ref b)),
       (''expires_at'', VNumber (format_int (expires_at b))),
       (''attestation_key'', VObject [(''algorithm'', VString (key_algorithm b)),
          (''public_key'', VString (public_key b)), (''binding_nonce'', VString (binding_nonce b))])]"

lemma bundle_names_utf8:
  "list_all valid_utf8 [''token_type'', ''attestation_token'', ''audience'', ''key_id'', ''challenge_nonce'',
     ''proof_ref'', ''expires_at'', ''attestation_key'', ''algorithm'', ''public_key'', ''binding_nonce'']"
  by (simp add: valid_utf8_ascii byte_def)

lemma bundle_json_decodes: "bundle_utf8 b \<Longrightarrow> decode_any (bundle_json b) = bundle_value b"
  using bundle_names_utf8 by (simp add: bundle_json_def bundle_value_def bundle_utf8_def decode_written)

lemma served_bundle_text:
  "bundle_utf8 b \<Longrightarrow>
     map_option decode_any (json_parse (resp_body (json_response (bundle_json b)))) = Some (bundle_value b)"
  using json_parse_render_space[OF bundle_json_compact, of "[CHR 10]" b]
  by (simp add: json_response_def skip_ws_def json_ws_def bundle_json_decodes)

lemma db_content_key: "db_content s k = Some b \<Longrightarrow> bundle_key b = k"
  by (auto simp: db_content_def lookup_row_def bundle_key_def bundle_of_record_def proof_key_def
      find_Some_iff)

lemma obtain_proof_stored:
  assumes "cache_store proofs = Some pg_store" and "map_option router_cache proof_router \<in> {None, Some proofs}"
    and "obtain_proof proofs proof_router prov s ref ch ticks cancelled = (s', Inr b)"
  shows "db_content s' (if ref = [] then cache_proof_ref proofs else ref, ch) = Some b"
proof (cases "ref = [] \<or> ref = cache_proof_ref proofs")
  case True
  then have "issue proofs s prov (db_clock s) ch = (s', Inr b)" using assms(3) by (simp add: obtain_proof_def)
  with True pg.issue_answer[OF assms(1), of s prov "db_clock s" ch b] show ?thesis by auto
next
  case False
  show ?thesis
  proof (cases proof_router)
    case None
    with False assms have "pg_find s ref ch = (s', Inr b)"
      by (auto simp: obtain_proof_def find_proof_def pg_store_def split: if_splits)
    with False pg_find_answer[of s ref ch b] show ?thesis by simp
  next
    case (Some r)
    with False assms have "resolve r prov s ref ch ticks cancelled = (s', Inr b)"
      "cache_store (router_cache r) = Some pg_store"
      by (auto simp: obtain_proof_def)
    with False resolve_stored show ?thesis by simp
  qed
qed

lemma endpoint_cases:
  assumes "attestation_endpoint proofs proof_router prov s raw ticks cancelled = (s', resp)"
  obtains (nonce) "validate_challenge (query_get raw ''nonce'') \<noteq> Inr ()" "s' = s" "resp_status resp = 400"
  | (reference) "validate_challenge (query_get raw ''nonce'') = Inr ()" "query_get raw ''proof_ref'' \<noteq> []"
      "\<not> valid_proof_reference (query_get raw ''proof_ref'')" "s' = s" "resp_status resp = 400"
  | (answer) res where "validate_challenge (query_get raw ''nonce'') = Inr ()"
      "query_get raw ''proof_ref'' = [] \<or> valid_proof_reference (query_get raw ''proof_ref'')"
      "obtain_proof proofs proof_router prov s (query_get raw ''proof_ref'') (query_get raw ''nonce'') ticks
         cancelled = (s', res)"
      "resp = proof_response res"
  using assms by (auto simp: attestation_endpoint_def Let_def split: if_splits prod.splits)

text \<open>
  C8: What a client is given.  When the attestation endpoint of a replica with a store, whose text
  columns hold UTF-8, answers 200,
  then the nonce of the query is a valid challenge, and the body, read as JSON, is exactly the bundle
  the database holds at that moment for the requested reference (this replica's own when none was
  given) and this challenge; the bundle names both itself, and no shared cache may keep it.\<close>

theorem served_bundle:
  assumes "cache_store proofs = Some pg_store" and "map_option router_cache proof_router \<in> {None, Some proofs}"
    and "attestation_endpoint proofs proof_router prov s raw ticks cancelled = (s', resp)"
    and "resp_status resp = 200"
    and "\<And>k b. db_content s' k = Some b \<Longrightarrow> bundle_utf8 b"
  shows "\<exists>b. db_content s' (if query_get raw ''proof_ref'' = [] then cache_proof_ref proofs
          else query_get raw ''proof_ref'', query_get raw ''nonce'') = Some b
     \<and> map_option decode_any (json_parse (resp_body resp)) = Some (bundle_value b)
     \<and> challenge_nonce b = query_get raw ''nonce'' \<and> validate_challenge (challenge_nonce b) = Inr ()
     \<and> proof_ref b \<in> {cache_proof_ref proofs, query_get raw ''proof_ref''}
     \<and> resp_cache_control resp = ''no-store''"
  using assms(3)
proof (cases rule: endpoint_cases)
  case (answer res)
  obtain b where b: "res = Inr b" using answer(4) assms(4) by (auto simp: proof_response_ok is_ok_iff)
  note content = obtain_proof_stored[OF assms(1,2) answer(3)[unfolded b]]
  have resp: "resp = json_response (bundle_json b)" using answer(4) by (simp add: proof_response_def b)
  have "bundle_key b = (if query_get raw ''proof_ref'' = [] then cache_proof_ref proofs
          else query_get raw ''proof_ref'', query_get raw ''nonce'')"
    using content by (rule db_content_key)
  then show ?thesis
    using content answer(1) served_bundle_text[OF assms(5)[OF content]]
    by (auto simp: resp json_response_def bundle_key_def split: if_splits)
qed (use assms(4) in simp_all)

lemma dead_owner:
  "\<not> owner_live r s row \<Longrightarrow>
     ask_owner r (replica_of row) s ref ch ticks cancelled = (s, Inl ErrProofOwnerUnavailable)"
  by (auto simp: ask_owner_def owner_live_def replica_of_def not_le)


end
