(* ===== verification/EndToEnd.thy ===== *)
theory EndToEnd
  imports MetadataProps
begin

section \<open>From a response to an attested key\<close>

text \<open>
  The components together, wired as \<open>main\<close> wires them: the signing key that was attested at startup
  signs the responses, the proof cache is made from the same key, and the reference in a response
  leads a client to the attestation endpoint.
\<close>

lemma bootstrap_Inr:
  assumes "bootstrap_signing_identity rt generated aud prov now random = (memory, Inr i)"
  shows "generated = Inr (identity_public_key i, key_memory i)"
    and "identity_key_id i = public_key_id rt (identity_public_key i)"
  using assms by (auto simp: bootstrap_signing_identity_def split: sum.splits)

lemma bootstrap_length:
  assumes "bootstrap_signing_identity rt generated aud prov now random = (memory, Inr i)"
  shows "length (identity_public_key i) = 32"
proof -
  obtain sk where g: "generated = Inr (identity_public_key i, sk)" using bootstrap_Inr(1)[OF assms] by blast
  obtain c :: "unit cache" where "new_cache rt aud (identity_public_key i)
      (public_key_id rt (identity_public_key i)) [] = Inr c"
    using assms g by (auto simp: bootstrap_signing_identity_def split: sum.splits)
  then show ?thesis by (simp add: new_cache_def require_Inr_iff split: option.splits)
qed

text \<open>
  C2: The chain of trust.  A replica starts with an attested key and a store; it proxies an exchange
  and signs the JSON response; the client asks it for the proof that the response refers to, with a
  challenge that is new to the store, and is answered 200.  Then the body holds a bundle whose token
  is the platform's own answer to this challenge and to the hash that binds the bundle's public key;
  and that public key verifies the response for the requested host and path, the fingerprint of the
  verified leaf certificate, and the fields extracted from the bodies that the upstream was sent and
  the client received.\<close>

theorem attested_exchange:
  assumes boot: "bootstrap_signing_identity rt generated (Some aud) prov0 t1 random1 = (memory, Inr i)"
    and cache: "new_cache rt (Some aud) (identity_public_key i) (identity_key_id i) [Some pg_store] = Inr proofs"
    and wiring: "cfg_signer cfg = identity_signer i" "proof_reference cfg = cache_proof_ref proofs"
      "limit_ok (max_json_bytes cfg)"
    and exchange: "on_request rt cfg rq = (rq', Some st)"
      "on_response rt cfg t0 random (Some st) (Some r) = Some r'"
      "header_get (rp_header r') HeaderProfile = Profile"
    and proof_fetch: "attestation_endpoint proofs proof_router prov s raw ticks cancelled = (s', resp)"
      "resp_status resp = 200"
      "query_get raw ''proof_ref'' = header_get (rp_header r') HeaderProofReference"
      "db_content s (cache_proof_ref proofs, query_get raw ''nonce'') = None"
    and scheme: "generated = Inr (pk0, sk0)" "\<And>m. ed_verify rt pk0 m (ed_sign rt sk0 m)"
    and host: "host_name (url_host (rq_url rq)) \<noteq> []" "is_ascii (host_name (url_host (rq_url rq)))"
    and times: "- 30 * second \<le> now - unix_seconds t0 * second"
      "now - unix_seconds t0 * second \<le> max_age" "max_age \<le> int64_max"
  shows "\<exists>b pk. resp = json_response (bundle_json b) \<and> b64_decode (public_key b) = Some pk
     \<and> challenge_nonce b = query_get raw ''nonce'' \<and> proof_ref b = header_get (rp_header r') HeaderProofReference
     \<and> prov [challenge_nonce b, bind_nonce rt pk] = Inr (attestation_token b)
     \<and> binding_nonce b = bind_nonce rt pk
     \<and> (\<exists>ru ex sent leaf received fs gs.
          match_path (cfg_rules cfg) (url_path (rq_url rq)) = Some ru
          \<and> lookup_text_extractor rt (extractor ru) = Some ex
          \<and> rq_body rq' = Some sent \<and> extract_request ex (pending sent) (url_path (rq_url rq)) = Inr fs
          \<and> verified_leaf (rp_tls r) = Some leaf
          \<and> rp_body r' = Some received \<and> \<not> fails received
          \<and> extract_response ex (pending received) = Inr gs
          \<and> verify rt pk (rp_header r') (to_lower rt (host_name (url_host (rq_url rq))))
              (hex_encode (sha256 rt leaf)) (url_path (rq_url rq)) fs gs now max_age = Inr ())"
proof -
  let ?pk = "identity_public_key i"
  have ref: "cache_proof_ref proofs = proof_reference_of rt ?pk" and st: "cache_store proofs = Some pg_store"
    using new_cache_Inr[OF cache] by auto
  then have named: "proof_reference cfg \<noteq> []" by (simp add: wiring(2) proof_reference_of_def)
  have carried: "header_get (rp_header r') HeaderProofReference = cache_proof_ref proofs"
    using json_exchange_reference[OF wiring(3) named exchange(2,3)] wiring(2) by simp
  from proof_fetch(1) obtain b where b: "resp = json_response (bundle_json b)"
    and issued: "issue proofs s prov (db_clock s) (query_get raw ''nonce'') = (s', Inr b)"
  proof (cases rule: endpoint_cases)
    case (answer res)
    then obtain b where "res = Inr b" using proof_fetch(2) by (auto simp: proof_response_ok is_ok_iff)
    with answer that[of b] show ?thesis
      using proof_fetch(3) carried by (simp add: obtain_proof_def proof_response_def)
  qed (use proof_fetch(2) in simp_all)
  note fresh = fresh_bundle[OF cache issued proof_fetch(4)[unfolded ref]]
  have "private_key (cfg_signer cfg) = sk0" "?pk = pk0"
    using bootstrap_Inr(1)[OF boot] scheme(1) by (simp_all add: wiring(1) identity_signer_def)
  then have "ed_verify rt ?pk m (ed_sign rt (private_key (cfg_signer cfg)) m)" for m
    using scheme(2) by simp
  note exchange_ok = json_exchange_verifies[OF wiring(3) exchange this new_cache_Inr(1)[OF cache] host times]
  show ?thesis
    using b fresh exchange_ok carried ref by (intro exI[of _ b] exI[of _ ?pk] conjI) simp_all
qed

end
