(* ===== verification/TapMainProps.thy ===== *)
theory TapMainProps
  imports TapMain EndToEnd
begin

section \<open>What holds of the running program\<close>

text \<open>
  Everything that has been checked and wired when \<open>main\<close> begins to serve, and what the other replicas
  and the private key are like after a shutdown.
\<close>

lemma register_lookup:
  assumes "register_replica s rep = (s', Inr u)"
  shows "\<exists>row. lookup_row rr_ref (replica_table s') (rep_ref rep) = Some row
    \<and> rr_key_id row = rep_key_id rep \<and> rr_instance row = rep_instance rep
    \<and> rr_heartbeat row = rep_heartbeat rep \<and> rr_draining row = rep_draining rep"
proof -
  note run = run_statement_Inr[OF assms[unfolded register_replica_def]]
  show ?thesis
  proof (cases "lookup_row rr_ref (replica_table s) (rep_ref rep)")
    case None
    with run show ?thesis by (auto simp: Let_def lookup_row_append lookup_row_single)
  next
    case (Some row)
    with run lookup_row_Some[OF Some] show ?thesis by (auto simp: Let_def lookup_update_rows)
  qed
qed

lemma start_router_row:
  assumes "start_router r s = (s', Inr u)"
  shows "\<exists>row. lookup_row rr_ref (replica_table s') (router_ref r) = Some row
    \<and> rr_instance row = instance_name r \<and> rr_heartbeat row = db_clock s \<and> \<not> rr_draining row
    \<and> rr_key_id row = cache_key_id (router_cache r)"
proof -
  obtain res where "register_replica s \<lparr>rep_ref = router_ref r, rep_key_id = cache_key_id (router_cache r),
             rep_instance = instance_name r, rep_heartbeat = db_clock s, rep_draining = False\<rparr> = (s', Inr res)"
    using assms by (auto simp: start_router_def split: prod.splits)
  from register_lookup[OF this] show ?thesis by auto
qed

definition router_wired :: "db \<Rightarrow> db \<Rightarrow> db cache \<Rightarrow> router option \<Rightarrow> bool" where
  "router_wired s s' proofs proof_router \<longleftrightarrow>
     (case proof_router of
        None \<Rightarrow> cache_store proofs = None \<and> s' = s
      | Some r \<Rightarrow> router_cache r = proofs \<and> cache_store proofs = Some pg_store
          \<and> (\<exists>row. lookup_row rr_ref (replica_table s') (cache_proof_ref proofs) = Some row
               \<and> rr_instance row = instance_name r \<and> rr_heartbeat row = db_clock s \<and> \<not> rr_draining row))"

lemma start_main_router_wired:
  assumes "start_main_router w configured proofs s = (s', Inr proof_router)"
    and "cache_store proofs = (if configured then Some pg_store else None)"
  shows "router_wired s s' proofs proof_router"
proof (cases configured)
  case False
  with assms show ?thesis by (simp add: start_main_router_def router_wired_def)
next
  case True
  with assms(1) obtain name r u where r: "new_router (Some proofs) True name default_router_options = Inr r"
    and start: "start_router r s = (s', Inr u)" and p: "proof_router = Some r"
    by (auto simp: start_main_router_def split: sum.splits if_splits prod.splits)
  have "router_cache r = proofs" using r by (auto simp: new_router_def require_Inr_iff)
  with start_router_row[OF start] assms(2) True p show ?thesis by (auto simp: router_wired_def)
qed

lemma start_services_Inr:
  assumes "start_services rt fl w compiled rules_path ca i s = (s', Inr srv)"
  obtains proofs configured proof_router where
    "new_cache rt (Some (flag_attestation_audience fl)) (identity_public_key i) (identity_key_id i)
       (if configured then [Some pg_store] else []) = Inr proofs"
    "start_main_router w configured proofs s = (s', Inr proof_router)"
    "srv = \<lparr>srv_listen = flag_listen fl, srv_ca = ca, srv_identity = i,
       srv_config = new_config \<lparr>cfg_signer = identity_signer i, cfg_rules = Some compiled,
          max_json_bytes = flag_max_json_bytes fl, proof_reference = cache_proof_ref proofs\<rparr>,
       srv_proofs = proofs, srv_router = proof_router, srv_rules_path = rules_path\<rparr>"
  using assms by (auto simp: start_services_def split: sum.splits prod.splits)

lemma main_start_Inr:
  assumes "main_start rt fl w d s = (d', s', Inr srv)"
  obtains compiled rules_path ca i memory where
    "load_proxy_config_with_fallback rt (world_order1 w) (world_order2 w) (world_opened w)
       relativeSigningRulesPath fixedSigningRulesPath = Inr (compiled, rules_path)"
    "0 < flag_max_json_bytes fl" "load_main_ca fl w d = (d', Inr ca)"
    "bootstrap_signing_identity rt (world_key_pair w) (Some (flag_attestation_audience fl))
       (main_provider fl w) (world_now w) (world_random w) = (memory, Inr i)"
    "start_services rt fl w compiled rules_path ca i s = (s', Inr srv)"
  using assms by (auto simp: main_start_def not_le split: sum.splits prod.splits if_splits)

lemma parse_ca_can_sign:
  assumes "parse_ca x cert_pem key_pem = Inr cert"
  shows "leaf_is_ca (cert_leaf cert) \<and> bit (leaf_key_usage (cert_leaf cert)) 5"
proof -
  obtain leaf where "leaf_is_ca leaf" "leaf_key_usage leaf AND KeyUsageCertSign \<noteq> 0" "cert_leaf cert = leaf"
    using assms by (auto simp: parse_ca_def and_then_Inr_iff require_Inr_iff split: prod.splits)
  then show ?thesis using cert_sign_bit by blast
qed

lemma load_main_ca_parsed:
  assumes "load_main_ca fl w d = (d', Inr ca)"
  shows "\<exists>cert_pem key_pem. parse_ca (world_x509 w) cert_pem key_pem = Inr ca"
  using assms
  by (auto simp: load_main_ca_def load_ca_def load_or_create_ca_def and_then_Inr_iff Let_def
      split: if_splits sum.splits prod.splits)

lemma bootstrap_asked:
  assumes "bootstrap_signing_identity rt generated aud prov now random = (memory, Inr i)"
  shows "length (identity_public_key i) = 32 \<and> (\<exists>r token t. random = Inr r
     \<and> prov [''startup_'' @ b64_encode r, bind_nonce rt (identity_public_key i)] = Inr token
     \<and> token_expiry token = Inr t \<and> now < t)"
proof -
  obtain pk sk where g: "generated = Inr (pk, sk)" using bootstrap_Inr(1)[OF assms] by blast
  obtain c :: "unit cache" and u where c: "new_cache rt aud pk (public_key_id rt pk) [] = Inr c"
    and p: "preflight c prov now random = Inr u"
    and i: "identity_public_key i = pk"
    using assms g by (auto simp: bootstrap_signing_identity_def split: sum.splits)
  then show ?thesis
    by (auto simp: preflight_def request_token_def and_then_Inr_iff require_Inr_iff new_cache_no_store)
qed

text \<open>
  C7: What a running server rests on.  When \<open>main\<close> reaches the point of serving, the rules in use are
  those of one good file; the limit of inspected bodies is positive; the interception certificate is
  an authority that can sign certificates; the launcher has answered 200 to a startup challenge with
  the hash that binds the public key, by a token that has not expired; the proxy signs with the key
  of this identity and refers to the proof cache of the same public key; and with a configured
  database this replica is registered, alive and not draining, under that reference.\<close>

theorem started_server:
  assumes "main_start rt fl w d s = (d', s', Inr srv)"
  shows "(\<exists>compiled. cfg_rules (srv_config srv) = Some compiled
        \<and> load_proxy_config rt (world_order1 w) (world_order2 w) (world_opened w) (srv_rules_path srv) = Inr compiled
        \<and> srv_rules_path srv \<in> {relativeSigningRulesPath, fixedSigningRulesPath})
     \<and> 0 < max_json_bytes (srv_config srv)
     \<and> leaf_is_ca (cert_leaf (srv_ca srv)) \<and> bit (leaf_key_usage (cert_leaf (srv_ca srv))) 5
     \<and> world_key_pair w = Inr (identity_public_key (srv_identity srv), key_memory (srv_identity srv))
     \<and> (\<exists>r a t. world_random w = Inr r
          \<and> world_launcher w (token_call_of
              (new_token_client (flag_attestation_socket fl) (flag_attestation_audience fl))
              [''startup_'' @ b64_encode r, bind_nonce rt (identity_public_key (srv_identity srv))]) = Inr a
          \<and> answer_code a = 200
          \<and> token_expiry (trim_space (take (2 ^ 20) (pending (answer_body a)))) = Inr t \<and> world_now w < t)
     \<and> cfg_signer (srv_config srv) = identity_signer (srv_identity srv)
     \<and> proof_reference (srv_config srv) = proof_reference_of rt (identity_public_key (srv_identity srv))
     \<and> cache_proof_ref (srv_proofs srv) = proof_reference (srv_config srv)
     \<and> cache_public_key (srv_proofs srv) = identity_public_key (srv_identity srv)
     \<and> router_wired s s' (srv_proofs srv) (srv_router srv)"
proof -
  from assms obtain compiled rules_path ca i memory where
    rules: "load_proxy_config_with_fallback rt (world_order1 w) (world_order2 w) (world_opened w)
       relativeSigningRulesPath fixedSigningRulesPath = Inr (compiled, rules_path)"
    and limit: "0 < flag_max_json_bytes fl" and ca: "load_main_ca fl w d = (d', Inr ca)"
    and boot: "bootstrap_signing_identity rt (world_key_pair w) (Some (flag_attestation_audience fl))
       (main_provider fl w) (world_now w) (world_random w) = (memory, Inr i)"
    and services: "start_services rt fl w compiled rules_path ca i s = (s', Inr srv)"
    by (rule main_start_Inr)
  from services obtain proofs configured proof_router where
    cache: "new_cache rt (Some (flag_attestation_audience fl)) (identity_public_key i) (identity_key_id i)
       (if configured then [Some pg_store] else []) = Inr proofs"
    and router: "start_main_router w configured proofs s = (s', Inr proof_router)"
    and srv: "srv = \<lparr>srv_listen = flag_listen fl, srv_ca = ca, srv_identity = i,
       srv_config = new_config \<lparr>cfg_signer = identity_signer i, cfg_rules = Some compiled,
          max_json_bytes = flag_max_json_bytes fl, proof_reference = cache_proof_ref proofs\<rparr>,
       srv_proofs = proofs, srv_router = proof_router, srv_rules_path = rules_path\<rparr>"
    by (rule start_services_Inr)
  note c = new_cache_Inr[OF cache]
  have "cache_store proofs = (if configured then Some pg_store else None)"
    using c(7) by (cases configured) simp_all
  note wired = start_main_router_wired[OF router this]
  have "load_proxy_config rt (world_order1 w) (world_order2 w) (world_opened w) rules_path = Inr compiled
      \<and> rules_path \<in> {relativeSigningRulesPath, fixedSigningRulesPath}"
    using rules by (auto simp: load_proxy_config_with_fallback_def split: sum.splits if_splits)
  moreover obtain r token t where tok: "world_random w = Inr r"
    "main_provider fl w [''startup_'' @ b64_encode r, bind_nonce rt (identity_public_key i)] = Inr token"
    "token_expiry token = Inr t" "world_now w < t"
    using bootstrap_asked[OF boot] by blast
  moreover obtain a where "world_launcher w (token_call_of
      (new_token_client (flag_attestation_socket fl) (flag_attestation_audience fl))
      [''startup_'' @ b64_encode r, bind_nonce rt (identity_public_key i)]) = Inr a" "answer_code a = 200"
    "token = trim_space (take (2 ^ 20) (pending (answer_body a)))"
    using tok(2)
    by (auto simp: main_provider_def client_token_def read_limited_def and_then_Inr_iff require_Inr_iff
        split: if_splits simp del: One_nat_def)
  moreover have "leaf_is_ca (cert_leaf ca)" "bit (leaf_key_usage (cert_leaf ca)) 5"
    using load_main_ca_parsed[OF ca] parse_ca_can_sign by blast+
  ultimately show ?thesis
    using bootstrap_Inr(1)[OF boot] limit c(3,5) wired
    by (simp add: srv new_config_def)
qed

text \<open>
  C32: Shutting down hands over.  Once a replica with a router has shut down, and the database carried
  out its drain, every other replica that is asked for a proof of it that is not stored answers at
  once that the owner is unavailable; and the private key, which the signer shares, is all zeros.\<close>

theorem shutdown_hands_over:
  assumes "srv_router srv = Some r"
    and "faults s2 = []" and "lookup_row rr_ref (replica_table s2) (router_ref r) = Some row"
    and "rr_instance row = instance_name r"
    and "main_shutdown srv s2 = (s3, i)"
    and "router_ref r \<noteq> router_ref other" and "db_content s2 (router_ref r, ch) = None"
  shows "resolve other prov s3 (router_ref r) ch ticks cancelled = (s3, Inl ErrProofOwnerUnavailable)
     \<and> list_all (\<lambda>b. b = CHR 0x00) (private_key (identity_signer i))"
proof -
  have drained: "s3 = s2\<lparr>replica_table := update_rows (\<lambda>q. rr_ref q = router_ref r \<and> rr_instance q = instance_name r)
      (\<lambda>q. q\<lparr>rr_draining := True, rr_updated := db_clock s2\<rparr>) (replica_table s2)\<rparr>"
    using assms(1,2,5)
    by (auto simp: main_shutdown_def drain_router_def set_replica_draining_def update_replica_def
        run_no_fault Let_def split: prod.splits)
  have "lookup_row rr_ref (replica_table s3) (router_ref r)
      = Some (row\<lparr>rr_draining := True, rr_updated := db_clock s2\<rparr>)"
    using assms(3,4) lookup_row_Some[OF assms(3)] by (simp add: drained lookup_update_rows)
  moreover have "faults s3 = []" "db_content s3 (router_ref r, ch) = None"
    using assms(2,7) by (simp_all add: drained db_content_def)
  ultimately have "resolve other prov s3 (router_ref r) ch ticks cancelled = (s3, Inl ErrProofOwnerUnavailable)"
    using resolve_remote_no_fault[of s3 "router_ref r" other ch prov ticks cancelled] assms(6)
      dead_owner[of other s3 "row\<lparr>rr_draining := True, rr_updated := db_clock s2\<rparr>" "router_ref r" ch ticks cancelled]
    by (simp add: owner_live_def)
  moreover have "list_all (\<lambda>b. b = CHR 0x00) (private_key (identity_signer i))"
    using assms(5) by (auto simp: main_shutdown_def destroy_identity_def identity_signer_def cleared_def list_all_iff)
  ultimately show ?thesis by blast
qed

end
