(* ===== verification/ProgramSamples.thy ===== *)
theory ProgramSamples
  imports TapMainProps
begin

section \<open>The program at sample inputs\<close>

text \<open>
  Concrete worlds in which the theorems about startup, the endpoints and the whole program apply.
\<close>

subsection \<open>Tokens and authorities\<close>

definition sample_launcher :: launcher where
  "sample_launcher call =
     Inr \<lparr>answer_code = 200, answer_status = ''200 OK'', answer_body = sample_body (sample_token @ [CHR 10])\<rparr>"

definition sample_client :: token_client where
  "sample_client = new_token_client DefaultSocketPath ''aud''"

lemma sample_client_token: "client_token sample_client sample_launcher nonces = Inr sample_token"
proof -
  have "take (2 ^ 20) (sample_token @ [CHR 10]) = sample_token @ [CHR 10]"
    by (intro take_all) code_simp
  moreover have "trim_space (sample_token @ [CHR 10]) = sample_token"
    "length (split_on CHR ''.'' sample_token) = 3" by code_simp+
  ultimately show ?thesis
    by (simp add: client_token_def sample_launcher_def read_limited_def sample_body_def del: One_nat_def)
qed


definition sample_x509 :: "bytes x509" where
  "sample_x509 = \<lparr>x509_key_pair = (\<lambda>c k. Inr (c, [], k)),
     x509_parse = (\<lambda>der. Inr \<lparr>leaf_is_ca = True, leaf_key_usage = 97\<rparr>)\<rparr>"

definition sample_source :: "bytes ca_source" where
  "sample_source = \<lparr>src_key = Inr ''key'', src_serial = (\<lambda>_. Inr 7), src_certificate = (\<lambda>t k. Inr ''der''),
     src_marshal_key = (\<lambda>k. Inr k)\<rparr>"

definition empty_disk :: disk where
  "empty_disk = \<lparr>file_at = \<lambda>_. None, unreadable = \<lambda>_. None, write_outcomes = []\<rparr>"

lemma sample_parse: "\<exists>cert. parse_ca sample_x509 c k = Inr cert"
  by (simp add: parse_ca_def sample_x509_def KeyUsageCertSign_def)

lemma sample_created:
  "\<exists>d' cert. load_or_create_ca sample_x509 sample_source start_time empty_disk ''ca.pem'' ''key.pem'' = (d', Inr cert)"
proof -
  obtain c k where g: "generate_ca sample_source start_time = Inr (c, k)"
    by (simp add: generate_ca_def sample_source_def)
  obtain cert where "parse_ca sample_x509 c k = Inr cert" using sample_parse by blast
  with g show ?thesis
    by (simp add: load_or_create_ca_def read_file_def write_file_def empty_disk_def put_file_def is_absent_def Let_def)
qed


definition half_disk :: disk where
  "half_disk = empty_disk\<lparr>file_at := [''ca.pem'' \<mapsto> (''pem'', 420)]\<rparr>"

theorem ca_never_replaced_witness:
  "load_or_create_ca sample_x509 sample_source 0 half_disk ''ca.pem'' ''key.pem''
     = (half_disk, Inl (Plain ''read CA files: certificate: <nil>; key: no such file or directory''))"
proof -
  have r: "read_file half_disk ''ca.pem'' = Inr ''pem''" "read_file half_disk ''key.pem'' = Inl FileNotExist"
    by (simp_all add: read_file_def half_disk_def empty_disk_def)
  then show ?thesis
    using ca_never_replaced[of half_disk "''ca.pem''" "''key.pem''" sample_x509 sample_source 0]
    by (simp add: error_shown_def os_error_text_def)
qed

theorem loaded_ca_can_sign_witness:
  "\<exists>cert. load_ca sample_x509 (half_disk\<lparr>file_at := \<lambda>_. Some (''pem'', 420)\<rparr>) ''ca.pem'' ''key.pem'' = Inr cert
     \<and> bit (leaf_key_usage (cert_leaf cert)) 5"
proof -
  obtain cert where "load_ca sample_x509 (half_disk\<lparr>file_at := \<lambda>_. Some (''pem'', 420)\<rparr>) ''ca.pem'' ''key.pem'' = Inr cert"
    using sample_parse[of "''pem''" "''pem''"]
    by (auto simp: load_ca_def read_file_def half_disk_def empty_disk_def)
  with loaded_ca_can_sign[OF this] show ?thesis by blast
qed

subsection \<open>Rules and the store\<close>

definition sample_rules_file :: bytes where
  "sample_rules_file = ''{\"paths\":{\"/v1/chat/completions\":{\"extractor\":\"'' @ ExtractorOpenAIChatConversation @ ''\"}}} ''"

definition sample_opener :: opener where
  "sample_opener path = (if path = fixedSigningRulesPath then Inr (sample_rules_file, False) else Inl FileNotExist)"

lemma sample_rules_decode:
  "\<exists>v. json_parse sample_rules_file = Some v
     \<and> decode_config v = Inr [(''/v1/chat/completions'', \<lparr>extractor = ExtractorOpenAIChatConversation\<rparr>)]"
proof -
  have "map_option decode_config (json_parse sample_rules_file)
      = Some (Inr [(''/v1/chat/completions'', \<lparr>extractor = ExtractorOpenAIChatConversation\<rparr>)])" by code_simp
  then show ?thesis by auto
qed

lemma sample_rules_compile:
  "\<exists>c. compile_path_rules [(''/v1/chat/completions'', \<lparr>extractor = ExtractorOpenAIChatConversation\<rparr>)] = Inr c"
proof -
  have "is_ok (compile_path_rules [(''/v1/chat/completions'', \<lparr>extractor = ExtractorOpenAIChatConversation\<rparr>)])"
    by code_simp
  then show ?thesis by (simp add: is_ok_iff)
qed

lemma sample_supported: "is_supported_extractor sample_runtime ExtractorOpenAIChatConversation"
  by (simp add: is_supported_extractor_def lookup_text_extractor_def text_extractors_def)

lemma sample_loaded: "\<exists>c. load_proxy_config sample_runtime rev rev sample_opener fixedSigningRulesPath = Inr c"
  using sample_rules_decode sample_rules_compile sample_supported
  by (auto simp: load_proxy_config_Inr sample_opener_def)

theorem loaded_rules_sound_witness:
  "\<exists>c. load_proxy_config sample_runtime rev rev sample_opener fixedSigningRulesPath = Inr c
     \<and> rules_len (Some c) = 1"
proof -
  obtain c where c: "load_proxy_config sample_runtime rev rev sample_opener fixedSigningRulesPath = Inr c"
    using sample_loaded by blast
  obtain v where v: "json_parse sample_rules_file = Some v"
    "decode_config v = Inr [(''/v1/chat/completions'', \<lparr>extractor = ExtractorOpenAIChatConversation\<rparr>)]"
    using sample_rules_decode by blast
  from loaded_rules_sound[OF c, of "''/x''"] obtain data w cfg where
    "sample_opener fixedSigningRulesPath = Inr (data, False)" "json_parse data = Some w"
    "decode_config w = Inr cfg" "rules_len (Some c) = length cfg" by auto
  then have "rules_len (Some c) = 1" using v by (simp add: sample_opener_def)
  with c show ?thesis by blast
qed

definition dsn_env :: environ where
  "dsn_env name = (if name = ''TAP_PG_DSN'' then ''postgres://db'' else [])"

definition secret_env :: environ where
  "secret_env name = (if name = postgresDSNSecretVersionEnv then ''projects/p/secrets/s/versions/3'' else [])"

definition sample_secrets :: secret_client where
  "sample_secrets = \<lparr>client_open = Inr (), client_access = (\<lambda>_. Inr (Some \<lparr>payload_data = ''postgres://db'', payload_crc = None\<rparr>))\<rparr>"

definition sample_driver :: "unit pg_driver" where
  "sample_driver = \<lparr>drv_open = (\<lambda>_. Inr ()), drv_pool = (\<lambda>_. Inr ()), drv_ping = (\<lambda>_. Inr ()), drv_migrate = (\<lambda>_. Inr ())\<rparr>"

theorem secret_excludes_variables_witness:
  "fst (open_postgres_proof_store secret_env sample_secrets sample_driver)
   \<and> snd (snd (open_postgres_proof_store secret_env sample_secrets sample_driver)) \<noteq> Inr None"
proof -
  have "trim_space (secret_env postgresDSNSecretVersionEnv) \<noteq> []" by code_simp
  then show ?thesis
    using secret_excludes_variables[where env = secret_env and client = sample_secrets and drv = sample_driver]
    by (auto split: prod.splits)
qed

subsection \<open>An identity and its proofs\<close>

definition sample_pair :: "(go_error, bytes \<times> bytes) result" where
  "sample_pair = Inr (sample_public_key, private_key sample_signer)"

definition sample_identity :: signing_identity where
  "sample_identity = \<lparr>key_memory = private_key sample_signer, identity_public_key = sample_public_key,
     identity_key_id = public_key_id sample_runtime sample_public_key\<rparr>"

lemma sample_bootstrap:
  assumes "\<And>nonces. prov nonces = Inr sample_token"
  shows "bootstrap_signing_identity sample_runtime sample_pair (Some aud) prov start_time (Inr ''r'')
    = (private_key sample_signer, Inr sample_identity)"
proof -
  obtain c :: "unit cache" where c: "new_cache sample_runtime (Some aud) sample_public_key
      (public_key_id sample_runtime sample_public_key) [] = Inr c"
    using sample_keys(1) by (simp add: new_cache_no_store)
  have "preflight c prov start_time (Inr ''r'') = Inr ()"
    using sample_time by (simp add: preflight_def request_token_def assms sample_token_expiry)
  with c show ?thesis by (simp add: bootstrap_signing_identity_def sample_pair_def sample_identity_def)
qed

definition sample_proofs :: "db cache" where
  "sample_proofs = \<lparr>cache_audience = ''aud'', cache_public_key = sample_public_key,
     cache_key_id = identity_key_id sample_identity,
     cache_proof_ref = proof_reference_of sample_runtime sample_public_key,
     cache_binding = bind_nonce sample_runtime sample_public_key, cache_store = Some pg_store\<rparr>"

lemma sample_key_id: "identity_key_id sample_identity \<noteq> []"
  by (simp add: sample_identity_def) code_simp

lemma sample_proofs_new:
  "new_cache sample_runtime (Some ''aud'') (identity_public_key sample_identity) (identity_key_id sample_identity)
     [Some pg_store] = Inr sample_proofs"
  using sample_keys(1) sample_key_id by (simp add: new_cache_def sample_proofs_def) (simp add: sample_identity_def)

lemma sample_proofs_fields [simp]:
  "cache_store sample_proofs = Some pg_store"
  "cache_proof_ref sample_proofs = proof_reference_of sample_runtime sample_public_key"
  by (simp_all add: sample_proofs_def)

definition sample_query :: string where
  "sample_query = ''proof_ref='' @ proof_reference_of sample_runtime sample_public_key @ ''&nonce=challenge_1''"

lemma sample_query_values:
  "query_get sample_query ''proof_ref'' = proof_reference_of sample_runtime sample_public_key"
  "query_get sample_query ''nonce'' = ''challenge_1''"
  "valid_proof_reference (proof_reference_of sample_runtime sample_public_key)"
  "validate_challenge ''challenge_1'' = Inr ()"
  by code_simp+

definition minted_bundle :: proof_bundle where
  "minted_bundle = make_bundle sample_proofs ''challenge_1'' sample_token (2000000000 * second)"

definition minted_db :: db where
  "minted_db = (sample_db [])\<lparr>proof_table := [record_from_bundle minted_bundle start_time]\<rparr>"

lemma sample_proofs_issue:
  "issue sample_proofs (sample_db []) sample_provider start_time ''challenge_1'' = (minted_db, Inr minted_bundle)"
  using issue_no_fault[OF _ sample_proofs_fields(1) sample_challenge _ sample_provider_token[OF sample_time],
      of "sample_db []"]
  by (simp add: insert_row_def lookup_row_def minted_db_def minted_bundle_def)

lemma minted_content:
  "db_content minted_db k
    = (if k = (proof_reference_of sample_runtime sample_public_key, ''challenge_1'') then Some minted_bundle else None)"
proof -
  have "in_int64 (expires_at minted_bundle)" unfolding minted_bundle_def by (rule made_in_range)
  moreover have "bundle_key minted_bundle = (proof_reference_of sample_runtime sample_public_key, ''challenge_1'')"
    by (simp add: bundle_key_def minted_bundle_def make_bundle_def)
  ultimately show ?thesis
    by (auto simp: db_content_def minted_db_def lookup_row_single record_round_trip record_key)
qed

lemma sample_endpoint:
  "attestation_endpoint sample_proofs None sample_provider (sample_db []) sample_query [] False
     = (minted_db, json_response (bundle_json minted_bundle))"
  using sample_proofs_issue
  by (simp add: attestation_endpoint_def sample_query_values obtain_proof_def proof_response_def Let_def)

theorem served_bundle_witness:
  "\<exists>s' resp b. attestation_endpoint sample_proofs None sample_provider (sample_db []) sample_query [] False = (s', resp)
     \<and> map_option decode_any (json_parse (resp_body resp)) = Some (bundle_value b)
     \<and> challenge_nonce b = ''challenge_1''"
proof -
  have "bundle_utf8 minted_bundle" by code_simp
  then have utf: "bundle_utf8 b" if "db_content minted_db k = Some b" for k b
    using that by (simp add: minted_content split: if_splits)
  show ?thesis
    by (rule exE[OF served_bundle[OF sample_proofs_fields(1) _ sample_endpoint]])
       (use utf sample_endpoint in \<open>auto simp: sample_query_values\<close>)
qed


subsection \<open>A signed exchange\<close>

definition attested_config :: config where
  "attested_config = \<lparr>cfg_signer = identity_signer sample_identity, cfg_rules = Some sample_proxy_rules,
     max_json_bytes = 2097152, proof_reference = cache_proof_ref sample_proofs\<rparr>"

lemma attested_config_fields [simp]:
  "cfg_signer attested_config = identity_signer sample_identity"
  "cfg_rules attested_config = Some sample_proxy_rules" "max_json_bytes attested_config = 2097152"
  "proof_reference attested_config = cache_proof_ref sample_proofs"
  by (simp_all add: attested_config_def)

lemma on_request_config:
  assumes "cfg_rules cfg = cfg_rules cfg'" and "max_json_bytes cfg = max_json_bytes cfg'"
  shows "on_request rt cfg = on_request rt cfg'"
  by (rule ext) (simp only: on_request_def assms)

lemma attested_on_request: "on_request sample_runtime attested_config sample_rq
    = (sample_rq\<lparr>rq_header := header_del (rq_header sample_rq) HeaderChallenge\<rparr>, Some sample_state)"
  using on_request_config[of attested_config sample_config sample_runtime] sample_on_request
  by (simp add: sample_config_fields)

lemma attested_signature:
  "is_ok (sign sample_runtime (identity_signer sample_identity) sample_time (Some sample_nonce) no_header ''api.example''
     (hex_encode (sha256 sample_runtime ''leaf'')) ''/v1/chat/completions'' sample_chat_fields
     sample_answer_fields)"
  by code_simp

lemma attested_json_response:
  "\<exists>r'. on_response sample_runtime attested_config sample_time (Some sample_nonce) (Some sample_state)
       (Some (sample_rp ''application/json'' sample_answer)) = Some r'
     \<and> header_get (rp_header r') HeaderProfile = Profile"
proof -
  let ?r = "sample_rp ''application/json'' sample_answer"
  obtain h where h: "sign sample_runtime (identity_signer sample_identity) sample_time (Some sample_nonce)
      (clear_attestation_headers (rp_header ?r)) ''api.example''
      (hex_encode (sha256 sample_runtime ''leaf'')) ''/v1/chat/completions'' sample_chat_fields
      sample_answer_fields = Inr h"
    using sign_ok_header(1)[OF attested_signature] by blast
  have "header_get (add_proof_reference attested_config h) HeaderProfile = Profile"
    using keys_eq(1)[OF add_proof_reference_reads attestation_keys_members(2)] sign_profile[OF h] by simp
  moreover have "\<exists>r'. on_response sample_runtime attested_config sample_time (Some sample_nonce)
      (Some sample_state) (Some ?r) = Some r' \<and> rp_header r' = add_proof_reference attested_config h"
    using h sample_extracts(3) sample_read[of sample_answer]
    by (simp add: on_response_def Let_def cleared_content_type sample_rp_fields sample_media sign_json_def
        sample_state_def)
  ultimately show ?thesis by auto
qed

lemma sample_boot:
  "bootstrap_signing_identity sample_runtime sample_pair (Some ''aud'') sample_provider start_time (Inr ''r'')
     = (private_key sample_signer, Inr sample_identity)"
  by (rule sample_bootstrap) (simp add: sample_provider_def)

lemma attested_limit: "limit_ok (max_json_bytes attested_config)"
  by (simp add: limit_ok_def int64_max_def)

text \<open>The signed response, which names the proof that the query asks for.\<close>

lemma attested_response:
  obtains r' where
    "on_response sample_runtime attested_config sample_time (Some sample_nonce) (Some sample_state)
       (Some (sample_rp ''application/json'' sample_answer)) = Some r'"
    "header_get (rp_header r') HeaderProfile = Profile"
    "query_get sample_query ''proof_ref'' = header_get (rp_header r') HeaderProofReference"
proof -
  obtain r' where r': "on_response sample_runtime attested_config sample_time (Some sample_nonce)
      (Some sample_state) (Some (sample_rp ''application/json'' sample_answer)) = Some r'"
    "header_get (rp_header r') HeaderProfile = Profile"
    using attested_json_response by blast
  have "header_get (rp_header r') HeaderProofReference = proof_reference attested_config"
    by (rule json_exchange_reference[OF attested_limit _ r']) (simp add: proof_reference_of_def)
  with that[OF r'] show thesis by (simp add: sample_query_values)
qed

lemma sample_url:
  "url_path (rq_url sample_rq) = ''/v1/chat/completions''"
  "host_name (url_host (rq_url sample_rq)) = ''Api.example''"
  "to_lower sample_runtime ''Api.example'' = ''api.example''"
  by code_simp+

lemma sample_host:
  "host_name (url_host (rq_url sample_rq)) \<noteq> []" "is_ascii (host_name (url_host (rq_url sample_rq)))"
  by (simp_all add: sample_url byte_def)

lemma sample_times:
  "- 30 * second \<le> 1700000100 * second - unix_seconds sample_time * second"
  "1700000100 * second - unix_seconds sample_time * second \<le> 300 * second" "300 * second \<le> int64_max"
  by (simp_all add: unix_seconds_def wrap64_def second_def int64_max_def)

theorem attested_exchange_witness:
  "\<exists>r' (b :: proof_bundle) pk fs gs.
     on_response sample_runtime attested_config sample_time (Some sample_nonce) (Some sample_state)
       (Some (sample_rp ''application/json'' sample_answer)) = Some r'
     \<and> sample_provider [''challenge_1'', bind_nonce sample_runtime pk] = Inr (attestation_token b)
     \<and> b64_decode (public_key b) = Some pk
     \<and> verify sample_runtime pk (rp_header r') ''api.example''
         (hex_encode (sha256 sample_runtime ''leaf'')) ''/v1/chat/completions'' fs gs
         (1700000100 * second) (300 * second) = Inr ()"
proof -
  obtain r' where r': "on_response sample_runtime attested_config sample_time (Some sample_nonce)
      (Some sample_state) (Some (sample_rp ''application/json'' sample_answer)) = Some r'"
    "header_get (rp_header r') HeaderProfile = Profile"
    and q: "query_get sample_query ''proof_ref'' = header_get (rp_header r') HeaderProofReference"
    by (rule attested_response)
  have ok: "resp_status (json_response (bundle_json minted_bundle)) = 200" by simp
  have free: "db_content (sample_db []) (cache_proof_ref sample_proofs, query_get sample_query ''nonce'') = None"
    by simp
  from attested_exchange[OF sample_boot sample_proofs_new attested_config_fields(1,4) attested_limit
      attested_on_request r' sample_endpoint ok q free sample_pair_def sample_keys(3) sample_host sample_times]
  obtain b :: proof_bundle and pk leaf fs gs where "challenge_nonce b = query_get sample_query ''nonce''"
    and "sample_provider [challenge_nonce b, bind_nonce sample_runtime pk] = Inr (attestation_token b)"
    and key: "b64_decode (public_key b) = Some pk"
    and "verified_leaf (rp_tls (sample_rp ''application/json'' sample_answer)) = Some leaf"
    and "verify sample_runtime pk (rp_header r') (to_lower sample_runtime (host_name (url_host (rq_url sample_rq))))
       (hex_encode (sha256 sample_runtime leaf)) (url_path (rq_url sample_rq)) fs gs (1700000100 * second)
       (300 * second) = Inr ()" by blast
  then have "sample_provider [''challenge_1'', bind_nonce sample_runtime pk] = Inr (attestation_token b)"
    "verify sample_runtime pk (rp_header r') ''api.example''
         (hex_encode (sha256 sample_runtime ''leaf'')) ''/v1/chat/completions'' fs gs
         (1700000100 * second) (300 * second) = Inr ()"
    by (simp_all add: sample_url sample_query_values sample_rp_fields)
  with key r'(1) show ?thesis by blast
qed

subsection \<open>A running server\<close>

definition sample_flags :: main_flags where
  "sample_flags = default_flags\<lparr>flag_attestation_audience := ''aud'', flag_generate_ca := True\<rparr>"

definition sample_world :: "(bytes, unit) world" where
  "sample_world = \<lparr>world_opened = sample_opener, world_order1 = rev, world_order2 = rev,
     world_x509 = sample_x509, world_ca_source = sample_source, world_key_pair = sample_pair,
     world_random = Inr ''r'', world_launcher = sample_launcher, world_env = dsn_env,
     world_secrets = sample_secrets, world_driver = sample_driver, world_hostname = Inr ''tap-0'',
     world_now = start_time\<rparr>"

lemma sample_rules_loaded:
  "\<exists>c. load_proxy_config_with_fallback sample_runtime rev rev sample_opener relativeSigningRulesPath fixedSigningRulesPath
      = Inr (c, fixedSigningRulesPath)"
proof -
  have "load_proxy_config sample_runtime rev rev sample_opener relativeSigningRulesPath = Inl (OpenError FileNotExist)"
    by (simp add: load_proxy_config_def sample_opener_def relativeSigningRulesPath_def fixedSigningRulesPath_def)
  with sample_loaded show ?thesis by (auto simp: load_proxy_config_with_fallback_def)
qed

lemma sample_store_opened:
  "open_postgres_proof_store dsn_env sample_secrets sample_driver = (True, False, Inr (Some ()))"
proof -
  have "trim_space (dsn_env postgresDSNSecretVersionEnv) = []"
    "postgres_dsn_from_environment dsn_env = (True, Inr ''postgres://db'')" by code_simp+
  then show ?thesis by (simp add: open_postgres_proof_store_def open_postgres_def sample_driver_def)
qed

lemma sample_router_started:
  "\<exists>s' r. start_main_router sample_world True sample_proofs (sample_db []) = (s', Inr (Some r))"
proof -
  have n: "trim_space ''tap-0'' \<noteq> []" by code_simp
  obtain r where r: "new_router (Some sample_proofs) True ''tap-0'' default_router_options = Inr r"
    by (simp add: new_router_def default_router_options_def second_def)
  have "\<exists>s'. start_router r (sample_db []) = (s', Inr ())"
    by (simp add: start_router_def register_replica_def run_no_fault split: prod.split)
  with n r show ?thesis by (auto simp: start_main_router_def sample_world_def)
qed

lemma sample_started: "\<exists>d' s' srv. main_start sample_runtime sample_flags sample_world empty_disk (sample_db []) = (d', s', Inr srv)"
proof -
  obtain c where c: "load_proxy_config_with_fallback sample_runtime rev rev sample_opener relativeSigningRulesPath
      fixedSigningRulesPath = Inr (c, fixedSigningRulesPath)" using sample_rules_loaded by blast
  have "flag_ca_cert sample_flags \<noteq> flag_ca_key sample_flags" by (simp add: sample_flags_def default_flags_def)
  obtain pc pk where g: "generate_ca sample_source start_time = Inr (pc, pk)"
    by (simp add: generate_ca_def sample_source_def)
  obtain cert where "parse_ca sample_x509 pc pk = Inr cert" using sample_parse by blast
  with g have "\<exists>d' ca. load_main_ca sample_flags sample_world empty_disk = (d', Inr ca)"
    by (simp add: load_main_ca_def sample_flags_def default_flags_def sample_world_def load_or_create_ca_def
        read_file_def write_file_def empty_disk_def put_file_def is_absent_def Let_def)
  then obtain d' ca where ca: "load_main_ca sample_flags sample_world empty_disk = (d', Inr ca)" by blast
  have "main_provider sample_flags sample_world nonces = Inr sample_token" for nonces
    using sample_client_token
    by (simp add: main_provider_def sample_flags_def default_flags_def sample_world_def sample_client_def)
  note boot = sample_bootstrap[OF this, of "flag_attestation_audience sample_flags"]
  obtain s' r where r: "start_main_router sample_world True sample_proofs (sample_db []) = (s', Inr (Some r))"
    using sample_router_started by blast
  have "flag_attestation_audience sample_flags = ''aud''" by (simp add: sample_flags_def)
  then have "\<exists>srv. start_services sample_runtime sample_flags sample_world c fixedSigningRulesPath ca sample_identity
      (sample_db []) = (s', Inr srv)"
    using sample_store_opened sample_proofs_new r by (simp add: start_services_def) (simp add: sample_world_def)
  then obtain srv where "start_services sample_runtime sample_flags sample_world c fixedSigningRulesPath ca
      sample_identity (sample_db []) = (s', Inr srv)" by blast
  moreover have "0 < flag_max_json_bytes sample_flags"
    by (simp add: sample_flags_def default_flags_def DefaultMaxJSONBytes_def)
  ultimately show ?thesis
    using c ca boot
    by (simp add: main_start_def) (simp add: sample_world_def)
qed

theorem started_server_witness:
  "\<exists>d' s' srv. main_start sample_runtime sample_flags sample_world empty_disk (sample_db []) = (d', s', Inr srv)
     \<and> proof_reference (srv_config srv) = proof_reference_of sample_runtime sample_public_key
     \<and> srv_rules_path srv \<in> {relativeSigningRulesPath, fixedSigningRulesPath}"
proof -
  obtain d' s' srv where m: "main_start sample_runtime sample_flags sample_world empty_disk (sample_db []) = (d', s', Inr srv)"
    using sample_started by blast
  have "world_key_pair sample_world = sample_pair" by (simp add: sample_world_def)
  with started_server[OF m] have "identity_public_key (srv_identity srv) = sample_public_key"
    by (simp add: sample_pair_def)
  with started_server[OF m] m show ?thesis by metis
qed

text \<open>The server of \<open>proof-b\<close> shuts down, and another replica is asked for a proof of it.\<close>

definition sample_server :: "bytes server" where
  "sample_server = \<lparr>srv_listen = '':8080'',
     srv_ca = \<lparr>cert_first = ''der'', cert_rest = [], cert_key = ''key'',
       cert_leaf = \<lparr>leaf_is_ca = True, leaf_key_usage = 97\<rparr>\<rparr>,
     srv_identity = sample_identity, srv_config = attested_config, srv_proofs = sample_cache ''proof-b'',
     srv_router = Some (sample_router ''proof-b''), srv_rules_path = fixedSigningRulesPath\<rparr>"

theorem shutdown_hands_over_witness:
  "snd (resolve (sample_router ''proof-a'') sample_provider (fst (main_shutdown sample_server (sample_db [])))
     ''proof-b'' ''challenge_1'' [] False) = Inl ErrProofOwnerUnavailable"
proof -
  obtain s3 i where m: "main_shutdown sample_server (sample_db []) = (s3, i)" by fastforce
  have r: "srv_router sample_server = Some (sample_router ''proof-b'')" by (simp add: sample_server_def)
  have "router_ref (sample_router ''proof-b'') = ''proof-b''" "router_ref (sample_router ''proof-a'') = ''proof-a''"
    "instance_name (sample_router ''proof-b'') = ''proof-b''"
    by (simp_all add: sample_router_def)
  moreover have "lookup_row rr_ref (replica_table (sample_db [])) ''proof-b'' = Some sample_replica_row"
    by (simp add: lookup_row_def sample_replica_row_def sample_db_def)
  ultimately show ?thesis
    using shutdown_hands_over[OF r _ _ _ m, of sample_replica_row "sample_router ''proof-a''" "''challenge_1''"
        sample_provider "[]" False] m
    by (simp add: sample_replica_row_def)
qed

end
