(* ===== verification/Federation.thy ===== *)
theory Federation
  imports EndToEnd Cluster
begin

section \<open>Any replica vouches for any other\<close>

text \<open>
  The replicas of a deployment share one database.  Its proofs are only ever minted by \<open>issue_fresh\<close>,
  for the key of the replica that mints; whatever else the program does leaves them alone.  So every
  stored bundle is one that the platform vouches for, and a client may ask any replica for the proof
  of a response that another one has signed.
\<close>

subsection \<open>The steps of a deployment\<close>

text \<open>
  \<open>issued\<close> says of a list of nonces and a token that the platform has issued the token for them; a
  provider is honest when it hands out such tokens only.  \<open>keys\<close> are the public keys of the replicas.
\<close>

type_synonym platform = "string list \<Rightarrow> string \<Rightarrow> bool"

definition honest :: "platform \<Rightarrow> provider \<Rightarrow> bool" where
  "honest issued prov \<longleftrightarrow> (\<forall>nonces token. prov nonces = Inr token \<longrightarrow> issued nonces token)"

definition cache_of :: "('r) runtime_scheme \<Rightarrow> bytes set \<Rightarrow> db cache \<Rightarrow> bool" where
  "cache_of rt keys c \<longleftrightarrow>
     (\<exists>aud kid. \<exists>pk \<in> keys. new_cache rt (Some aud) pk kid [Some pg_store] = Inr c)"

inductive service_step :: "('r) runtime_scheme \<Rightarrow> platform \<Rightarrow> bytes set \<Rightarrow> db \<Rightarrow> db \<Rightarrow> bool"
  for rt issued keys where
  mint: "cache_of rt keys c \<Longrightarrow> honest issued prov \<Longrightarrow>
     service_step rt issued keys s (fst (issue_fresh c s prov now ch))"
| other: "db_step s s' \<Longrightarrow> db_content s' = db_content s \<Longrightarrow> service_step rt issued keys s s'"

abbreviation service_run :: "('r) runtime_scheme \<Rightarrow> platform \<Rightarrow> bytes set \<Rightarrow> db \<Rightarrow> db \<Rightarrow> bool" where
  "service_run rt issued keys \<equiv> (service_step rt issued keys)\<^sup>*\<^sup>*"

lemma cache_of_store:
  assumes "cache_of rt keys c"
  shows "cache_store c = Some pg_store"
  using assms new_cache_Inr(7) by (fastforce simp: cache_of_def)

subsection \<open>The invariant\<close>

definition vouched :: "('r) runtime_scheme \<Rightarrow> platform \<Rightarrow> bytes set \<Rightarrow> proof_bundle \<Rightarrow> bool" where
  "vouched rt issued keys b \<longleftrightarrow>
     (\<exists>pk \<in> keys. proof_ref b = proof_reference_of rt pk \<and> b64_decode (public_key b) = Some pk
        \<and> binding_nonce b = bind_nonce rt pk
        \<and> issued [challenge_nonce b, bind_nonce rt pk] (attestation_token b))"

definition all_vouched :: "('r) runtime_scheme \<Rightarrow> platform \<Rightarrow> bytes set \<Rightarrow> db \<Rightarrow> bool" where
  "all_vouched rt issued keys s \<longleftrightarrow> (\<forall>k b. db_content s k = Some b \<longrightarrow> vouched rt issued keys b)"

lemma fresh_vouched:
  assumes "cache_of rt keys c" and "honest issued prov" and "pg.fresh_for c prov now ch b"
  shows "vouched rt issued keys b"
proof -
  from assms(1) obtain aud kid pk where pk: "pk \<in> keys"
    "new_cache rt (Some aud) pk kid [Some pg_store] = Inr c" by (auto simp: cache_of_def)
  note c = new_cache_Inr[OF pk(2)]
  from assms(3) obtain token t where rt: "request_token c prov now ch = Inr (token, t)"
    and b: "b = make_bundle c ch token t" by (auto simp: pg.fresh_for_def)
  then have "prov [ch, bind_nonce rt pk] = Inr token"
    by (auto simp: request_token_def and_then_Inr_iff require_Inr_iff c(6))
  with assms(2) have "issued [ch, bind_nonce rt pk] token" by (simp add: honest_def)
  with pk(1) show ?thesis
    by (auto simp: vouched_def b make_bundle_def c(3,5,6) b64_round_trip intro!: bexI[of _ pk])
qed

lemma service_step_vouched:
  "service_step rt issued keys s s' \<Longrightarrow> all_vouched rt issued keys s \<Longrightarrow> all_vouched rt issued keys s'"
proof (induction rule: service_step.induct)
  case (mint c prov s now ch)
  note st = cache_of_store[OF mint(1)]
  from pg.issue_fresh_content[OF st, of s prov now ch] show ?case
    using mint(3) fresh_vouched[OF mint(1,2)] by (auto simp: all_vouched_def split: if_splits)
qed (simp add: all_vouched_def)

lemma service_run_vouched:
  "service_run rt issued keys s s' \<Longrightarrow> all_vouched rt issued keys s \<Longrightarrow> all_vouched rt issued keys s'"
  by (induction rule: rtranclp_induct) (auto intro: service_step_vouched)

subsection \<open>The program runs these steps\<close>

lemma calls_keep_content:
  "db_content (fst (pg_find s ref ch)) = db_content s"
  "db_content (fst (find_replica s ref)) = db_content s"
  "db_content (fst (find_request s ref ch)) = db_content s"
  "db_content (fst (enqueue_request s q)) = db_content s"
  "db_content (fst (claim_requests s ref now lease limit locked)) = db_content s"
  "db_content (fst (complete_request s ref ch)) = db_content s"
  "db_content (fst (fail_request s ref ch msg)) = db_content s"
  "db_content (fst (heartbeat_replica s ref name now)) = db_content s"
  "db_content (fst (delete_expired_requests s now)) = db_content s"
  by (simp_all add: pg_find_state db_content_def fun_eq_iff proofs_kept method_defs fst_case_prod Let_def)

text \<open>Each call that the code makes beside minting is a step; so is the minting.\<close>

lemma call_step:
  assumes "db_step s s'" and "db_content s' = db_content s"
  shows "service_run rt issued keys s s'"
  using service_step.other[OF assms] by (rule r_into_rtranclp)

lemma find_run: "pg_find s ref ch = (s', res) \<Longrightarrow> service_run rt issued keys s s'"
  using call_step[OF shared[OF find_step[of s ref ch]]] calls_keep_content(1)[of s ref ch] by simp

lemma find_replica_run: "find_replica s ref = (s', res) \<Longrightarrow> service_run rt issued keys s s'"
  using call_step[OF shared[OF find_replica_step[of s ref]]] calls_keep_content(2)[of s ref] by simp

lemma find_request_run: "find_request s ref ch = (s', res) \<Longrightarrow> service_run rt issued keys s s'"
  using call_step[OF shared[OF find_request_step[of s ref ch]]] calls_keep_content(3)[of s ref ch] by simp

lemma enqueue_run: "enqueue_request s q = (s', res) \<Longrightarrow> service_run rt issued keys s s'"
  using call_step[OF shared[OF enqueue_step[of s q]]] calls_keep_content(4)[of s q] by simp

lemma claim_run: "claim_requests s ref now lease limit locked = (s', res) \<Longrightarrow> service_run rt issued keys s s'"
  using call_step[OF claim_step[of s ref now lease limit locked]] calls_keep_content(5)[of s ref now lease limit locked]
  by simp

lemma mark_run:
  "service_run rt issued keys s (fst (complete_request s ref ch))"
  "service_run rt issued keys s (fst (fail_request s ref ch msg))"
  by (intro call_step complete_step fail_step calls_keep_content)+

lemma issue_run:
  assumes "cache_of rt keys c" and "honest issued prov" and "issue c s prov now ch = (s', res)"
  shows "service_run rt issued keys s s'"
proof (cases "trim_space ch = []")
  case True
  with assms(3) show ?thesis by (simp add: issue_def)
next
  case False
  obtain s1 found where f: "pg_find s (cache_proof_ref c) ch = (s1, found)" by fastforce
  note one = find_run[OF f, of rt issued keys]
  have "s' = s1 \<or> s' = fst (issue_fresh c s1 prov now ch)"
    using assms(3) False f cache_of_store[OF assms(1)]
    by (auto simp: issue_def pg_store_def split: sum.splits if_splits)
  then show ?thesis
  proof
    assume "s' = fst (issue_fresh c s1 prov now ch)"
    with mint[OF assms(1,2), of s1 now ch] one show ?thesis by (simp add: rtranclp.rtrancl_into_rtrancl)
  qed (use one in simp)
qed

lemma wait_run:
  assumes "\<forall>t\<in>set ticks. \<forall>s. service_run rt issued keys s (t s)"
    and "wait_for_proof ref ch ticks cancelled s = (s', res)"
  shows "service_run rt issued keys s s'"
  using assms
proof (induction ticks arbitrary: s)
  case Nil
  from Nil(2) obtain s1 s2 found queued where "pg_find s ref ch = (s1, found)"
    "find_request s1 ref ch = (s2, queued)" "s' = s1 \<or> s' = s2"
    by (auto elim: wait_for_proof_round)
  then show ?case using find_run find_request_run by (blast intro: rtranclp_trans)
next
  case (Cons t ts)
  from Cons.prems(2) obtain s1 s2 found queued where f: "pg_find s ref ch = (s1, found)"
    and q: "find_request s1 ref ch = (s2, queued)"
    and s': "s' = s1 \<or> s' = s2 \<or> wait_for_proof ref ch ts cancelled (t s2) = (s', res)"
    by (auto elim: wait_for_proof_round)
  have one: "service_run rt issued keys s s1" using f by (rule find_run)
  also have "service_run rt issued keys s1 s2" using q by (rule find_request_run)
  finally have two: "service_run rt issued keys s s2" .
  also have "service_run rt issued keys s2 (t s2)" using Cons.prems(1) by simp
  finally have tick: "service_run rt issued keys s (t s2)" .
  have "service_run rt issued keys (t s2) s'" if "wait_for_proof ref ch ts cancelled (t s2) = (s', res)"
    using Cons.IH[OF _ that] Cons.prems(1) by simp
  with s' one two tick show ?case by (blast intro: rtranclp_trans)
qed

lemma ask_owner_run:
  assumes "\<forall>t\<in>set ticks. \<forall>s. service_run rt issued keys s (t s)"
    and "ask_owner r owner s ref ch ticks cancelled = (s', res)"
  shows "service_run rt issued keys s s'"
proof -
  consider "s' = s" | q s1 res1 where "enqueue_request s q = (s1, res1)"
    "s' = s1 \<or> wait_for_proof ref ch ticks cancelled s1 = (s', res)"
    using assms(2) by (auto simp: ask_owner_def split: if_splits prod.splits sum.splits)
  then show ?thesis
    using enqueue_run wait_run[OF assms(1)] by cases (simp, blast intro: rtranclp_trans)
qed

lemma resolve_run:
  assumes "cache_of rt keys (router_cache r)" and "honest issued prov"
    and "\<forall>t\<in>set ticks. \<forall>s. service_run rt issued keys s (t s)"
    and "resolve r prov s ref ch ticks cancelled = (s', res)"
  shows "service_run rt issued keys s s'"
proof (cases "ref = router_ref r")
  case True
  with assms(4) show ?thesis using issue_run[OF assms(1,2)] by (simp add: resolve_def)
next
  case False
  obtain s1 found where f: "pg_find s ref ch = (s1, found)" by fastforce
  obtain s2 owner where o: "find_replica s1 ref = (s2, owner)" by fastforce
  have one: "service_run rt issued keys s s1" using f by (rule find_run)
  also have "service_run rt issued keys s1 s2" using o by (rule find_replica_run)
  finally have two: "service_run rt issued keys s s2" .
  have "s' = s1 \<or> s' = s2 \<or> (\<exists>own. ask_owner r own s2 ref ch ticks cancelled = (s', res))"
    using assms(4) False f o by (auto simp: resolve_def split: sum.splits if_splits)
  then show ?thesis using one two ask_owner_run[OF assms(3)] by (blast intro: rtranclp_trans)
qed

text \<open>A call of the endpoint, and one of the loop of an owner, is a run.\<close>

lemma endpoint_run:
  assumes "cache_of rt keys proofs" and "map_option router_cache proof_router \<in> {None, Some proofs}"
    and "honest issued prov"
    and "\<forall>t\<in>set ticks. \<forall>s. service_run rt issued keys s (t s)"
    and "attestation_endpoint proofs proof_router prov s raw ticks cancelled = (s', resp)"
  shows "service_run rt issued keys s s'"
  using assms(5)
proof (cases rule: endpoint_cases)
  case (answer res)
  then show ?thesis
    using issue_run[OF assms(1,3)] resolve_run[OF _ assms(3,4)] assms(1,2) find_run
      cache_of_store[OF assms(1)]
    by (auto simp: obtain_proof_def find_proof_def pg_store_def split: if_splits option.splits)
qed simp_all

lemma process_request_run:
  assumes "cache_of rt keys (router_cache r)" and "honest issued prov"
  shows "service_run rt issued keys s (process_request r prov s q)"
proof -
  obtain s1 res where i: "issue (router_cache r) s prov (db_clock s) (req_nonce q) = (s1, res)" by fastforce
  have "service_run rt issued keys s s1" using issue_run[OF assms i] .
  also have "service_run rt issued keys s1 (process_request r prov s q)"
    using i mark_run by (cases res) (simp_all add: process_request_def)
  finally show ?thesis .
qed

lemma process_pending_run:
  assumes "cache_of rt keys (router_cache r)" and "honest issued prov"
  shows "service_run rt issued keys s (process_pending r prov now locked s)"
proof -
  obtain s1 res where c: "claim_requests s (router_ref r) now (now + lease_duration (router_opts r))
      (nat (batch_size (router_opts r))) locked = (s1, res)" by fastforce
  have loop: "service_run rt issued keys u (foldl (process_request r prov) u reqs)" for u reqs
    by (induction reqs arbitrary: u) (auto intro: process_request_run[OF assms] rtranclp_trans)
  have one: "service_run rt issued keys s s1" using c by (rule claim_run)
  then show ?thesis
    using c loop by (cases res) (auto simp: process_pending_def intro: rtranclp_trans)
qed

lemma heartbeat_tick_run: "service_run rt issued keys s (heartbeat_tick r now s)"
proof -
  let ?s1 = "fst (heartbeat_replica s (router_ref r) (instance_name r) now)"
  have "service_run rt issued keys s ?s1"
    by (intro call_step shared heartbeat_step calls_keep_content)
  also have "service_run rt issued keys ?s1 (fst (delete_expired_requests ?s1 now))"
    by (intro call_step shared delete_step calls_keep_content)
  finally show ?thesis unfolding heartbeat_tick_def .
qed

subsection \<open>Asking another replica\<close>

lemma endpoint_answer:
  assumes "cache_store proofs = Some pg_store" and "map_option router_cache proof_router \<in> {None, Some proofs}"
    and "attestation_endpoint proofs proof_router prov s raw ticks cancelled = (s', resp)"
    and "resp_status resp = 200" and "query_get raw ''proof_ref'' \<noteq> []"
  shows "\<exists>b. resp = json_response (bundle_json b)
    \<and> db_content s' (query_get raw ''proof_ref'', query_get raw ''nonce'') = Some b"
  using assms(3)
proof (cases rule: endpoint_cases)
  case (answer res)
  obtain b where b: "res = Inr b" using answer(4) assms(4) by (auto simp: proof_response_ok is_ok_iff)
  then show ?thesis
    using answer(4) obtain_proof_stored[OF assms(1,2) answer(3)[unfolded b]] assms(5)
    by (auto simp: proof_response_def)
qed (use assms(4) in simp_all)

text \<open>
  C1: Any replica vouches for any other.  One replica has attested its key at startup, and signs a
  proxied JSON response.  The client asks any replica of the deployment for the proof that the
  response refers to, with a challenge of its own, and is answered 200, whether the proof was stored
  before, is issued now, or is obtained from the owner while the call waits, with the loops of all
  replicas running in between.  As long as no two replica keys have the same reference, the bundle in
  the answer carries a token that the platform issued for this challenge and the hash that binds the
  key of the signing replica; the bundle holds that key; and the key verifies the response.\<close>

theorem any_replica_vouches:
  assumes boot: "bootstrap_signing_identity rt generated (Some aud) prov0 t1 random1 = (memory, Inr i)"
    and signer: "identity_public_key i \<in> keys" "cfg_signer cfg = identity_signer i"
      "proof_reference cfg = proof_reference_of rt (identity_public_key i)" "limit_ok (max_json_bytes cfg)"
    and exchange: "on_request rt cfg rq = (rq', Some st)"
      "on_response rt cfg t0 random (Some st) (Some r) = Some r'"
      "header_get (rp_header r') HeaderProfile = Profile"
    and history: "db_content s0 = Map.empty" "service_run rt issued keys s0 s"
    and asked: "cache_of rt keys proofs" "map_option router_cache proof_router \<in> {None, Some proofs}"
      "honest issued prov" "\<forall>t\<in>set ticks. \<forall>s. service_run rt issued keys s (t s)"
      "attestation_endpoint proofs proof_router prov s raw ticks cancelled = (s', resp)"
      "resp_status resp = 200"
      "query_get raw ''proof_ref'' = header_get (rp_header r') HeaderProofReference"
    and references: "inj_on (proof_reference_of rt) keys"
    and scheme: "generated = Inr (pk0, sk0)" "\<And>m. ed_verify rt pk0 m (ed_sign rt sk0 m)"
    and host: "host_name (url_host (rq_url rq)) \<noteq> []" "is_ascii (host_name (url_host (rq_url rq)))"
    and times: "- 30 * second \<le> now - unix_seconds t0 * second"
      "now - unix_seconds t0 * second \<le> max_age" "max_age \<le> int64_max"
  shows "\<exists>b pk. resp = json_response (bundle_json b) \<and> b64_decode (public_key b) = Some pk
     \<and> pk = identity_public_key i \<and> challenge_nonce b = query_get raw ''nonce''
     \<and> issued [query_get raw ''nonce'', bind_nonce rt pk] (attestation_token b)
     \<and> (\<exists>ru ex sent leaf received fs gs.
          match_path (cfg_rules cfg) (url_path (rq_url rq)) = Some ru
          \<and> lookup_text_extractor rt (extractor ru) = Some ex
          \<and> rq_body rq' = Some sent \<and> extract_request ex (pending sent) (url_path (rq_url rq)) = Inr fs
          \<and> verified_leaf (rp_tls r) = Some leaf
          \<and> rp_body r' = Some received \<and> \<not> fails received
          \<and> extract_response ex (pending received) = Inr gs
          \<and> verify rt pk (rp_header r') (to_lower rt (host_name (url_host (rq_url rq))))
              (hex_encode (sha256 rt leaf)) (url_path (rq_url rq)) fs gs now max_age = Inr ())"
proof -
  let ?pk = "identity_public_key i"
  have named: "proof_reference cfg \<noteq> []" by (simp add: signer(3) proof_reference_of_def)
  have carried: "query_get raw ''proof_ref'' = proof_reference_of rt ?pk"
    using json_exchange_reference[OF signer(4) named exchange(2,3)] asked(7) signer(3) by simp
  then have "query_get raw ''proof_ref'' \<noteq> []" by (simp add: proof_reference_of_def)
  then obtain b where b: "resp = json_response (bundle_json b)"
    and stored: "db_content s' (proof_reference_of rt ?pk, query_get raw ''nonce'') = Some b"
    using endpoint_answer[OF cache_of_store[OF asked(1)] asked(2,5,6)] carried by auto
  have "all_vouched rt issued keys s0" using history(1) by (simp add: all_vouched_def)
  then have "all_vouched rt issued keys s'"
    using service_run_vouched history(2) endpoint_run[OF asked(1-5)] by blast
  then have "vouched rt issued keys b" using stored unfolding all_vouched_def by blast
  then obtain pk where pk: "pk \<in> keys" "proof_ref b = proof_reference_of rt pk"
    "b64_decode (public_key b) = Some pk" "issued [challenge_nonce b, bind_nonce rt pk] (attestation_token b)"
    unfolding vouched_def by blast
  have "bundle_key b = (proof_reference_of rt ?pk, query_get raw ''nonce'')"
    using stored by (rule db_content_key)
  then have key: "proof_reference_of rt pk = proof_reference_of rt ?pk"
    and nonce: "challenge_nonce b = query_get raw ''nonce''"
    using pk(2) by (simp_all add: bundle_key_def)
  have same: "pk = ?pk" using inj_onD[OF references key] pk(1) signer(1) by simp
  have "private_key (cfg_signer cfg) = sk0" "?pk = pk0"
    using bootstrap_Inr(1)[OF boot] scheme(1) by (simp_all add: signer(2) identity_signer_def)
  then have "ed_verify rt ?pk m (ed_sign rt (private_key (cfg_signer cfg)) m)" for m
    using scheme(2) by simp
  note exchange_ok = json_exchange_verifies[OF signer(4) exchange this bootstrap_length[OF boot] host times]
  show ?thesis
    using b pk(3,4) nonce same exchange_ok by (intro exI[of _ b] exI[of _ ?pk] conjI) simp_all
qed

end
