(* ===== verification/FederationSamples.thy ===== *)
theory FederationSamples
  imports ProgramSamples Federation
begin

section \<open>Two replicas and one response\<close>

text \<open>
  The replica of \<open>sample_identity\<close> has signed a response and has minted its proof for the client's
  challenge; the client asks a second replica, with another key, and the stored proof is found.
\<close>

definition sample_platform :: platform where
  "sample_platform nonces token \<longleftrightarrow> sample_provider nonces = Inr token"

definition second_key :: bytes where
  "second_key = replicate 32 CHR ''q''"

definition sample_keys_used :: "bytes set" where
  "sample_keys_used = {sample_public_key, second_key}"

definition second_cache :: "db cache" where
  "second_cache = \<lparr>cache_audience = ''aud'', cache_public_key = second_key, cache_key_id = ''k2'',
     cache_proof_ref = proof_reference_of sample_runtime second_key,
     cache_binding = bind_nonce sample_runtime second_key, cache_store = Some pg_store\<rparr>"

definition second_router :: router where
  "second_router = \<lparr>router_cache = second_cache, instance_name = ''tap-1'', router_opts = default_router_options\<rparr>"

lemma sample_honest: "honest sample_platform sample_provider"
  by (simp add: honest_def sample_platform_def)

lemma sample_references: "inj_on (proof_reference_of sample_runtime) sample_keys_used"
proof -
  have "proof_reference_of sample_runtime sample_public_key \<noteq> proof_reference_of sample_runtime second_key"
    by code_simp
  then show ?thesis by (simp add: sample_keys_used_def inj_on_def)
qed

lemma sample_caches:
  "cache_of sample_runtime sample_keys_used sample_proofs"
  "cache_of sample_runtime sample_keys_used second_cache"
proof -
  have "identity_public_key sample_identity \<in> sample_keys_used"
    by (simp add: sample_identity_def sample_keys_used_def)
  then show "cache_of sample_runtime sample_keys_used sample_proofs"
    using sample_proofs_new by (auto simp: cache_of_def)
  have "new_cache sample_runtime (Some ''aud'') second_key ''k2'' [Some pg_store] = Inr second_cache"
    by (simp add: new_cache_def second_cache_def second_key_def)
  then show "cache_of sample_runtime sample_keys_used second_cache"
    by (auto simp: cache_of_def sample_keys_used_def)
qed

lemma minted_run: "service_run sample_runtime sample_platform sample_keys_used (sample_db []) minted_db"
  using sample_caches(1) sample_honest sample_proofs_issue by (rule issue_run)

lemma second_answer:
  "attestation_endpoint second_cache (Some second_router) sample_provider minted_db sample_query [] False
     = (minted_db, json_response (bundle_json minted_bundle))"
proof -
  have "proof_reference_of sample_runtime sample_public_key \<noteq> cache_proof_ref second_cache"
    "proof_reference_of sample_runtime sample_public_key \<noteq> []"
    by code_simp+
  moreover have "faults minted_db = []" by (simp add: minted_db_def)
  ultimately show ?thesis
    by (simp add: attestation_endpoint_def sample_query_values obtain_proof_def proof_response_def Let_def
        resolve_def second_router_def pg_find_no_fault minted_content)
qed

theorem any_replica_vouches_witness:
  "\<exists>resp r' (b :: proof_bundle) fs gs.
     on_response sample_runtime attested_config sample_time (Some sample_nonce) (Some sample_state)
       (Some (sample_rp ''application/json'' sample_answer)) = Some r'
     \<and> attestation_endpoint second_cache (Some second_router) sample_provider minted_db sample_query [] False
       = (minted_db, resp)
     \<and> resp = json_response (bundle_json b)
     \<and> sample_platform [''challenge_1'', bind_nonce sample_runtime sample_public_key] (attestation_token b)
     \<and> verify sample_runtime sample_public_key (rp_header r') ''api.example''
         (hex_encode (sha256 sample_runtime ''leaf'')) ''/v1/chat/completions'' fs gs
         (1700000100 * second) (300 * second) = Inr ()"
proof -
  obtain r' where r': "on_response sample_runtime attested_config sample_time (Some sample_nonce)
      (Some sample_state) (Some (sample_rp ''application/json'' sample_answer)) = Some r'"
    "header_get (rp_header r') HeaderProfile = Profile"
    and q: "query_get sample_query ''proof_ref'' = header_get (rp_header r') HeaderProofReference"
    by (rule attested_response)
  have id: "identity_public_key sample_identity = sample_public_key" by (simp add: sample_identity_def)
  then have key: "identity_public_key sample_identity \<in> sample_keys_used"
    and ref: "proof_reference attested_config = proof_reference_of sample_runtime (identity_public_key sample_identity)"
    by (simp_all add: sample_keys_used_def)
  have ok: "resp_status (json_response (bundle_json minted_bundle)) = 200" by simp
  have empty: "db_content (sample_db []) = Map.empty" by (rule ext) simp
  have wired: "map_option router_cache (Some second_router) \<in> {None, Some second_cache}"
    by (simp add: second_router_def)
  have none: "\<forall>t\<in>set []. \<forall>s. service_run sample_runtime sample_platform sample_keys_used s (t s)" by simp
  from any_replica_vouches[OF sample_boot key attested_config_fields(1) ref attested_limit attested_on_request r'
      empty minted_run sample_caches(2) wired sample_honest none second_answer ok q sample_references
      sample_pair_def sample_keys(3) sample_host sample_times]
  obtain b :: proof_bundle and leaf fs gs where b: "json_response (bundle_json minted_bundle) = json_response (bundle_json b)"
    and "sample_platform [query_get sample_query ''nonce'', bind_nonce sample_runtime sample_public_key] (attestation_token b)"
    and "verified_leaf (rp_tls (sample_rp ''application/json'' sample_answer)) = Some leaf"
    and "verify sample_runtime sample_public_key (rp_header r')
       (to_lower sample_runtime (host_name (url_host (rq_url sample_rq))))
       (hex_encode (sha256 sample_runtime leaf)) (url_path (rq_url sample_rq)) fs gs (1700000100 * second)
       (300 * second) = Inr ()" unfolding id by blast
  then have "sample_platform [''challenge_1'', bind_nonce sample_runtime sample_public_key] (attestation_token b)"
    "verify sample_runtime sample_public_key (rp_header r') ''api.example''
         (hex_encode (sha256 sample_runtime ''leaf'')) ''/v1/chat/completions'' fs gs
         (1700000100 * second) (300 * second) = Inr ()"
    by (simp_all add: sample_url sample_query_values sample_rp_fields)
  with b second_answer r'(1) show ?thesis by blast
qed

end
