(* ===== verification/Spec2Isabelle.thy ===== *)
theory Spec2Isabelle
  imports ProxyProps ClusterSamples FederationSamples
begin

text \<open>
  TrustedAIProxy (TAP) runs in an attested confidential VM between a client and the API of a language
  model.  It intercepts HTTPS, extracts the conversation from the request and the response of the
  configured paths, and signs it, with the observed upstream host and certificate, under a key that
  exists only in the process.  The platform attests that key, so that a customer can check which
  program saw which answer of which upstream.  This development models the Go program in \<open>cmd/tap\<close>
  and \<open>internal\<close>, and proves what it promises.

  \<^bold>\<open>The program and its theories.\<close>  A Go function is a definition of the same name in lower case with
  underscores (\<open>Signer.Sign\<close> is \<open>sign\<close>, \<open>validateUniqueJSON\<close> is \<open>validate_unique_json\<close>), a struct
  a record, an \<open>(value, error)\<close> pair a value of the type \<open>result\<close>, with the error on the left.

  \<^item> \<open>PathRules\<close> (\<open>mitmproxy/pathrules.go\<close>): exact paths and single-segment templates, compiled into
    a trie (\<open>compile_path_rules\<close>) and matched with backtracking (\<open>match_path\<close>).  Proved equal to a
    reference that enumerates the generalisations of a path; acceptance, coverage and independence
    of the order in which Go iterates over the configured map.
  \<^item> \<open>Canonical\<close>, \<open>Attestation\<close> (\<open>attestation/attestation.go\<close>): signed fields, I-JSON checks, the
    claims and their canonical payload, two signing profiles (\<open>sign\<close>, \<open>sign_request_upstream\<close>) and
    their verifiers.  \<open>AttestationProps\<close> has the round trips and the separation of the profiles,
    \<open>AttestationBinding\<close> what a payload and an accepted signature determine.
  \<^item> \<open>Extractors\<close> (\<open>mitmproxy/text_extractors.go\<close>): the five extractors with the duplicate-key scan.
    \<open>ExtractorProps\<close>: exactness of the scan, completeness of messages, injectivity of the fields.
  \<^item> \<open>Proxy\<close> (\<open>mitmproxy/proxy.go\<close>): the handlers \<open>on_request\<close> and \<open>on_response\<close>, the inspection of
    bodies and the certificate store.  A body is the bytes still pending and whether reading them
    ends in an error.  \<open>ProxyProps\<close>: transparency, and that the signed responses verify.
  \<^item> \<open>ProofCache\<close> (\<open>proofcache/cache.go\<close>): \<open>new_cache\<close>, \<open>issue\<close>, \<open>find_proof\<close>, \<open>preflight\<close>, over
    a record of store operations; the locale \<open>proof_store\<close> is the contract of a store, and the facts
    about issuing are proved inside it.
  \<^item> \<open>Postgres\<close> (\<open>proofcache/postgres.go\<close>): the state \<open>db\<close> has the three tables as lists of rows, the
    time, and the list \<open>faults\<close> of what the database will do with the next statements.  One
    definition per method; the connection string from the environment or a secret.  \<open>PostgresProps\<close>
    interprets \<open>proof_store\<close> and has the invariants of the tables and the exactness and exclusiveness
    of claims; \<open>StoreConfig\<close> what a fresh proof attests, and the connection string.
  \<^item> \<open>Router\<close> (\<open>proofcache/router.go\<close>): \<open>resolve\<close> asks the owner of a proof through the request table
    and polls; \<open>process_pending\<close> and \<open>run_router\<close> are the loop of an owner.  \<open>RouterProps\<close>: answers,
    errors, service, and the bound on the work of a call.  \<open>Cluster\<close> cuts the loops of all owners into
    interleaved steps (\<open>cluster_step\<close>), with an invariant, and shows that the loop of the code refines
    them.
  \<^item> \<open>Secrets\<close> (\<open>gcpsecret/access.go\<close>), \<open>TokenClient\<close> (\<open>gcpattestation/client.go\<close>), \<open>CaFiles\<close>
    (\<open>mitmproxy/ca.go\<close>): the DSN from Secret Manager with its CRC-32C, the request to the launcher,
    and the files of the interception authority over a model of the disk.
  \<^item> \<open>Startup\<close>, \<open>Metadata\<close>, \<open>TapMain\<close> (\<open>cmd/tap/main.go\<close>): the rules file, the attested signing
    identity, the proof store; the two endpoints; and \<open>main\<close>, from its flags to the running server and
    to its shutdown.  The theories with \<open>Props\<close> have their properties.
  \<^item> \<open>EndToEnd\<close> composes all of it: from an attested startup over a proxied response and the
    attestation endpoint to a verified signature.  \<open>Federation\<close> does so for a deployment: the steps of
    \<open>service_step\<close> are what any replica may do to the shared database, the endpoint and the owners'
    loops are runs of them, and in every state they reach a client may ask any replica for the proof
    of a response that another one signed.  \<open>ClusterSamples\<close>, \<open>ProgramSamples\<close> and
    \<open>FederationSamples\<close> apply the theorems to concrete replicas, databases, files and messages.

  What the sources use of Go's standard library is modelled in \<open>GoStrings\<close>, \<open>GoEncoding\<close>, \<open>GoNet\<close>,
  \<open>HttpHeader\<close> and the theories \<open>Json\<close>, \<open>JsonText\<close>, \<open>JsonRender\<close>, \<open>JsonDecode\<close>, \<open>JsonMarshal\<close> and
  \<open>JsonValues\<close>: runes with U+FFFD for invalid bytes, \<open>strconv\<close>, \<open>base64\<close>, canonical header names,
  and the parser, decoder and encoder of \<open>encoding/json\<close>.  \<open>Prelude\<close> has the result type and the
  shared lemmas.

  \<^bold>\<open>How the parts interact.\<close>  \<open>main\<close> loads the rules and the authority, creates the key and has it
  attested once (\<open>preflight\<close>) before anything is signed, opens the store, registers the replica, and
  hands the rules, the signer and the proof reference to the proxy.  A response names the proof
  reference; the client asks any replica for the proof of that reference with a challenge of its own;
  the replica issues it itself, or asks the owner through the database.

  \<^bold>\<open>Parameters.\<close>  The record \<open>runtime\<close> holds Ed25519, SHA-256, the JCS transformation, the reading of a
  number as a double and case folding beyond ASCII; their documented behaviour (a signature verifies
  under the matching key and cannot be forged, texts of equal canonical form denote the same value) is
  a named hypothesis where a theorem needs it.  The launcher, the Secret Manager client, the database
  driver, \<open>crypto/x509\<close>, random sources, the files, the environment and the time are arguments.

  \<^bold>\<open>Bounds and fuel.\<close>  The JSON parser is given twice the length of the text as fuel; \<open>parse_fuel_enough\<close>
  shows that more changes nothing.  The duplicate-key scan is given the number of tokens, and
  \<open>scan_tokens\<close> shows that this is enough.  The polling loop recurs on the list of the ticks of its
  timer; the end of the list is the end of the context, so that \<open>resolve_terminates\<close> bounds its work.
  Integers of type \<open>int64\<close> are \<open>int\<close> with the wrap-around written out where a sum may leave the range;
  CRC-32C is computed on 32-bit words.

  \<^bold>\<open>Simplifications.\<close>  A statement or transaction of the database is atomic.  Times are in nanoseconds,
  of which PostgreSQL keeps the microseconds; row ids are left out.  The texts of library errors are
  abridged.  Minting a proof is one step of the cluster.  File modes are those before the umask.  The
  context of a request ends a wait but not a statement.  The mux is reduced to its two patterns on
  paths in canonical form.

  \<^bold>\<open>Not modelled.\<close>  The goproxy library with TLS, CONNECT and the routing of messages to the handlers;
  the server, transport and timeouts of \<open>net/http\<close>; signals; log output, except the target that is
  logged for a request; certificate generation inside the certificate store; the migration of the
  database schema.  The Python verifiers, the website and the deployment files are not part of the
  program.
\<close>

end
